(* ===== verification/Prelude.thy ===== *)
theory Prelude
  imports Main "HOL-Library.Word"
begin

text \<open>
  Shared vocabulary of the development: the machine integer types, the ways a run of the
  emulator can stop (\<open>panic\<close> of \<open>util.c\<close> and undefined behaviour of C), the result type of
  every fallible operation with its sequencing combinator, and the bit-field macros of
  \<open>util.h\<close> with the lemmas about single bits that the component theories share.
\<close>

unbundle bit_operations_syntax

section \<open>Types\<close>

type_synonym u8 = "8 word"
type_synonym u16 = "16 word"
type_synonym u32 = "32 word"
type_synonym u64 = "64 word"

section \<open>Results\<close>

text \<open>
  \<open>Panic f\<close>: the function \<open>f\<close> of the source called \<open>panic\<close>, which prints a message and
  exits the process.  \<open>UB f\<close>: the C code of \<open>f\<close> performs an access or a conversion the C
  standard leaves undefined (a null dereference, an index past an array, a shift by the
  operand's width or more, a read of an uninitialised variable).
  \<open>Nested f\<close>: a store to a device made the device store to the bus again, more often than
  the bound the model was given.  \<open>Hang f\<close>: the thread waits for something only it could do.
\<close>

datatype stop =
    Panic string
  | UB string
  | Nested string
  | Hang string

type_synonym 'a result = "stop + 'a"

definition and_then :: "'a result \<Rightarrow> ('a \<Rightarrow> 'b result) \<Rightarrow> 'b result" where
  "and_then m f = (case m of Inl e \<Rightarrow> Inl e | Inr x \<Rightarrow> f x)"

text \<open>\<open>succeeds P m\<close>: if \<open>m\<close> returns, the result satisfies \<open>P\<close>.\<close>

definition succeeds :: "('a \<Rightarrow> bool) \<Rightarrow> 'a result \<Rightarrow> bool" where
  "succeeds P m \<longleftrightarrow> (case m of Inl e \<Rightarrow> True | Inr x \<Rightarrow> P x)"

named_theorems word_bits \<open>which bits of a word-valued operation are set\<close>
named_theorems keeps \<open>an operation keeps an invariant\<close>

lemma and_then_Inl [simp]: "and_then (Inl e) f = Inl e"
  by (simp add: and_then_def)

lemma and_then_Inr [simp]: "and_then (Inr x) f = f x"
  by (simp add: and_then_def)

lemma and_then_eq_Inr:
  "and_then m f = Inr y \<longleftrightarrow> (\<exists>x. m = Inr x \<and> f x = Inr y)"
  by (cases m) auto

lemma and_then_assoc: "and_then (and_then m f) g = and_then m (\<lambda>x. and_then (f x) g)"
  by (cases m) auto

lemma and_then_cong [fundef_cong]:
  "m = m' \<Longrightarrow> (\<And>x. m' = Inr x \<Longrightarrow> f x = g x) \<Longrightarrow> and_then m f = and_then m' g"
  by (cases m') auto

lemma succeeds_Inl [simp]: "succeeds P (Inl e)"
  by (simp add: succeeds_def)

lemma succeeds_Inr [simp]: "succeeds P (Inr x) \<longleftrightarrow> P x"
  by (simp add: succeeds_def)

lemma succeeds_and_then [simp]:
  "succeeds P (and_then m f) \<longleftrightarrow> succeeds (\<lambda>x. succeeds P (f x)) m"
  by (cases m) auto

lemma succeeds_True [simp]: "succeeds (\<lambda>x. True) m"
  by (cases m) auto

lemma succeeds_case_option [simp]:
  "succeeds P (case x of None \<Rightarrow> m | Some y \<Rightarrow> f y) \<longleftrightarrow>
     (x = None \<longrightarrow> succeeds P m) \<and> (\<forall>y. x = Some y \<longrightarrow> succeeds P (f y))"
  by (cases x) auto

lemma succeeds_mono: "succeeds P m \<Longrightarrow> (\<And>x. P x \<Longrightarrow> Q x) \<Longrightarrow> succeeds Q m"
  by (cases m) auto

lemma succeedsD: "succeeds P m \<Longrightarrow> m = Inr x \<Longrightarrow> P x"
  by simp

lemma succeeds_if [simp]:
  "succeeds P (if b then m else m') \<longleftrightarrow> (b \<longrightarrow> succeeds P m) \<and> (\<not> b \<longrightarrow> succeeds P m')"
  by simp

section \<open>The bit-field macros of \<open>util.h\<close>\<close>

text \<open>
  The macros mix operands of 16, 32 and 64 bits; the literals \<open>1UL\<close> make every result
  64 bits wide, so the source operand is of any width here and the result is a \<open>u64\<close>.
\<close>

definition BITS :: "'a::len word \<Rightarrow> nat \<Rightarrow> nat \<Rightarrow> u64" where
  "BITS src high low = ucast (drop_bit low src) AND (push_bit (high - low + 1) 1 - 1)"

definition BIT :: "'a::len word \<Rightarrow> nat \<Rightarrow> u64" where
  "BIT src index = ucast (drop_bit index src) AND 1"

definition EXPAND_BIT :: "'a::len word \<Rightarrow> nat \<Rightarrow> nat \<Rightarrow> u64" where
  "EXPAND_BIT src index num =
     (if ucast (drop_bit index src) AND (1::u64) \<noteq> 0 then push_bit num 1 - 1 else 0)"

definition TO_WORD :: "u64 \<Rightarrow> u64" where
  "TO_WORD n = push_bit 32 (EXPAND_BIT n 31 32) OR BITS n 31 0"

definition BITS_MASK :: "nat \<Rightarrow> nat \<Rightarrow> u64" where
  "BITS_MASK high low = push_bit low (push_bit (high - low + 1) 1 - 1)"

definition SET_BITS :: "u64 \<Rightarrow> nat \<Rightarrow> nat \<Rightarrow> u64 \<Rightarrow> u64" where
  "SET_BITS dest high low bits = (dest AND NOT (BITS_MASK high low)) OR push_bit low bits"

definition SET_BIT :: "u64 \<Rightarrow> nat \<Rightarrow> u64 \<Rightarrow> u64" where
  "SET_BIT dest index b = (dest AND NOT (push_bit index 1)) OR push_bit index b"

definition ROUND_UP :: "u64 \<Rightarrow> u64 \<Rightarrow> u64" where
  "ROUND_UP x n = (x + n - 1) AND NOT (n - 1)"

definition ALIGN_DOWN :: "u64 \<Rightarrow> u64 \<Rightarrow> u64" where
  "ALIGN_DOWN n m = n div m * m"

definition ALIGN_UP :: "u64 \<Rightarrow> u64 \<Rightarrow> u64" where
  "ALIGN_UP n m = ALIGN_DOWN (n + m - 1) m"

section \<open>Which bits the macros select\<close>

lemma push_bit_minus_1: "push_bit n 1 - 1 = (mask n :: 'a::len word)"
  by (simp add: mask_eq_exp_minus_1)

lemma word_and_one_zero: "(w AND 1 = (0::'a::len word)) \<longleftrightarrow> \<not> bit w 0"
  by (simp add: and_one_eq mod_2_eq_odd bit_0)

lemma ucast_and_one_zero:
  "(ucast (drop_bit i x) AND 1 = (0::u64)) \<longleftrightarrow> \<not> bit x i"
  by (simp add: word_and_one_zero bit_simps)

lemma bit_BITS [word_bits]:
  "bit (BITS x h l) n \<longleftrightarrow> n < 64 \<and> n \<le> h - l \<and> bit x (l + n)"
  unfolding BITS_def push_bit_minus_1 by (auto simp: bit_simps)

lemma bit_BIT [word_bits]: "bit (BIT x i) n \<longleftrightarrow> n = 0 \<and> bit x i"
  by (auto simp: BIT_def bit_simps)

lemma bit_EXPAND_BIT [word_bits]:
  "bit (EXPAND_BIT x i m) n \<longleftrightarrow> n < 64 \<and> n < m \<and> bit x i"
  unfolding EXPAND_BIT_def push_bit_minus_1 ucast_and_one_zero by (auto simp: bit_simps)

lemma bit_TO_WORD [word_bits]:
  "bit (TO_WORD x) n \<longleftrightarrow> n < 64 \<and> bit x (if n < 32 then n else 31)"
  by (auto simp: TO_WORD_def bit_simps word_bits)

lemma bit_SET_BIT [word_bits]:
  "bit (SET_BIT d i b) n \<longleftrightarrow> n < 64 \<and> (n \<noteq> i \<and> bit d n \<or> i \<le> n \<and> bit b (n - i))"
  by (auto simp: SET_BIT_def bit_simps)

lemma bit_SET_BITS [word_bits]:
  "bit (SET_BITS d h l b) n \<longleftrightarrow>
     n < 64 \<and> (bit d n \<and> \<not> (l \<le> n \<and> n - l \<le> h - l) \<or> l \<le> n \<and> bit b (n - l))"
  unfolding SET_BITS_def BITS_MASK_def push_bit_minus_1 by (auto simp: bit_simps)

lemma BIT_eq: "BIT x i = (if bit x i then 1 else 0)"
  by (rule bit_word_eqI) (auto simp: word_bits bit_simps)

lemma BIT_0_or_1: "BIT x i = 0 \<or> BIT x i = 1"
  by (simp add: BIT_eq)

lemma BITS_eq_take_bit: "BITS x h l = take_bit (h - l + 1) (ucast (drop_bit l x))"
  by (rule bit_word_eqI) (auto simp: word_bits bit_simps dest: bit_imp_le_length)

lemma unat_BITS_less: "h - l < 63 \<Longrightarrow> unat (BITS x h l) < 2 ^ (h - l + 1)"
  by (simp add: BITS_eq_take_bit unsigned_take_bit_eq del: power_Suc)

lemma bit_less_exp:
  fixes w :: "'a::len word"
  assumes "w < 2 ^ k" "bit w n"
  shows "n < k"
proof (rule ccontr)
  assume "\<not> n < k"
  moreover have "w AND mask k = w"
    using assms(1) by (rule less_mask_eq)
  then have "bit (w AND mask k) n"
    using assms(2) by simp
  ultimately show False
    by (simp add: bit_simps)
qed

lemma TO_WORD_eq: "TO_WORD x = scast (ucast x :: u32)"
  by (rule bit_word_eqI) (auto simp: word_bits bit_simps)

end
