(* ===== verification/CString.thy ===== *)
theory CString
  imports Prelude
begin

text \<open>
  What the source uses of \<open>string.h\<close>, \<open>stdlib.h\<close> and \<open>stdio.h\<close> on text: a C string is the list of
  its bytes before the terminating zero, a file its contents.
\<close>

type_synonym cstring = "u8 list"

definition str :: "string \<Rightarrow> cstring" where
  "str s = map of_char s"

text \<open>The string that starts at an array: its bytes up to the first zero.\<close>

definition cstr :: "u8 list \<Rightarrow> cstring" where
  "cstr bs = takeWhile (\<lambda>c. c \<noteq> 0) bs"

definition has_prefix :: "cstring \<Rightarrow> cstring \<Rightarrow> bool" where
  "has_prefix pre s \<longleftrightarrow> take (length pre) s = pre"

text \<open>\<open>streq\<close> of \<open>util.h\<close>.\<close>

definition streq :: "cstring \<Rightarrow> cstring \<Rightarrow> bool" where
  [simp]: "streq s t \<longleftrightarrow> s = t"

definition strchr :: "u8 \<Rightarrow> cstring \<Rightarrow> nat option" where
  "strchr c s = (if c \<in> set s then Some (length (takeWhile (\<lambda>x. x \<noteq> c) s)) else None)"

text \<open>\<open>strrchr\<close>, as the string it points to.\<close>

fun strrchr :: "u8 \<Rightarrow> cstring \<Rightarrow> cstring option" where
  "strrchr c [] = None"
| "strrchr c (x # xs) =
     (case strrchr c xs of
        Some t \<Rightarrow> Some t
      | None \<Rightarrow> if x = c then Some (x # xs) else None)"

fun strstr :: "cstring \<Rightarrow> cstring \<Rightarrow> bool" where
  "strstr pat [] = (pat = [])"
| "strstr pat (x # xs) = (has_prefix pat (x # xs) \<or> strstr pat xs)"

section \<open>Numbers\<close>

definition isspace :: "u8 \<Rightarrow> bool" where
  "isspace c \<longleftrightarrow> c = 32 \<or> 9 \<le> c \<and> c \<le> 13"

definition hex_digit :: "u8 \<Rightarrow> nat option" where
  "hex_digit c =
    (if 48 \<le> c \<and> c \<le> 57 then Some (unat c - 48)
     else if 97 \<le> c \<and> c \<le> 102 then Some (unat c - 87)
     else if 65 \<le> c \<and> c \<le> 70 then Some (unat c - 55)
     else None)"

fun hex_digits :: "nat \<Rightarrow> cstring \<Rightarrow> nat \<times> cstring" where
  "hex_digits acc [] = (acc, [])"
| "hex_digits acc (c # cs) =
     (case hex_digit c of None \<Rightarrow> (acc, c # cs) | Some d \<Rightarrow> hex_digits (16 * acc + d) cs)"

definition starts_hex :: "cstring \<Rightarrow> bool" where
  "starts_hex s \<longleftrightarrow> (case s of [] \<Rightarrow> False | c # cs \<Rightarrow> hex_digit c \<noteq> None)"

text \<open>\<open>strtoul(s, &end, 16)\<close>: the value, \<open>ULONG_MAX\<close> when it does not fit, and the string at \<open>end\<close>.\<close>

definition strtoul16 :: "cstring \<Rightarrow> u64 \<times> cstring" where
  "strtoul16 s =
    (let t = dropWhile isspace s;
         neg = (case t of c # cs \<Rightarrow> c = 45 | [] \<Rightarrow> False);
         t = (case t of c # cs \<Rightarrow> if c = 45 \<or> c = 43 then cs else t | [] \<Rightarrow> t);
         t = (if take 1 t = [48] \<and> (take 1 (drop 1 t) = [120] \<or> take 1 (drop 1 t) = [88]) \<and>
                 starts_hex (drop 2 t) then drop 2 t else t) in
     if \<not> starts_hex t then (0, s)
     else
       let (v, rest) = hex_digits 0 t in
       (if 2 ^ 64 \<le> v then - 1 else if neg then - word_of_nat v else word_of_nat v, rest))"

section \<open>Lines\<close>

text \<open>\<open>fgets(line, n, fp)\<close>: at most \<open>n - 1\<close> bytes, up to and with a newline.\<close>

definition fgets :: "nat \<Rightarrow> u8 list \<Rightarrow> u8 list \<times> u8 list" where
  "fgets n bs =
    (let l = take (n - 1) bs; k = length (takeWhile (\<lambda>c. c \<noteq> 10) l) in
     if k < length l then (take (Suc k) bs, drop (Suc k) bs) else (l, drop (n - 1) bs))"

lemma fgets_shorter:
  assumes "bs \<noteq> []" "1 < n"
  shows "length (snd (fgets n bs)) < length bs"
proof -
  have "0 < length bs" using assms(1) by simp
  then have "Suc (length bs) - n < length bs" using assms(2) by linarith
  then show ?thesis using assms(1) by (auto simp: fgets_def Let_def)
qed

text \<open>The strings a loop over \<open>fgets\<close> with a buffer of 256 bytes sees.\<close>

function file_lines :: "u8 list \<Rightarrow> cstring list" where
  "file_lines bs =
    (if bs = [] then [] else cstr (fst (fgets 256 bs)) # file_lines (snd (fgets 256 bs)))"
  by pat_completeness auto
termination
  by (relation "measure length") (auto intro: fgets_shorter)

declare file_lines.simps [simp del]

end
