(* ===== verification/SystemMap.thy ===== *)
theory SystemMap
  imports CString
begin

text \<open>
  \<open>system_map.c\<close>: the table of kernel symbols read from \<open>image/System.map\<close>.  A line is a
  hexadecimal address, a space, one letter, a space and the name.
\<close>

record system_map_item =
  item_name :: cstring
  item_addr :: u64

text \<open>
  One line, as \<open>fgets\<close> leaves it.  \<open>strtoul\<close> moves \<open>end\<close> to the end of the number; the name
  starts three bytes later and ends before the newline, if there is one.
\<close>

definition map_line :: "cstring \<Rightarrow> system_map_item option result" where
  "map_line line =
    (if strchr 32 line = None then Inr None
     else
       let (addr, rest) = strtoul16 line in
       if length rest < 3 then Inl (UB ''setup_system_map'')
       else Inr (Some \<lparr>item_name = takeWhile (\<lambda>c. c \<noteq> 10) (drop 3 rest), item_addr = addr\<rparr>))"

fun add_lines :: "cstring list \<Rightarrow> system_map_item list \<Rightarrow> system_map_item list result" where
  "add_lines [] table = Inr table"
| "add_lines (line # ls) table =
     and_then (map_line line) (\<lambda>item.
       add_lines ls (case item of None \<Rightarrow> table | Some x \<Rightarrow> table @ [x]))"

definition setup_system_map :: "u8 list option \<Rightarrow> system_map_item list result" where
  "setup_system_map file =
    (case file of
       None \<Rightarrow> Inl (Panic ''setup_system_map'')
     | Some bs \<Rightarrow> add_lines (file_lines bs) [])"

definition match_in_system_map :: "system_map_item list \<Rightarrow> cstring \<Rightarrow> (cstring \<times> u64) option" where
  "match_in_system_map table name =
    (case find (\<lambda>x. item_name x = name) table of
       None \<Rightarrow> None
     | Some x \<Rightarrow> Some (item_name x, item_addr x))"

section \<open>Writing such a file\<close>

definition hex_char :: "nat \<Rightarrow> u8" where
  "hex_char d = (if d < 10 then of_nat (48 + d) else of_nat (87 + d))"

fun hex :: "nat \<Rightarrow> nat \<Rightarrow> cstring" where
  "hex 0 v = []"
| "hex (Suc n) v = hex n (v div 16) @ [hex_char (v mod 16)]"

definition item_line :: "system_map_item \<Rightarrow> u8 list" where
  "item_line x = hex 16 (unat (item_addr x)) @ [32, 84, 32] @ item_name x @ [10]"

lemma less_16: "d < 16 \<Longrightarrow> d \<in> {0, 1, 2, 3, 4, 5, 6, 7, 8, 9, 10, 11, 12, 13, 14, 15 :: nat}"
proof -
  assume "d < 16"
  then have "d \<in> set [0..<16]" by simp
  also have "[0..<16] = [0, 1, 2, 3, 4, 5, 6, 7, 8, 9, 10, 11, 12, 13, 14, 15]" by code_simp
  finally show ?thesis by simp
qed

lemma hex_char_digit:
  assumes "d < 16"
  shows "hex_digit (hex_char d) = Some d" "\<not> isspace (hex_char d)" "hex_char d \<notin> {0, 10, 32, 43, 45, 88, 120}"
  using less_16 [OF assms]
  by (simp_all only: insert_iff empty_iff) (elim disjE; simp add: hex_digit_def hex_char_def isspace_def)+

lemma hex_simps [simp]: "length (hex n v) = n"
  by (induction n v rule: hex.induct) auto

lemma hex_chars: "c \<in> set (hex n v) \<Longrightarrow> \<exists>d<16. c = hex_char d"
proof (induction n v rule: hex.induct)
  case (2 n v)
  have "\<exists>d<16. hex_char (v mod 16) = hex_char d" by (rule exI [of _ "v mod 16"]) simp
  then show ?case using 2 by auto
qed simp

lemma hex_digits_hex:
  "hex_digits acc (hex n v @ rest) = hex_digits (acc * 16 ^ n + v mod 16 ^ n) rest"
proof (induction n v arbitrary: acc rest rule: hex.induct)
  case (2 n v)
  show ?case using 2 [of acc "hex_char (v mod 16) # rest"] hex_char_digit(1) [of "v mod 16"]
    by (simp add: mod_mult2_eq algebra_simps)
qed simp

lemma strtoul16_hex:
  fixes v :: u64
  shows "strtoul16 (hex 16 (unat v) @ 32 # rest) = (v, 32 # rest)"
proof -
  obtain d e ds where hex: "hex 16 (unat v) = hex_char d # hex_char e # ds" "d < 16" "e < 16"
  proof -
    have "length (hex 16 (unat v)) = 16" by simp
    then obtain x y ds where "hex 16 (unat v) = x # y # ds"
      by (metis Suc_length_conv numeral_eq_Suc pred_numeral_simps(2))
    then show thesis using that hex_chars [of x 16 "unat v"] hex_chars [of y 16 "unat v"] by auto
  qed
  note d = hex_char_digit [OF hex(2)] and e = hex_char_digit [OF hex(3)]
  have "unat v < 2 ^ LENGTH(64)" by (rule unsigned_less)
  then have v: "unat v < 16 ^ 16" by simp
  have "hex_digits 0 (hex 16 (unat v) @ 32 # rest) = (unat v, 32 # rest)"
    by (simp only: hex_digits_hex mod_less [OF v]) (simp add: hex_digit_def)
  moreover have "unat v < 2 ^ 64" using v by simp
  ultimately show ?thesis
    using d e by (simp add: strtoul16_def hex(1) Let_def starts_hex_def)
qed

lemma fgets_line:
  assumes "10 \<notin> set xs" "length xs < n - 1"
  shows "fgets n (xs @ 10 # bs) = (xs @ [10], bs)"
proof -
  have "take (n - 1) (xs @ 10 # bs) = xs @ 10 # take (n - 2 - length xs) bs"
    using assms(2) by (simp add: take_Cons' numeral_2_eq_2)
  moreover have "takeWhile (\<lambda>c. c \<noteq> 10) (xs @ 10 # ys) = xs" for ys
    using assms(1) by (subst takeWhile_append2) auto
  ultimately show ?thesis by (simp add: fgets_def Let_def)
qed

text \<open>What a name in the map may be: printable, and short enough for the line buffer.\<close>

definition map_name :: "cstring \<Rightarrow> bool" where
  "map_name n \<longleftrightarrow> 0 \<notin> set n \<and> 10 \<notin> set n \<and> length n \<le> 200"

lemma map_line_item:
  assumes "map_name (item_name x)"
  shows "map_line (item_line x) = Inr (Some x)"
proof -
  have "strtoul16 (item_line x) = (item_addr x, [32, 84, 32] @ item_name x @ [10])"
    using strtoul16_hex by (simp add: item_line_def)
  moreover have "strchr 32 (item_line x) \<noteq> None" by (simp add: strchr_def item_line_def)
  moreover have "takeWhile (\<lambda>c. c \<noteq> 10) (item_name x @ [10]) = item_name x"
    using assms by (subst takeWhile_append2) (auto simp: map_name_def)
  ultimately show ?thesis by (simp add: map_line_def)
qed

lemma file_lines_items:
  assumes "\<forall>x\<in>set xs. map_name (item_name x)"
  shows "file_lines (concat (map item_line xs)) = map item_line xs"
  using assms
proof (induction xs)
  case (Cons x xs)
  let ?l = "hex 16 (unat (item_addr x)) @ [32, 84, 32] @ item_name x"
  have c: "c \<notin> set (hex 16 (unat (item_addr x)))" if "c = 0 \<or> c = 10" for c
    using that hex_chars hex_char_digit(3) by fastforce
  have l: "item_line x = ?l @ [10]" by (simp add: item_line_def)
  have "10 \<notin> set ?l" "length ?l < 256 - 1" "0 \<notin> set (?l @ [10])"
    using Cons.prems c by (auto simp: map_name_def)
  then have "fgets 256 (item_line x @ concat (map item_line xs)) = (item_line x, concat (map item_line xs))"
    "cstr (item_line x) = item_line x"
    using fgets_line [of ?l 256] l by (auto simp: cstr_def takeWhile_eq_all_conv)
  moreover have "item_line x \<noteq> []" by (simp add: item_line_def)
  ultimately show ?case using Cons by (subst file_lines.simps) simp
qed (simp add: file_lines.simps)

text \<open>A map written in the kernel's format is read back entry by entry, and a lookup finds the
  first entry of the name, with its address.
\<close>

theorem system_map_round_trip:
  assumes "\<forall>x\<in>set xs. map_name (item_name x)"
  shows "setup_system_map (Some (concat (map item_line xs))) = Inr xs \<and>
    match_in_system_map xs name =
      map_option (\<lambda>x. (name, item_addr x)) (find (\<lambda>x. item_name x = name) xs)"
proof
  have "add_lines (map item_line ys) table = Inr (table @ ys)" if "\<forall>x\<in>set ys. map_name (item_name x)" for ys table
    using that by (induction ys arbitrary: table) (simp_all add: map_line_item)
  then show "setup_system_map (Some (concat (map item_line xs))) = Inr xs"
    using assms by (simp add: setup_system_map_def file_lines_items)
  show "match_in_system_map xs name =
      map_option (\<lambda>x. (name, item_addr x)) (find (\<lambda>x. item_name x = name) xs)"
  proof (cases "find (\<lambda>x. item_name x = name) xs")
    case (Some x)
    then have "item_name x = name" by (auto simp: find_Some_iff)
    then show ?thesis using Some by (simp add: match_in_system_map_def)
  qed (simp add: match_in_system_map_def)
qed

lemma system_map_round_trip_witness:
  "match_in_system_map [\<lparr>item_name = str ''_start'', item_addr = 0x80200000\<rparr>] (str ''_start'') =
     Some (str ''_start'', 0x80200000)"
  using system_map_round_trip [of "[\<lparr>item_name = str ''_start'', item_addr = 0x80200000\<rparr>]" "str ''_start''"]
  by (simp add: map_name_def str_def String.of_char_def)

end
