(* ===== verification/Trace.thy ===== *)
theory Trace
  imports SystemMap
begin

text \<open>
  \<open>yaml.c\<close> and the table of \<open>trace.c\<close>: the configuration \<open>conf/trace.yml\<close>, parsed into at most 64
  trace items, and \<open>_match_pc\<close>, which picks the item for each instruction of the main loop.
  The printing itself (\<open>trace\<close>) is compiled out of the main loop.
\<close>

section \<open>The configuration file\<close>

datatype token = TOKEN_OBJ | TOKEN_KV

text \<open>
  \<open>parse_line\<close>, as the arguments of the callback.  A value without a newline is copied with a
  count that runs over the buffer.
\<close>

definition parse_line :: "cstring \<Rightarrow> (token \<times> cstring \<times> cstring) option result" where
  "parse_line line =
    (let begin = dropWhile (\<lambda>c. c = 32) line in
     if begin = [] \<or> hd begin = 35 then Inr None
     else case strchr 58 begin of
       None \<Rightarrow> Inr None
     | Some k \<Rightarrow>
         let name = take k begin; rest = drop (Suc k) begin in
         if take 1 rest = [10] then Inr (Some (TOKEN_OBJ, name, []))
         else if take 1 rest \<noteq> [32] then Inl (Panic ''parse_line'')
         else case strchr 10 (drop 1 rest) of
           None \<Rightarrow> Inl (UB ''parse_line'')
         | Some l \<Rightarrow> Inr (Some (TOKEN_KV, name, take l (drop 1 rest))))"

section \<open>The table\<close>

record watch_item =
  watch_name :: cstring
  watch_type :: u8

record trace_item =
  trace_name :: cstring
  trace_enabled :: bool
  trace_addr :: u64
  trace_no_mmu :: bool
  trace_stack :: int
  trace_ninst :: int
  watch_list :: "watch_item list"

record trace_state =
  trace_table :: "trace_item list"
  item_in_process :: "nat option"

definition va_pa_offset :: u64 where
  "va_pa_offset = 0xffffffe000000000 - 0x80200000"

definition va_to_pa :: "u64 \<Rightarrow> u64" where
  "va_to_pa va = va - va_pa_offset"

definition dec_digits :: "cstring \<Rightarrow> int" where
  "dec_digits s = foldl (\<lambda>n c. 10 * n + int (unat c - 48)) 0 (takeWhile (\<lambda>c. 48 \<le> c \<and> c \<le> 57) s)"

definition atoi :: "cstring \<Rightarrow> int result" where
  "atoi s =
    (let t = dropWhile isspace s;
         v = (if take 1 t = [45] then - dec_digits (drop 1 t)
              else if take 1 t = [43] then dec_digits (drop 1 t) else dec_digits t) in
     if - (2 ^ 31) \<le> v \<and> v < 2 ^ 31 then Inr v else Inl (UB ''atoi''))"

definition parse_watch :: "cstring \<Rightarrow> watch_item" where
  "parse_watch value =
    (case strchr 44 value of
       None \<Rightarrow> \<lparr>watch_name = value, watch_type = 100\<rparr>
     | Some k \<Rightarrow> \<lparr>watch_name = take k value,
                  watch_type = (case drop (Suc k) value of [] \<Rightarrow> 0 | c # cs \<Rightarrow> c)\<rparr>)"

definition set_key :: "cstring \<Rightarrow> cstring \<Rightarrow> trace_item \<Rightarrow> trace_item result" where
  "set_key key value item =
    (if streq key (str ''enabled'') then Inr (item\<lparr>trace_enabled := streq value (str ''true'')\<rparr>)
     else if streq key (str ''no_mmu'') then
       Inr (item\<lparr>trace_no_mmu := streq value (str ''true''), trace_addr := va_to_pa (trace_addr item)\<rparr>)
     else if streq key (str ''stack'') then and_then (atoi value) (\<lambda>n. Inr (item\<lparr>trace_stack := n\<rparr>))
     else if streq key (str ''ninst'') then and_then (atoi value) (\<lambda>n. Inr (item\<lparr>trace_ninst := n\<rparr>))
     else if streq key (str ''watch'') then Inr (item\<lparr>watch_list := watch_list item @ [parse_watch value]\<rparr>)
     else Inr item)"

abbreviation (input) TRACE_ITEM_MAXNUM :: nat where "TRACE_ITEM_MAXNUM \<equiv> 64"

definition trace_parse_cb ::
  "system_map_item list \<Rightarrow> token \<times> cstring \<times> cstring \<Rightarrow> trace_item list \<Rightarrow> trace_item list result" where
  "trace_parse_cb smap ev table = (case ev of
      (TOKEN_OBJ, key, value) \<Rightarrow>
        if TRACE_ITEM_MAXNUM \<le> length table then Inl (UB ''trace_parse_cb'')
        else (case match_in_system_map smap key of
          None \<Rightarrow> Inl (Panic ''trace_parse_cb'')
        | Some (name, addr) \<Rightarrow>
            Inr (table @ [\<lparr>trace_name = name, trace_enabled = False, trace_addr = addr,
              trace_no_mmu = False, trace_stack = 0, trace_ninst = 0, watch_list = []\<rparr>]))
    | (TOKEN_KV, key, value) \<Rightarrow>
        if table = [] then Inl (UB ''trace_parse_cb'')
        else and_then (set_key key value (last table)) (\<lambda>item. Inr (butlast table @ [item])))"

fun parse_lines :: "system_map_item list \<Rightarrow> cstring list \<Rightarrow> trace_item list \<Rightarrow> trace_item list result" where
  "parse_lines smap [] table = Inr table"
| "parse_lines smap (line # ls) table =
     and_then (parse_line line) (\<lambda>ev.
     and_then (case ev of None \<Rightarrow> Inr table | Some e \<Rightarrow> trace_parse_cb smap e table) (\<lambda>table.
       parse_lines smap ls table))"

text \<open>\<open>setup_trace_table\<close>, which is \<open>parse_yaml\<close> with \<open>trace_parse_cb\<close>.\<close>

definition setup_trace_table :: "system_map_item list \<Rightarrow> u8 list option \<Rightarrow> trace_state result" where
  "setup_trace_table smap file =
    (case file of
       None \<Rightarrow> Inl (Panic ''parse_yaml'')
     | Some bs \<Rightarrow> and_then (parse_lines smap (file_lines bs) []) (\<lambda>table.
         Inr \<lparr>trace_table = table, item_in_process = None\<rparr>))"

section \<open>Choosing the item\<close>

fun find_pc :: "u64 \<Rightarrow> trace_item list \<Rightarrow> nat \<Rightarrow> nat option" where
  "find_pc pc [] i = None"
| "find_pc pc (x # xs) i = (if pc = trace_addr x then Some i else find_pc pc xs (Suc i))"

definition match_pc :: "u64 \<Rightarrow> trace_state \<Rightarrow> nat option \<times> trace_state" where
  "match_pc pc s =
    (let search = (\<lambda>s. case find_pc pc (trace_table s) 0 of
           None \<Rightarrow> (None, s)
         | Some i \<Rightarrow> (Some i, if 0 < trace_ninst (trace_table s ! i)
                              then s\<lparr>item_in_process := Some i\<rparr> else s)) in
     case item_in_process s of
       None \<Rightarrow> search s
     | Some i \<Rightarrow>
         let item = trace_table s ! i in
         if 0 < trace_ninst item
         then (Some i, s\<lparr>trace_table := (trace_table s)[i := item\<lparr>trace_ninst := trace_ninst item - 1\<rparr>]\<rparr>)
         else search (s\<lparr>item_in_process := None\<rparr>))"

fun match_pcs :: "u64 list \<Rightarrow> trace_state \<Rightarrow> nat option list \<times> trace_state" where
  "match_pcs [] s = ([], s)"
| "match_pcs (pc # pcs) s =
     (let (r, s) = match_pc pc s; (rs, s) = match_pcs pcs s in (r # rs, s))"

definition conv_to_size :: "u8 \<Rightarrow> u64 result" where
  "conv_to_size c =
    (if c = 100 then Inr 8 else if c = 119 then Inr 4 else if c = 104 then Inr 2
     else if c = 98 then Inr 1 else Inl (Panic ''_conv_to_size''))"

section \<open>Properties\<close>

definition trace_inv :: "trace_state \<Rightarrow> bool" where
  "trace_inv s \<longleftrightarrow> length (trace_table s) \<le> TRACE_ITEM_MAXNUM \<and>
     (\<forall>i. item_in_process s = Some i \<longrightarrow> i < length (trace_table s))"

lemma trace_parse_cb_bound: "trace_parse_cb smap ev table = Inr t \<Longrightarrow> length table \<le> 64 \<Longrightarrow> length t \<le> 64"
  by (auto simp: trace_parse_cb_def and_then_eq_Inr split: token.splits prod.splits option.splits if_splits)

lemma parse_lines_bound: "parse_lines smap ls table = Inr t \<Longrightarrow> length table \<le> 64 \<Longrightarrow> length t \<le> 64"
proof (induction ls arbitrary: table)
  case (Cons l ls)
  then obtain ev t1 where "(case ev of None \<Rightarrow> Inr table | Some e \<Rightarrow> trace_parse_cb smap e table) = Inr t1"
      "parse_lines smap ls t1 = Inr t"
    by (auto simp: and_then_eq_Inr)
  then show ?case using Cons.IH Cons.prems(2) trace_parse_cb_bound by (cases ev) auto
qed simp

lemma setup_trace_inv: "setup_trace_table smap bs = Inr s \<Longrightarrow> trace_inv s"
  using parse_lines_bound [of smap _ "[]"]
  by (fastforce simp: setup_trace_table_def trace_inv_def and_then_eq_Inr split: option.splits)

lemma find_pc_bound: "find_pc pc xs k = Some i \<Longrightarrow> k \<le> i \<and> i < k + length xs"
  by (induction pc xs k rule: find_pc.induct) (fastforce split: if_splits)+

lemma match_pc_inv: "trace_inv s \<Longrightarrow> trace_inv (snd (match_pc pc s))"
  using find_pc_bound [of pc "trace_table s" 0]
  by (auto simp: match_pc_def trace_inv_def Let_def split: option.splits)

lemma follow_item:
  "item_in_process s = Some i \<Longrightarrow> i < length (trace_table s) \<Longrightarrow>
   trace_ninst (trace_table s ! i) = int (length pcs) \<Longrightarrow>
   fst (match_pcs pcs s) = replicate (length pcs) (Some i) \<and>
   item_in_process (snd (match_pcs pcs s)) = Some i \<and>
   trace_ninst (trace_table (snd (match_pcs pcs s)) ! i) = 0 \<and>
   length (trace_table (snd (match_pcs pcs s))) = length (trace_table s)"
proof (induction pcs arbitrary: s)
  case (Cons pc pcs)
  let ?s = "s\<lparr>trace_table := (trace_table s)[i := (trace_table s ! i)\<lparr>trace_ninst := int (length pcs)\<rparr>]\<rparr>"
  have "match_pc pc s = (Some i, ?s)" using Cons.prems by (simp add: match_pc_def Let_def)
  then show ?case using Cons.IH [of ?s] Cons.prems by (simp add: split_def)
qed simp

text \<open>
   From any configuration file and through any sequence of instructions the item in process
  is one of at most 64; when an item's address is reached and it asks for \<open>n\<close> instructions, it is
  chosen for that one and the \<open>n\<close> that follow, wherever they are.
\<close>

lemma trace_follows_item:
  assumes "trace_inv s" "item_in_process s = None" "find_pc pc (trace_table s) 0 = Some i"
    and "trace_ninst (trace_table s ! i) = int (length pcs)"
  shows "fst (match_pcs (pc # pcs) s) = Some i # replicate (length pcs) (Some i) \<and>
    trace_inv (snd (match_pcs (pc # pcs) s)) \<and>
    (\<forall>smap file s0. setup_trace_table smap file = Inr s0 \<longrightarrow> trace_inv s0)"
proof -
  have inv: "trace_inv (snd (match_pcs pcs t))" if "trace_inv t" for pcs t
    using that match_pc_inv by (induction pcs arbitrary: t) (auto simp: split_def Let_def)
  have i: "i < length (trace_table s)" using find_pc_bound [OF assms(3)] by simp
  have "fst (match_pcs (pc # pcs) s) = Some i # replicate (length pcs) (Some i)"
  proof (cases pcs)
    case Nil
    then show ?thesis using assms by (simp add: match_pc_def)
  next
    case (Cons p ps)
    then have "match_pc pc s = (Some i, s\<lparr>item_in_process := Some i\<rparr>)"
      using assms by (simp add: match_pc_def)
    then show ?thesis using follow_item [of "s\<lparr>item_in_process := Some i\<rparr>" i pcs] assms(4) i
      by (simp add: split_def)
  qed
  moreover have "trace_inv s0" if "setup_trace_table smap bs = Inr s0" for smap bs s0
    using that by (rule setup_trace_inv)
  ultimately show ?thesis using inv [OF assms(1), of "pc # pcs"] by blast
qed

definition demo_trace :: trace_state where
  "demo_trace = \<lparr>trace_table = [\<lparr>trace_name = str ''_start'', trace_enabled = True,
     trace_addr = 0x80200000, trace_no_mmu = True, trace_stack = 0, trace_ninst = 2, watch_list = []\<rparr>],
     item_in_process = None\<rparr>"

lemma trace_follows_item_witness:
  "fst (match_pcs [0x80200000, 0x80200004, 0x80300000] demo_trace) = [Some 0, Some 0, Some 0]"
  using trace_follows_item [of demo_trace "0x80200000" 0 "[0x80200004, 0x80300000]"]
  by (simp add: demo_trace_def trace_inv_def numeral_2_eq_2 del: match_pcs.simps)

end
