(* ===== verification/Operation.thy ===== *)
theory Operation
  imports Prelude
begin

text \<open>
  \<open>operation.h\<close> and \<open>operation.c\<close>: the operations the decoder can produce and their printable
  names.  The C enumeration is flat; here its runs of like operations are datatypes of their
  own (\<open>OpLoad LB\<close> is the enumerator \<open>LB\<close>), and \<open>op_index\<close> gives back the integer value of
  each enumerator.  The enumerators \<open>AND\<close>, \<open>OR\<close> and \<open>XOR\<close> are written \<open>AND_R\<close>, \<open>OR_R\<close>,
  \<open>XOR_R\<close> (the register forms), since the plain words are Isabelle's bit operators.  The
  integer values order the type, as the comparisons in \<open>trace.c\<close> do.
\<close>

datatype branch_op =
    BEQ | BNE | BLT | BGE | BLTU | BGEU

datatype load_op =
    LB | LH | LW | LD | LBU | LHU | LWU

datatype store_op =
    SB | SH | SW | SD

datatype imm_op =
    ADDI | SLLI | SLTI | SLTIU | XORI | SRLI | SRAI | ORI | ANDI | ADDIW | SLLIW
  | SRLIW | SRAIW

datatype reg_op =
    ADD | SUB | SLL | SLT | SLTU | XOR_R | SRL | SRA | OR_R | AND_R | ADDW | SUBW
  | SLLW | SRLW | SRAW

datatype csr_op =
    CSRRW | CSRRS | CSRRC | CSRRWI | CSRRSI | CSRRCI

datatype muldiv_op =
    MUL | MULH | MULHSU | MULHU | DIV | DIVU | REM | REMU | MULW | DIVW | DIVUW
  | REMW | REMUW

datatype amo_op =
    AMO_ADD_D | AMO_SWAP_D | LR_D | SC_D | AMO_XOR_D | AMO_OR_D | AMO_AND_D
  | AMO_MIN_D | AMO_MAX_D | AMO_MINU_D | AMO_MAXU_D | AMO_ADD_W | AMO_SWAP_W
  | LR_W | SC_W | AMO_XOR_W | AMO_OR_W | AMO_AND_W | AMO_MIN_W | AMO_MAX_W
  | AMO_MINU_W | AMO_MAXU_W

datatype op_t =
    NOP | LUI | AUIPC | JAL | JALR | OpBranch branch_op | OpLoad load_op
  | OpStore store_op | OpImm imm_op | OpReg reg_op | FENCE | FENCE_I | ECALL
  | EBREAK | URET | SRET | MRET | WFI | SFENCE_VMA | OpCsr csr_op
  | OpMulDiv muldiv_op | OpAmo amo_op | FLW | FSW | FMV_W_X | FLD | FSD

section \<open>The enumeration\<close>

definition all_ops :: "op_t list" where
  "all_ops =
    [NOP, LUI, AUIPC, JAL, JALR, OpBranch BEQ, OpBranch BNE, OpBranch BLT, OpBranch BGE,
     OpBranch BLTU, OpBranch BGEU, OpLoad LB, OpLoad LH, OpLoad LW, OpLoad LD, OpLoad LBU,
     OpLoad LHU, OpLoad LWU, OpStore SB, OpStore SH, OpStore SW, OpStore SD, OpImm ADDI,
     OpImm SLLI, OpImm SLTI, OpImm SLTIU, OpImm XORI, OpImm SRLI, OpImm SRAI, OpImm ORI,
     OpImm ANDI, OpImm ADDIW, OpImm SLLIW, OpImm SRLIW, OpImm SRAIW, OpReg ADD, OpReg SUB,
     OpReg SLL, OpReg SLT, OpReg SLTU, OpReg XOR_R, OpReg SRL, OpReg SRA, OpReg OR_R,
     OpReg AND_R, OpReg ADDW, OpReg SUBW, OpReg SLLW, OpReg SRLW, OpReg SRAW, FENCE,
     FENCE_I, ECALL, EBREAK, URET, SRET, MRET, WFI, SFENCE_VMA, OpCsr CSRRW, OpCsr CSRRS,
     OpCsr CSRRC, OpCsr CSRRWI, OpCsr CSRRSI, OpCsr CSRRCI, OpMulDiv MUL, OpMulDiv MULH,
     OpMulDiv MULHSU, OpMulDiv MULHU, OpMulDiv DIV, OpMulDiv DIVU, OpMulDiv REM,
     OpMulDiv REMU, OpMulDiv MULW, OpMulDiv DIVW, OpMulDiv DIVUW, OpMulDiv REMW,
     OpMulDiv REMUW, OpAmo AMO_ADD_D, OpAmo AMO_SWAP_D, OpAmo LR_D, OpAmo SC_D,
     OpAmo AMO_XOR_D, OpAmo AMO_OR_D, OpAmo AMO_AND_D, OpAmo AMO_MIN_D, OpAmo AMO_MAX_D,
     OpAmo AMO_MINU_D, OpAmo AMO_MAXU_D, OpAmo AMO_ADD_W, OpAmo AMO_SWAP_W, OpAmo LR_W,
     OpAmo SC_W, OpAmo AMO_XOR_W, OpAmo AMO_OR_W, OpAmo AMO_AND_W, OpAmo AMO_MIN_W,
     OpAmo AMO_MAX_W, OpAmo AMO_MINU_W, OpAmo AMO_MAXU_W, FLW, FSW, FMV_W_X, FLD, FSD]"

definition branch_index :: "branch_op \<Rightarrow> nat" where
  "branch_index x = (case x of
      BEQ \<Rightarrow> 5 | BNE \<Rightarrow> 6 | BLT \<Rightarrow> 7 | BGE \<Rightarrow> 8
    | BLTU \<Rightarrow> 9 | BGEU \<Rightarrow> 10)"

definition load_index :: "load_op \<Rightarrow> nat" where
  "load_index x = (case x of
      LB \<Rightarrow> 11 | LH \<Rightarrow> 12 | LW \<Rightarrow> 13 | LD \<Rightarrow> 14
    | LBU \<Rightarrow> 15 | LHU \<Rightarrow> 16 | LWU \<Rightarrow> 17)"

definition store_index :: "store_op \<Rightarrow> nat" where
  "store_index x = (case x of
      SB \<Rightarrow> 18 | SH \<Rightarrow> 19 | SW \<Rightarrow> 20 | SD \<Rightarrow> 21)"

definition imm_index :: "imm_op \<Rightarrow> nat" where
  "imm_index x = (case x of
      ADDI \<Rightarrow> 22 | SLLI \<Rightarrow> 23 | SLTI \<Rightarrow> 24
    | SLTIU \<Rightarrow> 25 | XORI \<Rightarrow> 26 | SRLI \<Rightarrow> 27
    | SRAI \<Rightarrow> 28 | ORI \<Rightarrow> 29 | ANDI \<Rightarrow> 30
    | ADDIW \<Rightarrow> 31 | SLLIW \<Rightarrow> 32 | SRLIW \<Rightarrow> 33
    | SRAIW \<Rightarrow> 34)"

definition reg_index :: "reg_op \<Rightarrow> nat" where
  "reg_index x = (case x of
      ADD \<Rightarrow> 35 | SUB \<Rightarrow> 36 | SLL \<Rightarrow> 37
    | SLT \<Rightarrow> 38 | SLTU \<Rightarrow> 39 | XOR_R \<Rightarrow> 40
    | SRL \<Rightarrow> 41 | SRA \<Rightarrow> 42 | OR_R \<Rightarrow> 43
    | AND_R \<Rightarrow> 44 | ADDW \<Rightarrow> 45 | SUBW \<Rightarrow> 46
    | SLLW \<Rightarrow> 47 | SRLW \<Rightarrow> 48 | SRAW \<Rightarrow> 49)"

definition csr_index :: "csr_op \<Rightarrow> nat" where
  "csr_index x = (case x of
      CSRRW \<Rightarrow> 59 | CSRRS \<Rightarrow> 60 | CSRRC \<Rightarrow> 61
    | CSRRWI \<Rightarrow> 62 | CSRRSI \<Rightarrow> 63 | CSRRCI \<Rightarrow> 64)"

definition muldiv_index :: "muldiv_op \<Rightarrow> nat" where
  "muldiv_index x = (case x of
      MUL \<Rightarrow> 65 | MULH \<Rightarrow> 66 | MULHSU \<Rightarrow> 67
    | MULHU \<Rightarrow> 68 | DIV \<Rightarrow> 69 | DIVU \<Rightarrow> 70
    | REM \<Rightarrow> 71 | REMU \<Rightarrow> 72 | MULW \<Rightarrow> 73
    | DIVW \<Rightarrow> 74 | DIVUW \<Rightarrow> 75 | REMW \<Rightarrow> 76
    | REMUW \<Rightarrow> 77)"

definition amo_index :: "amo_op \<Rightarrow> nat" where
  "amo_index x = (case x of
      AMO_ADD_D \<Rightarrow> 78 | AMO_SWAP_D \<Rightarrow> 79 | LR_D \<Rightarrow> 80
    | SC_D \<Rightarrow> 81 | AMO_XOR_D \<Rightarrow> 82 | AMO_OR_D \<Rightarrow> 83
    | AMO_AND_D \<Rightarrow> 84 | AMO_MIN_D \<Rightarrow> 85 | AMO_MAX_D \<Rightarrow> 86
    | AMO_MINU_D \<Rightarrow> 87 | AMO_MAXU_D \<Rightarrow> 88
    | AMO_ADD_W \<Rightarrow> 89 | AMO_SWAP_W \<Rightarrow> 90 | LR_W \<Rightarrow> 91
    | SC_W \<Rightarrow> 92 | AMO_XOR_W \<Rightarrow> 93 | AMO_OR_W \<Rightarrow> 94
    | AMO_AND_W \<Rightarrow> 95 | AMO_MIN_W \<Rightarrow> 96 | AMO_MAX_W \<Rightarrow> 97
    | AMO_MINU_W \<Rightarrow> 98 | AMO_MAXU_W \<Rightarrow> 99)"

definition op_index :: "op_t \<Rightarrow> nat" where
  "op_index op = (case op of
      NOP \<Rightarrow> 0 | LUI \<Rightarrow> 1 | AUIPC \<Rightarrow> 2
    | JAL \<Rightarrow> 3 | JALR \<Rightarrow> 4 | OpBranch x \<Rightarrow> branch_index x
    | OpLoad x \<Rightarrow> load_index x | OpStore x \<Rightarrow> store_index x
    | OpImm x \<Rightarrow> imm_index x | OpReg x \<Rightarrow> reg_index x
    | FENCE \<Rightarrow> 50 | FENCE_I \<Rightarrow> 51 | ECALL \<Rightarrow> 52
    | EBREAK \<Rightarrow> 53 | URET \<Rightarrow> 54 | SRET \<Rightarrow> 55
    | MRET \<Rightarrow> 56 | WFI \<Rightarrow> 57 | SFENCE_VMA \<Rightarrow> 58
    | OpCsr x \<Rightarrow> csr_index x | OpMulDiv x \<Rightarrow> muldiv_index x
    | OpAmo x \<Rightarrow> amo_index x | FLW \<Rightarrow> 100 | FSW \<Rightarrow> 101
    | FMV_W_X \<Rightarrow> 102 | FLD \<Rightarrow> 103 | FSD \<Rightarrow> 104)"

definition OP_MAX_NUM :: nat where
  "OP_MAX_NUM = 105"

definition op_names :: "string list" where
  "op_names =
    [''nop'', ''lui'', ''auipc'', ''jal'', ''jalr'', ''beq'', ''bne'', ''blt'', ''bge'',
     ''bltu'', ''bgeu'', ''lb'', ''lh'', ''lw'', ''ld'', ''lbu'', ''lhu'', ''lwu'', ''sb'',
     ''sh'', ''sw'', ''sd'', ''addi'', ''slli'', ''slti'', ''sltiu'', ''xori'', ''srli'',
     ''srai'', ''ori'', ''andi'', ''addiw'', ''slliw'', ''srliw'', ''sraiw'', ''add'',
     ''sub'', ''sll'', ''slt'', ''sltu'', ''xor'', ''srl'', ''sra'', ''or'', ''and'',
     ''addw'', ''subw'', ''sllw'', ''srlw'', ''sraw'', ''fence'', ''fence_i'', ''ecall'',
     ''ebreak'', ''uret'', ''sret'', ''mret'', ''wfi'', ''sfence_vma'', ''csrrw'',
     ''csrrs'', ''csrrc'', ''csrrwi'', ''csrrsi'', ''csrrci'', ''mul'', ''mulh'',
     ''mulhsu'', ''mulhu'', ''div'', ''divu'', ''rem'', ''remu'', ''mulw'', ''divw'',
     ''divuw'', ''remw'', ''remuw'', ''amo_add_d'', ''amo_swap_d'', ''lr_d'', ''sc_d'',
     ''amo_xor_d'', ''amo_or_d'', ''amo_and_d'', ''amo_min_d'', ''amo_max_d'',
     ''amo_minu_d'', ''amo_maxu_d'', ''amo_add_w'', ''amo_swap_w'', ''lr_w'', ''sc_w'',
     ''amo_xor_w'', ''amo_or_w'', ''amo_and_w'', ''amo_min_w'', ''amo_max_w'',
     ''amo_minu_w'', ''amo_maxu_w'', ''flw'', ''fsw'', ''fmv_w_x'', ''fld'', ''fsd'']"

text \<open>The argument is the integer the C code passes, so it may lie past the enumeration.\<close>

definition op_name :: "nat \<Rightarrow> string result" where
  "op_name op =
     (if OP_MAX_NUM \<le> op then Inl (Panic ''op_name'')
      else if length op_names \<le> op then Inl (UB ''op_name'')
      else Inr (op_names ! op))"

section \<open>The enumeration order\<close>

lemmas index_defs =
  branch_index_def load_index_def store_index_def imm_index_def reg_index_def
  csr_index_def muldiv_index_def amo_index_def op_index_def

lemma map_op_index_all_ops: "map op_index all_ops = [0..<OP_MAX_NUM]"
  by (simp add: all_ops_def index_defs OP_MAX_NUM_def upt_conv_Cons_Cons upt_rec)

lemma in_all_ops: "x \<in> set all_ops"
proof (cases x)
  case (OpBranch b) then show ?thesis by (cases b) (simp_all add: all_ops_def)
next
  case (OpLoad b) then show ?thesis by (cases b) (simp_all add: all_ops_def)
next
  case (OpStore b) then show ?thesis by (cases b) (simp_all add: all_ops_def)
next
  case (OpImm b) then show ?thesis by (cases b) (simp_all add: all_ops_def)
next
  case (OpReg b) then show ?thesis by (cases b) (simp_all add: all_ops_def)
next
  case (OpCsr b) then show ?thesis by (cases b) (simp_all add: all_ops_def)
next
  case (OpMulDiv b) then show ?thesis by (cases b) (simp_all add: all_ops_def)
next
  case (OpAmo b) then show ?thesis by (cases b) (simp_all add: all_ops_def)
qed (simp_all add: all_ops_def)

lemma op_index_eq_iff [simp]: "op_index x = op_index y \<longleftrightarrow> x = y"
proof -
  have "distinct (map op_index all_ops)"
    by (simp add: map_op_index_all_ops)
  then have "inj_on op_index (set all_ops)"
    by (simp add: distinct_map)
  then show ?thesis
    using in_all_ops by (auto simp: inj_on_def)
qed

lemma op_index_less: "op_index x < OP_MAX_NUM"
proof -
  have "op_index x \<in> set (map op_index all_ops)"
    using in_all_ops by simp
  then show ?thesis by (simp only: map_op_index_all_ops set_upt atLeastLessThan_iff)
qed

instantiation op_t :: linorder
begin

definition less_eq_op_t :: "op_t \<Rightarrow> op_t \<Rightarrow> bool" where
  "less_eq_op_t x y \<longleftrightarrow> op_index x \<le> op_index y"

definition less_op_t :: "op_t \<Rightarrow> op_t \<Rightarrow> bool" where
  "less_op_t x y \<longleftrightarrow> op_index x < op_index y"

instance
  by standard (auto simp: less_eq_op_t_def less_op_t_def)

end

lemma length_op_names: "length op_names = OP_MAX_NUM"
  by (simp add: op_names_def OP_MAX_NUM_def)

lemma distinct_op_names: "distinct op_names"
  by (simp add: op_names_def)

end
