(* ===== verification/Dec32.thy ===== *)
theory Dec32
  imports Operation
begin

text \<open>
  \<open>isa.h\<close> and \<open>dec32.c\<close>: the decoder of 32-bit instructions.  The C function writes its
  results through seven pointers; here they are the record \<open>decoded\<close>.  The cases of the
  outer switch are functions of their own, and \<open>dec32\<close> selects among them; each inner
  \<open>default\<close> is a panic.
\<close>

section \<open>Major opcodes (\<open>isa.h\<close>)\<close>

abbreviation (input) OP_NOP :: u32 where "OP_NOP \<equiv> 0x00"
abbreviation (input) OP_LOAD :: u32 where "OP_LOAD \<equiv> 0x03"
abbreviation (input) OP_LOAD_FP :: u32 where "OP_LOAD_FP \<equiv> 0x07"
abbreviation (input) OP_MISC :: u32 where "OP_MISC \<equiv> 0x0F"
abbreviation (input) OP_IMM :: u32 where "OP_IMM \<equiv> 0x13"
abbreviation (input) OP_AUIPC :: u32 where "OP_AUIPC \<equiv> 0x17"
abbreviation (input) OP_IMM_W :: u32 where "OP_IMM_W \<equiv> 0x1B"
abbreviation (input) OP_STORE :: u32 where "OP_STORE \<equiv> 0x23"
abbreviation (input) OP_STORE_FP :: u32 where "OP_STORE_FP \<equiv> 0x27"
abbreviation (input) OP_AMO :: u32 where "OP_AMO \<equiv> 0x2F"
abbreviation (input) OP_REG :: u32 where "OP_REG \<equiv> 0x33"
abbreviation (input) OP_LUI :: u32 where "OP_LUI \<equiv> 0x37"
abbreviation (input) OP_REG_W :: u32 where "OP_REG_W \<equiv> 0x3B"
abbreviation (input) OP_FP :: u32 where "OP_FP \<equiv> 0x53"
abbreviation (input) OP_BRANCH :: u32 where "OP_BRANCH \<equiv> 0x63"
abbreviation (input) OP_JALR :: u32 where "OP_JALR \<equiv> 0x67"
abbreviation (input) OP_JAL :: u32 where "OP_JAL \<equiv> 0x6F"
abbreviation (input) OP_SYSTEM :: u32 where "OP_SYSTEM \<equiv> 0x73"

section \<open>What a decoder returns\<close>

record decoded =
  d_op :: op_t
  d_rd :: u32
  d_rs1 :: u32
  d_rs2 :: u32
  d_imm :: u64
  d_csr_addr :: u32
  d_opcode :: u32

text \<open>A bit field stored in, or cast to, a \<open>uint32_t\<close>.\<close>

definition BITS32 :: "'a::len word \<Rightarrow> nat \<Rightarrow> nat \<Rightarrow> u32" where
  "BITS32 src high low = ucast (BITS src high low)"

section \<open>Immediates\<close>

definition I_IMM :: "u32 \<Rightarrow> u64" where
  "I_IMM inst = push_bit 12 (EXPAND_BIT inst 31 52) OR BITS inst 31 20"

definition S_IMM :: "u32 \<Rightarrow> u64" where
  "S_IMM inst = push_bit 12 (EXPAND_BIT inst 31 52) OR push_bit 5 (BITS inst 31 25) OR
     BITS inst 11 7"

definition B_IMM :: "u32 \<Rightarrow> u64" where
  "B_IMM inst = push_bit 12 (EXPAND_BIT inst 31 52) OR push_bit 11 (BIT inst 7) OR
     push_bit 5 (BITS inst 30 25) OR push_bit 1 (BITS inst 11 8)"

definition U_IMM :: "u32 \<Rightarrow> u64" where
  "U_IMM inst = push_bit 32 (EXPAND_BIT inst 31 32) OR push_bit 12 (BITS inst 31 12)"

definition J_IMM :: "u32 \<Rightarrow> u64" where
  "J_IMM inst = push_bit 20 (EXPAND_BIT inst 31 44) OR push_bit 12 (BITS inst 19 12) OR
     push_bit 11 (BIT inst 20) OR push_bit 1 (BITS inst 30 21)"

definition C_IMM :: "u32 \<Rightarrow> u64" where
  "C_IMM inst = BITS inst 19 15"

definition M_IMM6 :: "u32 \<Rightarrow> u64" where
  "M_IMM6 inst = BITS inst 25 20"

definition M_IMM5 :: "u32 \<Rightarrow> u64" where
  "M_IMM5 inst = BITS inst 24 20"

section \<open>The cases of the switch\<close>

abbreviation (input) dec32_panic :: "'a result" where
  "dec32_panic \<equiv> Inl (Panic ''dec32'')"

definition funct3 :: "u32 \<Rightarrow> u32" where
  "funct3 inst = BITS32 inst 14 12"

definition funct5 :: "u32 \<Rightarrow> u32" where
  "funct5 inst = BITS32 inst 31 27"

definition funct7 :: "u32 \<Rightarrow> u32" where
  "funct7 inst = BITS32 inst 31 25"

definition dec32_fields :: "u32 \<Rightarrow> decoded" where
  "dec32_fields inst =
     \<lparr>d_op = NOP, d_rd = BITS32 inst 11 7, d_rs1 = BITS32 inst 19 15,
      d_rs2 = BITS32 inst 24 20, d_imm = 0, d_csr_addr = 0, d_opcode = BITS32 inst 6 0\<rparr>"

definition dec32_branch :: "u32 \<Rightarrow> decoded \<Rightarrow> decoded result" where
  "dec32_branch inst d =
    (let f = funct3 inst;
         ret = (\<lambda>b. Inr (d\<lparr>d_op := OpBranch b, d_imm := B_IMM inst, d_rd := 0\<rparr>)) in
     if f = 0 then ret BEQ
     else if f = 1 then ret BNE
     else if f = 4 then ret BLT
     else if f = 5 then ret BGE
     else if f = 6 then ret BLTU
     else if f = 7 then ret BGEU
     else dec32_panic)"

definition dec32_load :: "u32 \<Rightarrow> decoded \<Rightarrow> decoded result" where
  "dec32_load inst d =
    (let f = funct3 inst;
         ret = (\<lambda>l. Inr (d\<lparr>d_op := OpLoad l, d_imm := I_IMM inst\<rparr>)) in
     if f = 0 then ret LB
     else if f = 1 then ret LH
     else if f = 2 then ret LW
     else if f = 3 then ret LD
     else if f = 4 then ret LBU
     else if f = 5 then ret LHU
     else if f = 6 then ret LWU
     else dec32_panic)"

definition dec32_store :: "u32 \<Rightarrow> decoded \<Rightarrow> decoded result" where
  "dec32_store inst d =
    (let f = funct3 inst;
         ret = (\<lambda>s. Inr (d\<lparr>d_op := OpStore s, d_imm := S_IMM inst, d_rd := 0\<rparr>)) in
     if f = 0 then ret SB
     else if f = 1 then ret SH
     else if f = 2 then ret SW
     else if f = 3 then ret SD
     else dec32_panic)"

definition dec32_load_fp :: "u32 \<Rightarrow> decoded \<Rightarrow> decoded result" where
  "dec32_load_fp inst d =
    (let f = funct3 inst;
         ret = (\<lambda>x. Inr (d\<lparr>d_op := x, d_imm := I_IMM inst\<rparr>)) in
     if f = 2 then ret FLW
     else if f = 3 then ret FLD
     else dec32_panic)"

definition dec32_store_fp :: "u32 \<Rightarrow> decoded \<Rightarrow> decoded result" where
  "dec32_store_fp inst d =
    (let f = funct3 inst;
         ret = (\<lambda>x. Inr (d\<lparr>d_op := x, d_imm := S_IMM inst, d_rd := 0\<rparr>)) in
     if f = 2 then ret FSW
     else if f = 3 then ret FSD
     else dec32_panic)"

definition dec32_imm :: "u32 \<Rightarrow> decoded \<Rightarrow> decoded result" where
  "dec32_imm inst d =
    (let f = funct3 inst;
         imm = (if f = 1 \<or> f = 5 then M_IMM6 inst else I_IMM inst);
         ret = (\<lambda>x. Inr (d\<lparr>d_op := OpImm x, d_imm := imm\<rparr>)) in
     if f = 0 then ret ADDI
     else if f = 1 then ret SLLI
     else if f = 2 then ret SLTI
     else if f = 3 then ret SLTIU
     else if f = 4 then ret XORI
     else if f = 5 then ret (if BIT inst 30 \<noteq> 0 then SRAI else SRLI)
     else if f = 6 then ret ORI
     else if f = 7 then ret ANDI
     else dec32_panic)"

definition dec32_imm_w :: "u32 \<Rightarrow> decoded \<Rightarrow> decoded result" where
  "dec32_imm_w inst d =
    (let f = funct3 inst in
     if f = 0 then Inr (d\<lparr>d_op := OpImm ADDIW, d_imm := I_IMM inst\<rparr>)
     else if f = 1 then Inr (d\<lparr>d_op := OpImm SLLIW, d_imm := M_IMM5 inst\<rparr>)
     else if f = 5 then
       Inr (d\<lparr>d_op := OpImm (if BIT inst 30 \<noteq> 0 then SRAIW else SRLIW), d_imm := M_IMM5 inst\<rparr>)
     else dec32_panic)"

definition dec32_reg :: "u32 \<Rightarrow> decoded \<Rightarrow> decoded result" where
  "dec32_reg inst d =
    (let f = funct3 inst;
         mul = (\<lambda>x. Inr (d\<lparr>d_op := OpMulDiv x\<rparr>));
         ret = (\<lambda>x. Inr (d\<lparr>d_op := OpReg x\<rparr>)) in
     if funct7 inst = 1 then
       (if f = 0 then mul MUL
        else if f = 1 then mul MULH
        else if f = 2 then mul MULHSU
        else if f = 3 then mul MULHU
        else if f = 4 then mul DIV
        else if f = 5 then mul DIVU
        else if f = 6 then mul REM
        else if f = 7 then mul REMU
        else dec32_panic)
     else
       (if f = 0 then ret (if BIT inst 30 \<noteq> 0 then SUB else ADD)
        else if f = 1 then ret SLL
        else if f = 2 then ret SLT
        else if f = 3 then ret SLTU
        else if f = 4 then ret XOR_R
        else if f = 5 then ret (if BIT inst 30 \<noteq> 0 then SRA else SRL)
        else if f = 6 then ret OR_R
        else if f = 7 then ret AND_R
        else dec32_panic))"

definition dec32_reg_w :: "u32 \<Rightarrow> decoded \<Rightarrow> decoded result" where
  "dec32_reg_w inst d =
    (let f = funct3 inst;
         mul = (\<lambda>x. Inr (d\<lparr>d_op := OpMulDiv x\<rparr>));
         ret = (\<lambda>x. Inr (d\<lparr>d_op := OpReg x\<rparr>)) in
     if funct7 inst = 1 then
       (if f = 0 then mul MULW
        else if f = 4 then mul DIVW
        else if f = 5 then mul DIVUW
        else if f = 6 then mul REMW
        else if f = 7 then mul REMUW
        else dec32_panic)
     else
       (if f = 0 then ret (if BIT inst 30 \<noteq> 0 then SUBW else ADDW)
        else if f = 1 then ret SLLW
        else if f = 5 then ret (if BIT inst 30 \<noteq> 0 then SRAW else SRLW)
        else dec32_panic))"

definition dec32_misc :: "u32 \<Rightarrow> decoded \<Rightarrow> decoded result" where
  "dec32_misc inst d =
    (let f = funct3 inst in
     if f = 0 then Inr (d\<lparr>d_op := FENCE\<rparr>)
     else if f = 1 then Inr (d\<lparr>d_op := FENCE_I\<rparr>)
     else dec32_panic)"

definition dec32_system0 :: "u32 \<Rightarrow> op_t result" where
  "dec32_system0 inst =
    (let f7 = funct7 inst; low = BITS inst 24 20 in
     if f7 = 0 then
       (if low = 0 then Inr ECALL
        else if low = 1 then Inr EBREAK
        else if low = 2 then Inr URET
        else dec32_panic)
     else if f7 = 8 then
       (if low = 2 then Inr SRET
        else if low = 5 then Inr WFI
        else dec32_panic)
     else if f7 = 9 then Inr SFENCE_VMA
     else if f7 = 24 then Inr MRET
     else dec32_panic)"

definition dec32_system :: "u32 \<Rightarrow> decoded \<Rightarrow> decoded result" where
  "dec32_system inst d =
    (let f = funct3 inst;
         d = d\<lparr>d_csr_addr := BITS32 inst 31 20\<rparr>;
         ret = (\<lambda>x. Inr (d\<lparr>d_op := OpCsr x\<rparr>));
         reti = (\<lambda>x. Inr (d\<lparr>d_op := OpCsr x, d_imm := C_IMM inst\<rparr>)) in
     if f = 0 then and_then (dec32_system0 inst) (\<lambda>x. Inr (d\<lparr>d_op := x\<rparr>))
     else if f = 1 then ret CSRRW
     else if f = 2 then ret CSRRS
     else if f = 3 then ret CSRRC
     else if f = 5 then reti CSRRWI
     else if f = 6 then reti CSRRSI
     else if f = 7 then reti CSRRCI
     else dec32_panic)"

definition dec32_amo :: "u32 \<Rightarrow> decoded \<Rightarrow> decoded result" where
  "dec32_amo inst d =
    (let f5 = funct5 inst; dw = (funct3 inst = 3);
         ret = (\<lambda>x y. Inr (d\<lparr>d_op := OpAmo (if dw then x else y)\<rparr>)) in
     if f5 = 0 then ret AMO_ADD_D AMO_ADD_W
     else if f5 = 1 then ret AMO_SWAP_D AMO_SWAP_W
     else if f5 = 2 then ret LR_D LR_W
     else if f5 = 3 then ret SC_D SC_W
     else if f5 = 4 then ret AMO_XOR_D AMO_XOR_W
     else if f5 = 8 then ret AMO_OR_D AMO_OR_W
     else if f5 = 12 then ret AMO_AND_D AMO_AND_W
     else if f5 = 16 then ret AMO_MIN_D AMO_MIN_W
     else if f5 = 20 then ret AMO_MAX_D AMO_MAX_W
     else if f5 = 24 then ret AMO_MINU_D AMO_MINU_W
     else if f5 = 28 then ret AMO_MAXU_D AMO_MAXU_W
     else dec32_panic)"

definition dec32_fp :: "u32 \<Rightarrow> decoded \<Rightarrow> decoded result" where
  "dec32_fp inst d =
    (if funct7 inst = 0x78 then Inr (d\<lparr>d_op := FMV_W_X\<rparr>) else dec32_panic)"

definition dec32 :: "u32 \<Rightarrow> decoded result" where
  "dec32 inst =
    (let d = dec32_fields inst; opc = d_opcode d in
     if opc = OP_LUI then Inr (d\<lparr>d_op := LUI, d_imm := U_IMM inst\<rparr>)
     else if opc = OP_AUIPC then Inr (d\<lparr>d_op := AUIPC, d_imm := U_IMM inst\<rparr>)
     else if opc = OP_JAL then Inr (d\<lparr>d_op := JAL, d_imm := J_IMM inst\<rparr>)
     else if opc = OP_JALR then Inr (d\<lparr>d_op := JALR, d_imm := I_IMM inst\<rparr>)
     else if opc = OP_BRANCH then dec32_branch inst d
     else if opc = OP_LOAD then dec32_load inst d
     else if opc = OP_STORE then dec32_store inst d
     else if opc = OP_LOAD_FP then dec32_load_fp inst d
     else if opc = OP_STORE_FP then dec32_store_fp inst d
     else if opc = OP_IMM then dec32_imm inst d
     else if opc = OP_IMM_W then dec32_imm_w inst d
     else if opc = OP_REG then dec32_reg inst d
     else if opc = OP_REG_W then dec32_reg_w inst d
     else if opc = OP_MISC then dec32_misc inst d
     else if opc = OP_SYSTEM then dec32_system inst d
     else if opc = OP_AMO then dec32_amo inst d
     else if opc = OP_FP then dec32_fp inst d
     else dec32_panic)"

end
