(* ===== verification/Dec16.thy ===== *)
theory Dec16
  imports Dec32
begin

text \<open>
  \<open>dec16.c\<close>: the decoder of 16-bit (compressed) instructions.  The macros of the source share
  names with those of \<open>dec32.c\<close>; here the ones that clash carry a 16.  Each quadrant of the
  outer switch, and the nested switches of quadrants 1 and 2, are functions of their own.
  Every branch that returns writes all the results, \<open>opcode\<close> included.
\<close>

section \<open>Immediates\<close>

definition N_IMM :: "u16 \<Rightarrow> u64" where
  "N_IMM inst = ucast (push_bit 6 (BITS32 inst 10 7) OR push_bit 4 (BITS32 inst 12 11)) OR
     push_bit 3 (BIT inst 5) OR push_bit 2 (BIT inst 6)"

definition U16_IMM :: "u16 \<Rightarrow> u64" where
  "U16_IMM inst = push_bit 6 (BIT inst 5) OR ucast (push_bit 3 (BITS32 inst 12 10)) OR
     push_bit 2 (BIT inst 6)"

definition U_IMM_D :: "u16 \<Rightarrow> u64" where
  "U_IMM_D inst = ucast (push_bit 6 (BITS32 inst 6 5) OR push_bit 3 (BITS32 inst 12 10))"

definition I16_IMM :: "u16 \<Rightarrow> u64" where
  "I16_IMM inst = push_bit 5 (EXPAND_BIT inst 12 59) OR ucast (BITS32 inst 6 2)"

definition D_IMM :: "u16 \<Rightarrow> u64" where
  "D_IMM inst = push_bit 9 (EXPAND_BIT inst 12 55) OR ucast (push_bit 7 (BITS32 inst 4 3)) OR
     push_bit 6 (BIT inst 5) OR push_bit 5 (BIT inst 2) OR push_bit 4 (BIT inst 6)"

definition UI_IMM :: "u16 \<Rightarrow> u64" where
  "UI_IMM inst = push_bit 5 (BIT inst 12) OR ucast (BITS32 inst 6 2)"

definition J16_IMM :: "u16 \<Rightarrow> u64" where
  "J16_IMM inst = push_bit 11 (EXPAND_BIT inst 12 53) OR push_bit 10 (BIT inst 8) OR
     ucast (push_bit 8 (BITS32 inst 10 9)) OR push_bit 7 (BIT inst 6) OR
     push_bit 6 (BIT inst 7) OR push_bit 5 (BIT inst 2) OR push_bit 4 (BIT inst 11) OR
     ucast (push_bit 1 (BITS32 inst 5 3))"

definition B16_IMM :: "u16 \<Rightarrow> u64" where
  "B16_IMM inst = push_bit 8 (EXPAND_BIT inst 12 56) OR ucast (push_bit 6 (BITS32 inst 6 5)) OR
     push_bit 5 (BIT inst 2) OR ucast (push_bit 3 (BITS32 inst 11 10)) OR
     ucast (push_bit 1 (BITS32 inst 4 3))"

definition LWSP_IMM :: "u16 \<Rightarrow> u64" where
  "LWSP_IMM inst = ucast (push_bit 6 (BITS32 inst 3 2)) OR push_bit 5 (BIT inst 12) OR
     ucast (push_bit 2 (BITS32 inst 6 4))"

definition LDSP_IMM :: "u16 \<Rightarrow> u64" where
  "LDSP_IMM inst = ucast (push_bit 6 (BITS32 inst 4 2)) OR push_bit 5 (BIT inst 12) OR
     ucast (push_bit 3 (BITS32 inst 6 5))"

definition SWSP_IMM :: "u16 \<Rightarrow> u64" where
  "SWSP_IMM inst = ucast (push_bit 6 (BITS32 inst 8 7) OR push_bit 2 (BITS32 inst 12 9))"

definition SDSP_IMM :: "u16 \<Rightarrow> u64" where
  "SDSP_IMM inst = ucast (push_bit 6 (BITS32 inst 9 7) OR push_bit 3 (BITS32 inst 12 10))"

section \<open>The quadrants\<close>

abbreviation (input) dec16_panic :: "'a result" where
  "dec16_panic \<equiv> Inl (Panic ''dec16'')"

definition dec16_fields :: decoded where
  "dec16_fields = \<lparr>d_op = NOP, d_rd = 0, d_rs1 = 0, d_rs2 = 0, d_imm = 0, d_csr_addr = 0,
     d_opcode = 0\<rparr>"

definition funct3_16 :: "u16 \<Rightarrow> u32" where
  "funct3_16 inst = BITS32 inst 15 13"

text \<open>The three-bit register fields name \<open>x8\<close> to \<open>x15\<close>.\<close>

definition rlow :: "u16 \<Rightarrow> u32" where
  "rlow inst = 8 + BITS32 inst 4 2"

definition rhigh :: "u16 \<Rightarrow> u32" where
  "rhigh inst = 8 + BITS32 inst 9 7"

definition dec16_q0 :: "u16 \<Rightarrow> decoded \<Rightarrow> decoded result" where
  "dec16_q0 inst d =
    (let f = funct3_16 inst in
     if f = 0 then
       Inr (d\<lparr>d_op := OpImm ADDI, d_opcode := OP_IMM, d_rd := rlow inst, d_rs1 := 2,
             d_imm := N_IMM inst\<rparr>)
     else if f = 1 then
       Inr (d\<lparr>d_op := FLD, d_opcode := OP_LOAD, d_rd := rlow inst, d_rs1 := rhigh inst,
             d_imm := U_IMM_D inst\<rparr>)
     else if f = 2 then
       Inr (d\<lparr>d_op := OpLoad LW, d_opcode := OP_LOAD, d_rd := rlow inst, d_rs1 := rhigh inst,
             d_imm := U16_IMM inst\<rparr>)
     else if f = 3 then
       Inr (d\<lparr>d_op := OpLoad LD, d_opcode := OP_LOAD, d_rd := rlow inst, d_rs1 := rhigh inst,
             d_imm := U_IMM_D inst\<rparr>)
     else if f = 5 then
       Inr (d\<lparr>d_op := FSD, d_opcode := OP_STORE, d_rs1 := rhigh inst, d_rs2 := rlow inst,
             d_imm := U_IMM_D inst\<rparr>)
     else if f = 6 then
       Inr (d\<lparr>d_op := OpStore SW, d_opcode := OP_STORE, d_rs1 := rhigh inst, d_rs2 := rlow inst,
             d_imm := U16_IMM inst\<rparr>)
     else if f = 7 then
       Inr (d\<lparr>d_op := OpStore SD, d_opcode := OP_STORE, d_rs1 := rhigh inst, d_rs2 := rlow inst,
             d_imm := U_IMM_D inst\<rparr>)
     else dec16_panic)"

text \<open>Quadrant 1, \<open>funct3 = 4\<close>: shifts, \<open>c.andi\<close> and the register arithmetic.\<close>

definition dec16_arith :: "u16 \<Rightarrow> decoded \<Rightarrow> decoded result" where
  "dec16_arith inst d =
    (let f = BITS32 inst 6 5;
         ret = (\<lambda>x. Inr (d\<lparr>d_opcode := OP_REG, d_op := OpReg x, d_rd := rhigh inst,
                  d_rs1 := rhigh inst, d_rs2 := rlow inst\<rparr>)) in
     if f = 0 then ret (if BIT inst 12 \<noteq> 0 then SUBW else SUB)
     else if f = 1 then ret (if BIT inst 12 \<noteq> 0 then ADDW else XOR_R)
     else if f = 2 then ret OR_R
     else if f = 3 then ret AND_R
     else dec16_panic)"

definition dec16_misc_alu :: "u16 \<Rightarrow> decoded \<Rightarrow> decoded result" where
  "dec16_misc_alu inst d =
    (let f = BITS32 inst 11 10;
         ret = (\<lambda>x imm. Inr (d\<lparr>d_op := OpImm x, d_opcode := OP_IMM, d_rd := rhigh inst,
                  d_rs1 := rhigh inst, d_imm := imm\<rparr>)) in
     if f = 0 then ret SRLI (UI_IMM inst)
     else if f = 1 then ret SRAI (UI_IMM inst)
     else if f = 2 then ret ANDI (I16_IMM inst)
     else if f = 3 then dec16_arith inst d
     else dec16_panic)"

definition dec16_q1 :: "u16 \<Rightarrow> decoded \<Rightarrow> decoded result" where
  "dec16_q1 inst d =
    (let f = funct3_16 inst; rd = BITS32 inst 11 7 in
     if f = 0 then
       Inr (d\<lparr>d_rd := rd, d_rs1 := rd, d_op := (if rd \<noteq> 0 then OpImm ADDI else NOP),
             d_opcode := (if rd \<noteq> 0 then OP_IMM else OP_NOP),
             d_imm := (if rd \<noteq> 0 then I16_IMM inst else 0)\<rparr>)
     else if f = 1 then
       Inr (d\<lparr>d_op := OpImm ADDIW, d_opcode := OP_IMM, d_rd := rd, d_rs1 := rd,
             d_imm := I16_IMM inst\<rparr>)
     else if f = 2 then
       Inr (d\<lparr>d_op := OpImm ADDI, d_opcode := OP_IMM, d_rd := rd, d_imm := I16_IMM inst\<rparr>)
     else if f = 3 then
       (if rd = 2 then
          Inr (d\<lparr>d_rd := rd, d_op := OpImm ADDI, d_opcode := OP_IMM, d_rs1 := 2,
                d_imm := D_IMM inst\<rparr>)
        else
          Inr (d\<lparr>d_rd := rd, d_op := LUI, d_opcode := OP_LUI,
                d_imm := push_bit 12 (I16_IMM inst)\<rparr>))
     else if f = 4 then dec16_misc_alu inst d
     else if f = 5 then
       Inr (d\<lparr>d_op := JAL, d_opcode := OP_JAL, d_imm := J16_IMM inst\<rparr>)
     else if f = 6 then
       Inr (d\<lparr>d_op := OpBranch BEQ, d_opcode := OP_BRANCH, d_rs1 := rhigh inst,
             d_imm := B16_IMM inst\<rparr>)
     else if f = 7 then
       Inr (d\<lparr>d_op := OpBranch BNE, d_opcode := OP_BRANCH, d_rs1 := rhigh inst,
             d_imm := B16_IMM inst\<rparr>)
     else dec16_panic)"

text \<open>Quadrant 2, \<open>funct3 = 4\<close>: \<open>c.add\<close>, \<open>c.jalr\<close>, \<open>c.ebreak\<close>, \<open>c.mv\<close> and \<open>c.jr\<close>.\<close>

definition dec16_jump_move :: "u16 \<Rightarrow> decoded \<Rightarrow> decoded" where
  "dec16_jump_move inst d =
    (let r1 = BITS32 inst 11 7; r2 = BITS32 inst 6 2 in
     if BIT inst 12 \<noteq> 0 then
       (if r1 \<noteq> 0 then
          (if r2 \<noteq> 0 then
             d\<lparr>d_rs1 := r1, d_rs2 := r2, d_rd := r1, d_op := OpReg ADD, d_opcode := OP_REG\<rparr>
           else
             d\<lparr>d_rs1 := r1, d_rs2 := r2, d_rd := 1, d_op := JALR, d_opcode := OP_JALR\<rparr>)
        else d\<lparr>d_rs1 := r1, d_op := EBREAK, d_opcode := OP_SYSTEM\<rparr>)
     else
       (if r2 \<noteq> 0 then
          d\<lparr>d_rs2 := r2, d_op := OpReg ADD, d_opcode := OP_REG, d_rd := r1\<rparr>
        else
          d\<lparr>d_rs2 := r2, d_op := JALR, d_opcode := OP_JALR, d_rs1 := r1\<rparr>))"

definition dec16_q2 :: "u16 \<Rightarrow> decoded \<Rightarrow> decoded result" where
  "dec16_q2 inst d =
    (let f = funct3_16 inst; rd = BITS32 inst 11 7; r2 = BITS32 inst 6 2 in
     if f = 0 then
       Inr (d\<lparr>d_op := OpImm SLLI, d_opcode := OP_IMM, d_rd := rd, d_rs1 := rd,
             d_imm := UI_IMM inst\<rparr>)
     else if f = 1 then
       Inr (d\<lparr>d_op := FLD, d_opcode := OP_LOAD, d_rd := rd, d_rs1 := 2, d_imm := LDSP_IMM inst\<rparr>)
     else if f = 2 then
       Inr (d\<lparr>d_op := OpLoad LW, d_opcode := OP_LOAD, d_rd := rd, d_rs1 := 2,
             d_imm := LWSP_IMM inst\<rparr>)
     else if f = 3 then
       Inr (d\<lparr>d_op := OpLoad LD, d_opcode := OP_LOAD, d_rd := rd, d_rs1 := 2,
             d_imm := LDSP_IMM inst\<rparr>)
     else if f = 4 then Inr (dec16_jump_move inst d)
     else if f = 6 then
       Inr (d\<lparr>d_op := OpStore SW, d_opcode := OP_STORE, d_rs1 := 2, d_rs2 := r2,
             d_imm := SWSP_IMM inst\<rparr>)
     else if f = 7 then
       Inr (d\<lparr>d_op := OpStore SD, d_opcode := OP_STORE, d_rs1 := 2, d_rs2 := r2,
             d_imm := SDSP_IMM inst\<rparr>)
     else dec16_panic)"

definition dec16 :: "u16 \<Rightarrow> decoded result" where
  "dec16 inst =
    (let quadrant = BITS32 inst 1 0; d = dec16_fields in
     if quadrant = 0 then dec16_q0 inst d
     else if quadrant = 1 then dec16_q1 inst d
     else if quadrant = 2 then dec16_q2 inst d
     else dec16_panic)"

end
