(* ===== verification/Decode.thy ===== *)
theory Decode
  imports Dec16
begin

text \<open>
  \<open>decode.c\<close>: the two low bits choose the decoder and the length.  The C function returns the
  address of the next instruction and the decoded fields through pointers; here it returns
  the pair.  \<open>pc\<close> reaches the decoders of the source only for their panic messages.
\<close>

definition decode :: "u64 \<Rightarrow> u32 \<Rightarrow> (u64 \<times> decoded) result" where
  "decode pc inst =
    (if inst AND 3 = 3 then and_then (dec32 inst) (\<lambda>d. Inr (pc + 4, d))
     else and_then (dec16 (ucast (inst AND 0xFFFF))) (\<lambda>d. Inr (pc + 2, d)))"

section \<open>Register numbers stay inside the register file\<close>

text \<open>
  The execution unit indexes the arrays \<open>reg\<close> and \<open>freg\<close> of 32 entries and \<open>_csr\<close> of 4096
  entries with the decoded fields, without a check.
\<close>

definition in_range :: "decoded \<Rightarrow> bool" where
  "in_range d \<longleftrightarrow> d_rd d < 32 \<and> d_rs1 d < 32 \<and> d_rs2 d < 32 \<and> d_csr_addr d < 4096"

lemma BITS32_less:
  assumes "h - l < 31" "unat b = 2 ^ (h - l + 1)"
  shows "BITS32 x h l < b"
proof -
  have "unat (BITS x h l) < 2 ^ (h - l + 1)"
    using assms(1) by (intro unat_BITS_less) simp
  then have "unat (BITS32 x h l) < 2 ^ (h - l + 1)"
    unfolding BITS32_def by (simp add: unsigned_ucast_eq take_bit_nat_eq_self_iff
        order.strict_trans1 [OF take_bit_nat_less_eq_self])
  then show ?thesis
    using assms(2) by (simp add: word_less_nat_alt)
qed

lemma BITS32_5 [simp]: "h - l = 4 \<Longrightarrow> BITS32 x h l < 32"
  by (rule BITS32_less) simp_all

lemma BITS32_12 [simp]: "h - l = 11 \<Longrightarrow> BITS32 x h l < 4096"
  by (rule BITS32_less) simp_all

lemma rlow_less [simp]: "rlow x < 32"
proof -
  have "BITS32 x 4 2 < 8" by (rule BITS32_less) simp_all
  then show ?thesis by (simp add: rlow_def unat_arith_simps)
qed

lemma rhigh_less [simp]: "rhigh x < 32"
proof -
  have "BITS32 x 9 7 < 8" by (rule BITS32_less) simp_all
  then show ?thesis by (simp add: rhigh_def unat_arith_simps)
qed

lemma dec32_in_range: "succeeds in_range (dec32 inst)"
  by (simp add: dec32_def dec32_fields_def Let_def in_range_def dec32_branch_def
      dec32_load_def dec32_store_def dec32_load_fp_def dec32_store_fp_def dec32_imm_def
      dec32_imm_w_def dec32_reg_def dec32_reg_w_def dec32_misc_def dec32_system_def
      dec32_system0_def dec32_amo_def dec32_fp_def)

lemma dec16_in_range: "succeeds in_range (dec16 inst)"
  by (simp add: dec16_def dec16_fields_def Let_def in_range_def dec16_q0_def dec16_q1_def
      dec16_q2_def dec16_misc_alu_def dec16_arith_def dec16_jump_move_def)

text \<open>The decoders end in a panic or with an instruction.\<close>

definition panics_only :: "'a result \<Rightarrow> bool" where
  "panics_only r \<longleftrightarrow> (\<forall>e. r = Inl e \<longrightarrow> (\<exists>f. e = Panic f))"

lemma panics_only_simps [simp]:
  "panics_only (Inr x)" "panics_only (Inl (Panic f))" "panics_only (if c then r else s) \<longleftrightarrow> (if c then panics_only r else panics_only s)"
  by (simp_all add: panics_only_def)

lemma panics_only_and_then [simp]: "panics_only r \<Longrightarrow> (\<And>x. panics_only (f x)) \<Longrightarrow> panics_only (and_then r f)"
  by (cases r) (auto simp: panics_only_def)

lemma dec32_panics_only: "panics_only (dec32 inst)"
  by (simp add: dec32_def dec32_fields_def Let_def dec32_branch_def
      dec32_load_def dec32_store_def dec32_load_fp_def dec32_store_fp_def dec32_imm_def
      dec32_imm_w_def dec32_reg_def dec32_reg_w_def dec32_misc_def dec32_system_def
      dec32_system0_def dec32_amo_def dec32_fp_def)

lemma dec16_panics_only: "panics_only (dec16 inst)"
  by (simp add: dec16_def dec16_fields_def Let_def dec16_q0_def dec16_q1_def
      dec16_q2_def dec16_misc_alu_def dec16_arith_def dec16_jump_move_def)

text \<open>C20.  Whatever 32 bits are fetched, decoding them either panics or gives an instruction whose
  register numbers and CSR address are inside the arrays the execution unit indexes with them,
  and a length of 2 or 4 that the two low bits decide.\<close>

theorem decode_in_range:
  "(\<exists>f. decode pc inst = Inl (Panic f)) \<or>
   (\<exists>d. decode pc inst = Inr (pc + (if inst AND 3 = 3 then 4 else 2), d) \<and> in_range d)"
proof -
  let ?r = "if inst AND 3 = 3 then dec32 inst else dec16 (ucast (inst AND 0xFFFF))"
  have "panics_only ?r" "succeeds in_range ?r"
    by (simp_all add: dec32_panics_only dec16_panics_only dec32_in_range dec16_in_range)
  moreover have "decode pc inst = and_then ?r (\<lambda>d. Inr (pc + (if inst AND 3 = 3 then 4 else 2), d))"
    by (simp add: decode_def)
  ultimately show ?thesis by (cases ?r) (auto simp: panics_only_def)
qed

end
