(* ===== verification/Util.thy ===== *)
theory Util
  imports Prelude
begin

text \<open>
  \<open>util.c\<close> and the functions of \<open>util.h\<close>: the clocks of the host, the conversion to the
  emulated timebase, page arithmetic and counting of trailing zeros.

  The host is outside the program: \<open>clock_gettime\<close>, \<open>gettimeofday\<close> and the \<open>rdtsc\<close>
  instruction return what the host says at the moment of the call.  The record \<open>host\<close>
  holds, for each source, the sequence of values it will return; \<open>h_reads\<close> counts the
  readings made so far, so two readings of one run may differ and nothing is assumed of
  them.
\<close>

record host =
  h_mono :: "nat \<Rightarrow> u64 \<times> u64"   \<comment> \<open>seconds, nanoseconds of CLOCK_MONOTONIC\<close>
  h_wall :: "nat \<Rightarrow> u64 \<times> u64"   \<comment> \<open>seconds, microseconds of gettimeofday\<close>
  h_tsc  :: "nat \<Rightarrow> u32 \<times> u32"   \<comment> \<open>low and high half of the time stamp counter\<close>
  h_reads :: nat
  cpu_clock_offset :: u64

definition PAGE_SHIFT :: nat where
  "PAGE_SHIFT = 12"

definition PAGE_SIZE :: u64 where
  "PAGE_SIZE = push_bit PAGE_SHIFT 1"

definition NANOSECONDS_PER_SECOND :: u32 where
  "NANOSECONDS_PER_SECOND = 1000000000"

definition XEMU_CLINT_TIMEBASE_FREQ :: u32 where
  "XEMU_CLINT_TIMEBASE_FREQ = 10000000"

definition get_clock :: "'a host_scheme \<Rightarrow> u64 \<times> 'a host_scheme" where
  "get_clock h =
     (let ts = h_mono h (h_reads h)
      in (fst ts * 1000000000 + snd ts, h\<lparr>h_reads := Suc (h_reads h)\<rparr>))"

definition get_clock_realtime :: "'a host_scheme \<Rightarrow> u64 \<times> 'a host_scheme" where
  "get_clock_realtime h =
     (let tv = h_wall h (h_reads h)
      in (fst tv * 1000000000 + snd tv * 1000, h\<lparr>h_reads := Suc (h_reads h)\<rparr>))"

definition cpu_enable_clock :: "'a host_scheme \<Rightarrow> 'a host_scheme" where
  "cpu_enable_clock h =
     (let (c, h') = get_clock h in h'\<lparr>cpu_clock_offset := cpu_clock_offset h' - c\<rparr>)"

definition cpu_get_clock :: "'a host_scheme \<Rightarrow> u64 \<times> 'a host_scheme" where
  "cpu_get_clock h =
     (let (c, h') = get_clock h in (cpu_clock_offset h' + c, h'))"

text \<open>
  \<open>(uint64_t)((__int128_t)a * b / c)\<close>: the product of a 64-bit and a 32-bit value fits the
  128-bit intermediate, so it is the exact product, and the quotient is cut to 64 bits.
\<close>

definition muldiv64 :: "u64 \<Rightarrow> u32 \<Rightarrow> u32 \<Rightarrow> u64" where
  "muldiv64 a b c = word_of_nat (unat a * unat b div unat c)"

definition cpu_read_rtc :: "'a host_scheme \<Rightarrow> u64 \<times> 'a host_scheme" where
  "cpu_read_rtc h =
     (let (c, h') = cpu_get_clock h
      in (muldiv64 c XEMU_CLINT_TIMEBASE_FREQ NANOSECONDS_PER_SECOND, h'))"

definition cpu_get_host_ticks :: "'a host_scheme \<Rightarrow> u64 \<times> 'a host_scheme" where
  "cpu_get_host_ticks h =
     (let (low, high) = h_tsc h (h_reads h)
      in (push_bit 32 (ucast high) OR ucast low, h\<lparr>h_reads := Suc (h_reads h)\<rparr>))"

text \<open>\<open>__builtin_ctz\<close> counts the zero bits below the lowest set bit.\<close>

fun builtin_ctz :: "nat \<Rightarrow> u32 \<Rightarrow> nat" where
  "builtin_ctz 0 v = 0"
| "builtin_ctz (Suc n) v = (if v AND 1 \<noteq> 0 then 0 else Suc (builtin_ctz n (drop_bit 1 v)))"

definition ctz32 :: "u32 \<Rightarrow> nat" where
  "ctz32 val = (if val \<noteq> 0 then builtin_ctz 32 val else 32)"

text \<open>\<open>IN_SAME_PAGE\<close> of \<open>address_space.h\<close>: the first and the last byte share a page frame.\<close>

definition PFN :: "u64 \<Rightarrow> u64" where
  "PFN addr = drop_bit PAGE_SHIFT addr"

definition IN_SAME_PAGE :: "u64 \<Rightarrow> u64 \<Rightarrow> bool" where
  "IN_SAME_PAGE addr sz = (PFN addr = PFN (addr + sz - 1))"

text \<open>\<open>get_file_size\<close>, of a file's contents; \<open>ftell\<close> fails on an offset that is no \<open>long\<close>.\<close>

definition get_file_size :: "u8 list option \<Rightarrow> u64 option" where
  "get_file_size file =
    (case file of
       None \<Rightarrow> None
     | Some bs \<Rightarrow> if 2 ^ 63 \<le> length bs then None else Some (of_nat (length bs)))"

section \<open>Lemmas\<close>

lemma builtin_ctz_lowest:
  "builtin_ctz n v = k \<Longrightarrow> k < n \<Longrightarrow> bit v k \<and> (\<forall>j<k. \<not> bit v j)"
proof (induction n arbitrary: v k)
  case 0
  then show ?case by simp
next
  case (Suc n)
  show ?case
  proof (cases "bit v 0")
    case True
    with Suc.prems show ?thesis by (simp add: word_and_one_zero)
  next
    case False
    with Suc.prems obtain k' where k: "k = Suc k'" "builtin_ctz n (drop_bit 1 v) = k'"
      by (auto simp: word_and_one_zero)
    have "bit (drop_bit 1 v) k' \<and> (\<forall>j<k'. \<not> bit (drop_bit 1 v) j)"
      using Suc.prems k by (intro Suc.IH) auto
    with False k show ?thesis
      by (auto simp: bit_simps less_Suc_eq_0_disj)
  qed
qed

lemma builtin_ctz_le: "builtin_ctz n v \<le> n"
  by (induction n arbitrary: v) auto

lemma builtin_ctz_less: "bit v j \<Longrightarrow> j < n \<Longrightarrow> builtin_ctz n v < n"
proof (induction n arbitrary: v j)
  case 0
  then show ?case by simp
next
  case (Suc n)
  show ?case
  proof (cases "bit v 0")
    case True
    then show ?thesis by (simp add: word_and_one_zero)
  next
    case False
    with Suc.prems obtain i where j: "j = Suc i"
      by (cases j) auto
    with Suc.prems have "builtin_ctz n (drop_bit 1 v) < n"
      by (intro Suc.IH [of _ i]) (auto simp: bit_simps)
    with False show ?thesis by (simp add: word_and_one_zero)
  qed
qed

lemma ctz32_bit:
  "v \<noteq> 0 \<Longrightarrow> ctz32 v < 32 \<and> bit v (ctz32 v) \<and> (\<forall>j < ctz32 v. \<not> bit v j)"
proof -
  assume v: "v \<noteq> 0"
  then obtain j where "bit v j"
    by (auto simp: bit_eq_iff)
  then have j: "bit v j" "j < 32"
    by (auto dest: bit_imp_le_length)
  then have "builtin_ctz 32 v < 32"
    by (rule builtin_ctz_less)
  with v show ?thesis
    using builtin_ctz_lowest [of 32 v] by (simp add: ctz32_def)
qed

end
