(* ===== verification/Csr.thy ===== *)
theory Csr
  imports Util
begin

text \<open>
  \<open>csr.h\<close> and \<open>csr.c\<close>: the privilege level and the control and status registers.  The state
  \<open>csr_t\<close> extends the host record, because the counters \<open>TIME\<close>, \<open>CYCLE\<close> and \<open>INSTRET\<close>
  read the host's clocks; the operations are polymorphic in the rest of the machine, so
  they act on it directly.  A read reports whether it set the caller's \<open>has_except\<close> flag.
\<close>

section \<open>Register numbers\<close>

abbreviation (input) USTATUS :: u32 where "USTATUS \<equiv> 0x000"
abbreviation (input) FCSR :: u32 where "FCSR \<equiv> 0x003"
abbreviation (input) SSTATUS :: u32 where "SSTATUS \<equiv> 0x100"
abbreviation (input) SEDELEG :: u32 where "SEDELEG \<equiv> 0x102"
abbreviation (input) SIDELEG :: u32 where "SIDELEG \<equiv> 0x103"
abbreviation (input) SIE :: u32 where "SIE \<equiv> 0x104"
abbreviation (input) STVEC :: u32 where "STVEC \<equiv> 0x105"
abbreviation (input) SCOUNTEREN :: u32 where "SCOUNTEREN \<equiv> 0x106"
abbreviation (input) SSCRATCH :: u32 where "SSCRATCH \<equiv> 0x140"
abbreviation (input) SEPC :: u32 where "SEPC \<equiv> 0x141"
abbreviation (input) SCAUSE :: u32 where "SCAUSE \<equiv> 0x142"
abbreviation (input) STVAL :: u32 where "STVAL \<equiv> 0x143"
abbreviation (input) SIP :: u32 where "SIP \<equiv> 0x144"
abbreviation (input) SATP :: u32 where "SATP \<equiv> 0x180"
abbreviation (input) MSTATUS :: u32 where "MSTATUS \<equiv> 0x300"
abbreviation (input) MISA :: u32 where "MISA \<equiv> 0x301"
abbreviation (input) MEDELEG :: u32 where "MEDELEG \<equiv> 0x302"
abbreviation (input) MIDELEG :: u32 where "MIDELEG \<equiv> 0x303"
abbreviation (input) MIE :: u32 where "MIE \<equiv> 0x304"
abbreviation (input) MTVEC :: u32 where "MTVEC \<equiv> 0x305"
abbreviation (input) MCOUNTEREN :: u32 where "MCOUNTEREN \<equiv> 0x306"
abbreviation (input) MSCRATCH :: u32 where "MSCRATCH \<equiv> 0x340"
abbreviation (input) MEPC :: u32 where "MEPC \<equiv> 0x341"
abbreviation (input) MCAUSE :: u32 where "MCAUSE \<equiv> 0x342"
abbreviation (input) MTVAL :: u32 where "MTVAL \<equiv> 0x343"
abbreviation (input) MIP :: u32 where "MIP \<equiv> 0x344"
abbreviation (input) PMPCFG0 :: u32 where "PMPCFG0 \<equiv> 0x3a0"
abbreviation (input) PMPCFG2 :: u32 where "PMPCFG2 \<equiv> 0x3a2"
abbreviation (input) PMPADDR0 :: u32 where "PMPADDR0 \<equiv> 0x3b0"
abbreviation (input) PMPADDR1 :: u32 where "PMPADDR1 \<equiv> 0x3b1"
abbreviation (input) PMPADDR2 :: u32 where "PMPADDR2 \<equiv> 0x3b2"
abbreviation (input) PMPADDR3 :: u32 where "PMPADDR3 \<equiv> 0x3b3"
abbreviation (input) PMPADDR4 :: u32 where "PMPADDR4 \<equiv> 0x3b4"
abbreviation (input) PMPADDR5 :: u32 where "PMPADDR5 \<equiv> 0x3b5"
abbreviation (input) PMPADDR6 :: u32 where "PMPADDR6 \<equiv> 0x3b6"
abbreviation (input) PMPADDR7 :: u32 where "PMPADDR7 \<equiv> 0x3b7"
abbreviation (input) PMPADDR8 :: u32 where "PMPADDR8 \<equiv> 0x3b8"
abbreviation (input) PMPADDR9 :: u32 where "PMPADDR9 \<equiv> 0x3b9"
abbreviation (input) PMPADDR10 :: u32 where "PMPADDR10 \<equiv> 0x3ba"
abbreviation (input) PMPADDR11 :: u32 where "PMPADDR11 \<equiv> 0x3bb"
abbreviation (input) PMPADDR12 :: u32 where "PMPADDR12 \<equiv> 0x3bc"
abbreviation (input) PMPADDR13 :: u32 where "PMPADDR13 \<equiv> 0x3bd"
abbreviation (input) PMPADDR14 :: u32 where "PMPADDR14 \<equiv> 0x3be"
abbreviation (input) PMPADDR15 :: u32 where "PMPADDR15 \<equiv> 0x3bf"
abbreviation (input) PMPADDR16 :: u32 where "PMPADDR16 \<equiv> 0x3c0"
abbreviation (input) PMPADDR63 :: u32 where "PMPADDR63 \<equiv> 0x3ef"
abbreviation (input) MHPMCOUNTER3 :: u32 where "MHPMCOUNTER3 \<equiv> 0xb03"
abbreviation (input) MHPMCOUNTER31 :: u32 where "MHPMCOUNTER31 \<equiv> 0xb1f"
abbreviation (input) CYCLE :: u32 where "CYCLE \<equiv> 0xc00"
abbreviation (input) TIME :: u32 where "TIME \<equiv> 0xc01"
abbreviation (input) INSTRET :: u32 where "INSTRET \<equiv> 0xc02"
abbreviation (input) MVENDORID :: u32 where "MVENDORID \<equiv> 0xf11"
abbreviation (input) MARCHID :: u32 where "MARCHID \<equiv> 0xf12"
abbreviation (input) MIMPID :: u32 where "MIMPID \<equiv> 0xf13"
abbreviation (input) MHARTID :: u32 where "MHARTID \<equiv> 0xf14"

abbreviation (input) U_MODE :: u32 where "U_MODE \<equiv> 0"
abbreviation (input) S_MODE :: u32 where "S_MODE \<equiv> 1"
abbreviation (input) M_MODE :: u32 where "M_MODE \<equiv> 3"

section \<open>Bits of the status registers and trap causes\<close>

abbreviation (input) BIT_SIE_POS :: nat where "BIT_SIE_POS \<equiv> 1"
abbreviation (input) BIT_MIE_POS :: nat where "BIT_MIE_POS \<equiv> 3"
abbreviation (input) BIT_SPIE_POS :: nat where "BIT_SPIE_POS \<equiv> 5"
abbreviation (input) BIT_MPIE_POS :: nat where "BIT_MPIE_POS \<equiv> 7"
abbreviation (input) BIT_SPP_POS :: nat where "BIT_SPP_POS \<equiv> 8"

abbreviation (input) BIT_SIE :: u64 where "BIT_SIE \<equiv> push_bit BIT_SIE_POS 1"
abbreviation (input) BIT_MIE :: u64 where "BIT_MIE \<equiv> push_bit BIT_MIE_POS 1"

abbreviation (input) BIT_CAUSE_INTR :: u64 where "BIT_CAUSE_INTR \<equiv> 0x8000000000000000"

abbreviation (input) CAUSE_U_SOFTWARE_INTR :: u64 where "CAUSE_U_SOFTWARE_INTR \<equiv> BIT_CAUSE_INTR OR 0"
abbreviation (input) CAUSE_S_SOFTWARE_INTR :: u64 where "CAUSE_S_SOFTWARE_INTR \<equiv> BIT_CAUSE_INTR OR 1"
abbreviation (input) CAUSE_M_SOFTWARE_INTR :: u64 where "CAUSE_M_SOFTWARE_INTR \<equiv> BIT_CAUSE_INTR OR 3"

abbreviation (input) CAUSE_ILLEGAL_INST :: u64 where "CAUSE_ILLEGAL_INST \<equiv> 2"
abbreviation (input) CAUSE_ECALL_FROM_U_MODE :: u64 where "CAUSE_ECALL_FROM_U_MODE \<equiv> 8"
abbreviation (input) CAUSE_INST_PAGE_FAULT :: u64 where "CAUSE_INST_PAGE_FAULT \<equiv> 12"
abbreviation (input) CAUSE_LOAD_PAGE_FAULT :: u64 where "CAUSE_LOAD_PAGE_FAULT \<equiv> 13"
abbreviation (input) CAUSE_STORE_PAGE_FAULT :: u64 where "CAUSE_STORE_PAGE_FAULT \<equiv> 15"

text \<open>\<open>MISA_INIT_VAL\<close>: MXL = 64 bits and the extensions U, S, F, D, M, I, C and A.\<close>

definition MISA_INIT_VAL :: u64 where
  "MISA_INIT_VAL =
     0x8000000000000000 OR 0x0000000000100000 OR 0x0000000000040000 OR 0x0000000000000020 OR 0x0000000000000008 OR
     0x0000000000001000 OR 0x0000000000000100 OR 0x0000000000000004 OR 0x0000000000000001"

datatype csr_op_type = CSR_OP_WRITE | CSR_OP_SET | CSR_OP_CLEAR

section \<open>State and operations\<close>

record csr_t = host +
  cur_priv :: u32
  csrs :: "u32 \<Rightarrow> u64"

definition priv :: "'a csr_t_scheme \<Rightarrow> u32" where
  "priv s = cur_priv s"

definition switch_to :: "u32 \<Rightarrow> 'a csr_t_scheme \<Rightarrow> 'a csr_t_scheme" where
  "switch_to new_priv s = s\<lparr>cur_priv := new_priv\<rparr>"

definition csr_init :: "'a csr_t_scheme \<Rightarrow> 'a csr_t_scheme" where
  "csr_init s = s\<lparr>csrs := (csrs s)(MISA := MISA_INIT_VAL)\<rparr>"

definition csr_name :: "u32 \<Rightarrow> string" where
  "csr_name csr_addr =
    (if csr_addr = USTATUS then ''ustatus''
     else if csr_addr = FCSR then ''fcsr''
     else if csr_addr = STVEC then ''stvec''
     else if csr_addr = SSCRATCH then ''sscratch''
     else if csr_addr = SATP then ''satp''
     else if csr_addr = MISA then ''misa''
     else if csr_addr = MIE then ''mie''
     else if csr_addr = MTVEC then ''mtvec''
     else if csr_addr = MSCRATCH then ''mscratch''
     else if csr_addr = MIP then ''mip''
     else if csr_addr \<in> {PMPADDR0, PMPADDR1, PMPADDR2, PMPADDR3, PMPADDR4, PMPADDR5,
       PMPADDR6, PMPADDR7, PMPADDR8, PMPADDR9, PMPADDR10, PMPADDR11, PMPADDR12, PMPADDR13,
       PMPADDR14, PMPADDR15} then ''pmpaddr''
     else if csr_addr = MVENDORID then ''mvendorid''
     else if csr_addr = MARCHID then ''marchid''
     else if csr_addr = MIMPID then ''mimpid''
     else if csr_addr = MHARTID then ''mhartid''
     else ''unknown'')"

text \<open>
  \<open>_read\<close>: the switch over the implemented registers.  Address 0 (\<open>USTATUS\<close>) falls through
  to the default, which panics for every other unknown address, and reads 0.
\<close>

definition raw_read :: "u32 \<Rightarrow> 'a csr_t_scheme \<Rightarrow> (u64 \<times> bool \<times> 'a csr_t_scheme) result" where
  "raw_read addr s =
    (let reg = Inr (csrs s addr, False, s) in
     if addr = FCSR then reg
     else if addr \<in> {SSTATUS, SEDELEG, SIDELEG, SIE, STVEC} then reg
     else if addr = SCOUNTEREN then Inr (7, False, s)
     else if addr \<in> {SSCRATCH, SEPC, SCAUSE, STVAL, SIP} then reg
     else if addr = SATP then reg
     else if addr \<in> {MSTATUS, MISA, MEDELEG, MIDELEG, MIE, MTVEC} then reg
     else if addr = MCOUNTEREN then Inr (7, False, s)
     else if addr \<in> {MSCRATCH, MEPC, MCAUSE, MTVAL, MIP} then reg
     else if addr = PMPCFG0 then reg
     else if addr = PMPCFG2 then reg
     else if PMPADDR0 \<le> addr \<and> addr \<le> PMPADDR15 then reg
     else if addr = TIME then (let (v, s') = cpu_read_rtc s in Inr (v, False, s'))
     else if addr \<in> {CYCLE, INSTRET} then
       (let (v, s') = cpu_get_host_ticks s in Inr (v, False, s'))
     else if addr \<in> {MVENDORID, MARCHID, MIMPID, MHARTID} then reg
     else if PMPADDR16 \<le> addr \<and> addr \<le> PMPADDR63 \<or>
             MHPMCOUNTER3 \<le> addr \<and> addr \<le> MHPMCOUNTER31 then Inr (0, True, s)
     else if addr \<noteq> 0 then Inl (Panic ''_read'')
     else Inr (0, False, s))"

definition csr_update ::
  "u32 \<Rightarrow> u64 \<Rightarrow> csr_op_type \<Rightarrow> 'a csr_t_scheme \<Rightarrow> (u64 \<times> bool \<times> 'a csr_t_scheme) result" where
  "csr_update addr data type s =
    (if 4096 \<le> addr then Inl (Panic ''csr_update'')
     else and_then (raw_read addr s) (\<lambda>(ret, has_except, s').
       if has_except then Inr (0, True, s')
       else
         let v = (case type of
                    CSR_OP_WRITE \<Rightarrow> data
                  | CSR_OP_SET \<Rightarrow> ret OR data
                  | CSR_OP_CLEAR \<Rightarrow> ret AND NOT data)
         in Inr (ret, False, s'\<lparr>csrs := (csrs s')(addr := v)\<rparr>)))"

definition csr_read :: "u32 \<Rightarrow> 'a csr_t_scheme \<Rightarrow> (u64 \<times> bool \<times> 'a csr_t_scheme) result" where
  "csr_read addr s =
    (if 4096 \<le> addr then Inl (Panic ''csr_read'') else raw_read addr s)"

text \<open>\<open>_set_pending_bit\<close> of \<open>util.h\<close>: copies one bit of a register into another.\<close>

definition set_pending_bit :: "u32 \<Rightarrow> u32 \<Rightarrow> nat \<Rightarrow> 'a csr_t_scheme \<Rightarrow> 'a csr_t_scheme result" where
  "set_pending_bit dst src index s =
    and_then (csr_read dst s) (\<lambda>(data, _, s).
    and_then (csr_read src s) (\<lambda>(sv, _, s).
    and_then (csr_update dst (SET_BIT data index (BIT sv index)) CSR_OP_WRITE s) (\<lambda>(_, _, s).
    Inr s)))"

section \<open>Plain registers\<close>

text \<open>
  The plain registers are the ones a read returns as stored: all the implemented ones but
  the counters and the counter-enable registers, which read the constant 7.
\<close>

definition plain_csr :: "u32 \<Rightarrow> bool" where
  "plain_csr addr \<longleftrightarrow>
     addr \<in> {FCSR, SSTATUS, SEDELEG, SIDELEG, SIE, STVEC, SSCRATCH, SEPC, SCAUSE, STVAL, SIP,
       SATP, MSTATUS, MISA, MEDELEG, MIDELEG, MIE, MTVEC, MSCRATCH, MEPC, MCAUSE, MTVAL, MIP,
       PMPCFG0, PMPCFG2, MVENDORID, MARCHID, MIMPID, MHARTID} \<or>
     PMPADDR0 \<le> addr \<and> addr \<le> PMPADDR15"

lemma raw_read_pmpaddr:
  assumes "PMPADDR0 \<le> addr" "addr \<le> PMPADDR15"
  shows "raw_read addr s = Inr (csrs s addr, False, s)"
proof -
  have low: "c < PMPADDR0 \<Longrightarrow> addr \<noteq> c" for c
    using assms(1) by auto
  show ?thesis
    by (simp add: raw_read_def Let_def low assms)
qed

lemma raw_read_plain:
  assumes "plain_csr addr"
  shows "raw_read addr s = Inr (csrs s addr, False, s)"
proof (cases "PMPADDR0 \<le> addr \<and> addr \<le> PMPADDR15")
  case True
  then show ?thesis by (simp add: raw_read_pmpaddr)
next
  case False
  with assms show ?thesis
    unfolding plain_csr_def
    by (elim disjE insertE emptyE) (simp_all add: raw_read_def)
qed

lemma plain_csr_less:
  assumes "plain_csr addr"
  shows "\<not> 4096 \<le> addr"
proof (cases "addr \<le> PMPADDR15")
  case True
  then have "addr < 4096"
    by (rule order_le_less_trans) simp
  then show ?thesis by simp
next
  case False
  with assms show ?thesis
    unfolding plain_csr_def
    by (elim disjE insertE emptyE) simp_all
qed

lemma csr_read_plain [simp]: "plain_csr addr \<Longrightarrow> csr_read addr s = Inr (csrs s addr, False, s)"
  using plain_csr_less [of addr] by (simp add: csr_read_def raw_read_plain)

lemma csr_update_plain:
  "plain_csr addr \<Longrightarrow>
   csr_update addr data type s =
     Inr (csrs s addr, False,
       s\<lparr>csrs := (csrs s)(addr :=
         (case type of CSR_OP_WRITE \<Rightarrow> data | CSR_OP_SET \<Rightarrow> csrs s addr OR data
          | CSR_OP_CLEAR \<Rightarrow> csrs s addr AND NOT data))\<rparr>)"
  using plain_csr_less [of addr] by (simp add: csr_update_def raw_read_plain Let_def)

lemma csr_write_plain [simp]:
  "plain_csr addr \<Longrightarrow>
   csr_update addr data CSR_OP_WRITE s = Inr (csrs s addr, False, s\<lparr>csrs := (csrs s)(addr := data)\<rparr>)"
  by (simp add: csr_update_plain)

lemma csr_set_plain [simp]:
  "plain_csr addr \<Longrightarrow>
   csr_update addr data CSR_OP_SET s =
     Inr (csrs s addr, False, s\<lparr>csrs := (csrs s)(addr := csrs s addr OR data)\<rparr>)"
  by (simp add: csr_update_plain)

lemma plain_csr_simps [simp]:
  "plain_csr SSTATUS" "plain_csr SIE" "plain_csr STVEC" "plain_csr SEPC" "plain_csr SCAUSE"
  "plain_csr STVAL" "plain_csr SIP" "plain_csr SATP" "plain_csr MSTATUS" "plain_csr MEDELEG"
  "plain_csr MIDELEG" "plain_csr MIE" "plain_csr MTVEC" "plain_csr MEPC" "plain_csr MCAUSE"
  "plain_csr MTVAL" "plain_csr MIP" "plain_csr MISA"
  by (simp_all add: plain_csr_def)

section \<open>What a CSR access can change\<close>

text \<open>
  A read changes nothing but the count of host readings; an update changes at most the one
  register.  Neither touches the privilege level.
\<close>

definition same_but_reads :: "'a host_scheme \<Rightarrow> 'a host_scheme \<Rightarrow> bool" where
  "same_but_reads s s' \<longleftrightarrow> (\<exists>n. s' = s\<lparr>h_reads := n\<rparr>)"

lemma same_but_reads_refl [simp, intro]: "same_but_reads s s"
  unfolding same_but_reads_def by (rule exI [of _ "h_reads s"]) simp

lemma same_but_reads_clocks [simp]:
  "same_but_reads s (snd (cpu_read_rtc s))"
  "same_but_reads s (snd (cpu_get_host_ticks s))"
  by (auto simp: same_but_reads_def cpu_read_rtc_def cpu_get_clock_def get_clock_def
      cpu_get_host_ticks_def Let_def split_def)

lemma raw_read_state: "succeeds (\<lambda>(v, ex, s'). same_but_reads s s') (raw_read addr s)"
  by (simp add: raw_read_def Let_def split_def)

lemma csr_read_state: "succeeds (\<lambda>(v, ex, s'). same_but_reads s s') (csr_read addr s)"
  by (simp add: csr_read_def raw_read_state)

lemma csr_update_state:
  "succeeds (\<lambda>(v, ex, s'). \<exists>n f. s' = s\<lparr>h_reads := n, csrs := f\<rparr> \<and> (\<forall>a. a \<noteq> addr \<longrightarrow> f a = csrs s a))
     (csr_update addr data type s)"
proof -
  have step: "\<exists>n f. s' = s\<lparr>h_reads := n, csrs := f\<rparr> \<and> (\<forall>a. a \<noteq> addr \<longrightarrow> f a = csrs s a)"
    if "same_but_reads s s1" "s' = s1 \<or> (\<exists>w. s' = s1\<lparr>csrs := (csrs s1)(addr := w)\<rparr>)" for s1 s'
  proof -
    from that(1) obtain n where "s1 = s\<lparr>h_reads := n\<rparr>"
      unfolding same_but_reads_def ..
    with that(2) have "s' = s\<lparr>h_reads := n, csrs := csrs s'\<rparr> \<and> (\<forall>a. a \<noteq> addr \<longrightarrow> csrs s' a = csrs s a)"
      by auto
    then show ?thesis by blast
  qed
  show ?thesis
    unfolding csr_update_def Let_def
    by (auto intro!: succeeds_mono [OF raw_read_state]) (rule step, assumption, blast)+
qed

section \<open>A concrete state\<close>

text \<open>For the instances of the properties: interrupts are enabled at machine level.\<close>

definition demo_csr :: "u32 \<Rightarrow> csr_t" where
  "demo_csr lvl =
    \<lparr>h_mono = \<lambda>_. (0, 0), h_wall = \<lambda>_. (0, 0), h_tsc = \<lambda>_. (0, 0), h_reads = 0,
     cpu_clock_offset = 0, cur_priv = lvl,
     csrs = (\<lambda>_. 0)(MTVEC := 0x80000100, STVEC := 0x80200000, MSTATUS := 0x8, MIE := 0x80)\<rparr>"

end
