(* ===== verification/Interrupt.thy ===== *)
theory Interrupt
  imports Csr
begin

text \<open>
  \<open>interrupt.h\<close>: the kinds of interrupt, the cause code and the pending/enable bit of a kind at
  a privilege level, and the level an interrupt is delivered to under delegation.
\<close>

datatype intr_type_t =
    INTR_TYPE_NONE
  | SOFTWARE_INTR_TYPE
  | TIMER_INTR_TYPE
  | EXTERNAL_INTR_TYPE

definition intr_type_val :: "intr_type_t \<Rightarrow> u64" where
  "intr_type_val t = (case t of INTR_TYPE_NONE \<Rightarrow> 0 | SOFTWARE_INTR_TYPE \<Rightarrow> 1
     | TIMER_INTR_TYPE \<Rightarrow> 2 | EXTERNAL_INTR_TYPE \<Rightarrow> 3)"

definition intr_cause :: "intr_type_t \<Rightarrow> u32 \<Rightarrow> u64 result" where
  "intr_cause type lvl =
    (if type = INTR_TYPE_NONE then Inl (Panic ''intr_cause'')
     else
       let offset = push_bit 2 (intr_type_val type - 1) in
       if lvl = U_MODE then Inr (CAUSE_U_SOFTWARE_INTR + offset)
       else if lvl = S_MODE then Inr (CAUSE_S_SOFTWARE_INTR + offset)
       else if lvl = M_MODE then Inr (CAUSE_M_SOFTWARE_INTR + offset)
       else Inr 0)"

definition intr_bit_flag :: "intr_type_t \<Rightarrow> u32 \<Rightarrow> u32 result" where
  "intr_bit_flag type lvl =
    and_then (intr_cause type lvl) (\<lambda>c. Inr (push_bit (unat (c AND 0xF)) 1))"

definition intr_next_priv ::
  "intr_type_t \<Rightarrow> u32 \<Rightarrow> 'a csr_t_scheme \<Rightarrow> (u32 \<times> 'a csr_t_scheme) result" where
  "intr_next_priv type lvl s =
    (if lvl \<noteq> M_MODE then
       and_then (csr_read MIDELEG s) (\<lambda>(mideleg, _, s).
       and_then (intr_bit_flag type S_MODE) (\<lambda>irq_bit.
         Inr (if mideleg AND ucast irq_bit \<noteq> 0 then S_MODE else M_MODE, s)))
     else Inr (M_MODE, s))"

section \<open>Values\<close>

text \<open>The exception code of an interrupt: bit 63 apart, \<open>lvl + 4 * (type - 1)\<close>.\<close>

lemma intr_cause_values [simp]:
  "intr_cause SOFTWARE_INTR_TYPE S_MODE = Inr (BIT_CAUSE_INTR + 1)"
  "intr_cause TIMER_INTR_TYPE S_MODE = Inr (BIT_CAUSE_INTR + 5)"
  "intr_cause EXTERNAL_INTR_TYPE S_MODE = Inr (BIT_CAUSE_INTR + 9)"
  "intr_cause SOFTWARE_INTR_TYPE M_MODE = Inr (BIT_CAUSE_INTR + 3)"
  "intr_cause TIMER_INTR_TYPE M_MODE = Inr (BIT_CAUSE_INTR + 7)"
  "intr_cause EXTERNAL_INTR_TYPE M_MODE = Inr (BIT_CAUSE_INTR + 11)"
  by (simp_all add: intr_cause_def intr_type_val_def)

lemma intr_bit_flag_values [simp]:
  "intr_bit_flag SOFTWARE_INTR_TYPE S_MODE = Inr 0x2"
  "intr_bit_flag TIMER_INTR_TYPE S_MODE = Inr 0x20"
  "intr_bit_flag EXTERNAL_INTR_TYPE S_MODE = Inr 0x200"
  "intr_bit_flag SOFTWARE_INTR_TYPE M_MODE = Inr 0x8"
  "intr_bit_flag TIMER_INTR_TYPE M_MODE = Inr 0x80"
  "intr_bit_flag EXTERNAL_INTR_TYPE M_MODE = Inr 0x800"
  by (simp_all add: intr_bit_flag_def)

lemma intr_cause_None [simp]: "intr_cause INTR_TYPE_NONE lvl = Inl (Panic ''intr_cause'')"
  by (simp add: intr_cause_def)

lemma intr_next_priv_target:
  "intr_next_priv type lvl s = Inr (p, s') \<Longrightarrow> (p = S_MODE \<or> p = M_MODE) \<and> s' = s"
  by (auto simp: intr_next_priv_def and_then_eq_Inr split: if_splits)

lemma intr_next_priv_M: "intr_next_priv type M_MODE s = Inr (M_MODE, s)"
  by (simp add: intr_next_priv_def)

end
