(* ===== verification/Device.thy ===== *)
theory Device
  imports Prelude
begin

text \<open>
  \<open>device.h\<close>: what the bus relies on of every device it reaches.  A device has a read and a
  write operation that may fail; the locale \<open>bus_device\<close> asks that both keep an invariant of
  the device, and concludes that every sequence of accesses keeps it.
\<close>

datatype bus_access =
    Rd_access u64 u64
  | Wr_access u64 u64 u64

fun run_accesses ::
  "('s \<Rightarrow> u64 \<Rightarrow> u64 \<Rightarrow> (u64 \<times> 's) result) \<Rightarrow> ('s \<Rightarrow> u64 \<Rightarrow> u64 \<Rightarrow> u64 \<Rightarrow> (u64 \<times> 's) result) \<Rightarrow>
   bus_access list \<Rightarrow> 's \<Rightarrow> (u64 list \<times> 's) result" where
  "run_accesses rd wr [] s = Inr ([], s)"
| "run_accesses rd wr (x # xs) s =
     and_then (case x of Rd_access a sz \<Rightarrow> rd s a sz | Wr_access a v sz \<Rightarrow> wr s a v sz) (\<lambda>(v, s).
     and_then (run_accesses rd wr xs s) (\<lambda>(vs, s). Inr (v # vs, s)))"

locale bus_device =
  fixes inv :: "'s \<Rightarrow> bool"
    and rd :: "'s \<Rightarrow> u64 \<Rightarrow> u64 \<Rightarrow> (u64 \<times> 's) result"
    and wr :: "'s \<Rightarrow> u64 \<Rightarrow> u64 \<Rightarrow> u64 \<Rightarrow> (u64 \<times> 's) result"
  assumes rd_keeps: "inv s \<Longrightarrow> succeeds (\<lambda>(v, s'). inv s') (rd s a sz)"
    and wr_keeps: "inv s \<Longrightarrow> succeeds (\<lambda>(v, s'). inv s') (wr s a v sz)"
begin

lemma access_keeps:
  "inv s \<Longrightarrow> succeeds (\<lambda>(v, s'). inv s')
     (case x of Rd_access a sz \<Rightarrow> rd s a sz | Wr_access a v sz \<Rightarrow> wr s a v sz)"
  by (cases x) (simp_all add: rd_keeps wr_keeps)

lemma run_keeps: "inv s \<Longrightarrow> succeeds (\<lambda>(vs, s'). inv s') (run_accesses rd wr xs s)"
proof (induction xs arbitrary: s)
  case (Cons x xs)
  have "succeeds (\<lambda>(vs, s'). inv s') (run_accesses rd wr xs s1)" if "inv s1" for s1
    using that by (rule Cons.IH)
  then show ?case
    using access_keeps [OF Cons.prems, of x]
    by (auto elim!: succeeds_mono simp: split_def)
qed simp

end

end
