(* ===== verification/Plic.thy ===== *)
theory Plic
  imports Interrupt Device
begin

text \<open>
  \<open>plic.c\<close>: the platform-level interrupt controller.  The arrays of the C structure are lists;
  an access past the end of one is undefined behaviour, as in C.  The mutex around the
  pending bits makes each operation one atomic step, so it has no counterpart in the state.
\<close>

section \<open>State\<close>

definition NUM_SOURCES :: nat where
  "NUM_SOURCES = 127"

record plic_t =
  plic_priority :: "u32 list"
  plic_mpt :: u32
  plic_spt :: u32
  plic_mcc :: u32
  plic_scc :: u32
  plic_mie :: "u32 list"
  plic_sie :: "u32 list"
  plic_pending :: "u32 list"

definition array_get :: "string \<Rightarrow> 'a list \<Rightarrow> nat \<Rightarrow> 'a result" where
  "array_get f xs i = (if i < length xs then Inr (xs ! i) else Inl (UB f))"

definition array_set :: "string \<Rightarrow> 'a list \<Rightarrow> nat \<Rightarrow> 'a \<Rightarrow> 'a list result" where
  "array_set f xs i v = (if i < length xs then Inr (xs[i := v]) else Inl (UB f))"

section \<open>Pending bits\<close>

definition bit_pos :: "u32 \<Rightarrow> (nat \<times> nat) result" where
  "bit_pos irq =
    (if irq = 0 then Inl (Panic ''_bit_pos'') else Inr (unat (irq div 32), unat (irq mod 32)))"

definition plic_signal :: "u32 \<Rightarrow> plic_t \<Rightarrow> plic_t result" where
  "plic_signal irq p =
    (if irq = 0 then Inl (Panic ''plic_signal'')
     else and_then (bit_pos irq) (\<lambda>(index, offset).
       and_then (array_get ''plic_signal'' (plic_pending p) index) (\<lambda>w.
       and_then (array_set ''plic_signal'' (plic_pending p) index (w OR push_bit offset 1)) (\<lambda>ws.
         Inr (p\<lparr>plic_pending := ws\<rparr>)))))"

definition clear_pending_bit :: "u32 \<Rightarrow> plic_t \<Rightarrow> plic_t result" where
  "clear_pending_bit irq p =
    (if irq = 0 then Inl (Panic ''clear_pending_bit'')
     else and_then (bit_pos irq) (\<lambda>(index, offset).
       and_then (array_get ''clear_pending_bit'' (plic_pending p) index) (\<lambda>w.
       and_then (array_set ''clear_pending_bit'' (plic_pending p) index
                   (w AND NOT (push_bit offset 1))) (\<lambda>ws.
         Inr (p\<lparr>plic_pending := ws\<rparr>)))))"

section \<open>Registers\<close>

definition plic_read :: "plic_t \<Rightarrow> u64 \<Rightarrow> u64 \<Rightarrow> (u64 \<times> plic_t) result" where
  "plic_read p addr sz =
    (if addr mod 4 \<noteq> 0 then Inl (Panic ''plic_read'')
     else if 0x2080 \<le> addr \<and> addr \<le> 0x2090 then
       and_then (array_get ''plic_read'' (plic_sie p) (unat ((addr - 0x2080) div 4)))
         (\<lambda>w. Inr (ucast w, p))
     else if addr = 0x200004 then
       (if plic_mcc p = 0 then Inl (Panic ''plic_read'')
        else and_then (clear_pending_bit (plic_mcc p) p) (\<lambda>p. Inr (ucast (plic_mcc p), p)))
     else if addr = 0x201004 then
       (if plic_scc p = 0 then Inr (0, p)
        else and_then (clear_pending_bit (plic_scc p) p) (\<lambda>p. Inr (ucast (plic_scc p), p)))
     else Inl (Panic ''plic_read''))"

definition plic_write :: "plic_t \<Rightarrow> u64 \<Rightarrow> u64 \<Rightarrow> u64 \<Rightarrow> (u64 \<times> plic_t) result" where
  "plic_write p addr data sz =
    (if addr mod 4 \<noteq> 0 then Inl (Panic ''plic_write'')
     else if addr \<le> 0x210 then
       and_then (array_set ''plic_write'' (plic_priority p) (unat (addr div 4)) (ucast (data AND 7)))
         (\<lambda>ws. Inr (0, p\<lparr>plic_priority := ws\<rparr>))
     else if 0x2000 \<le> addr \<and> addr \<le> 0x2010 then
       and_then (array_set ''plic_write'' (plic_mie p) (unat ((addr - 0x2000) div 4)) (ucast data))
         (\<lambda>ws. Inr (0, p\<lparr>plic_mie := ws\<rparr>))
     else if 0x2080 \<le> addr \<and> addr \<le> 0x2090 then
       and_then (array_set ''plic_write'' (plic_sie p) (unat ((addr - 0x2080) div 4)) (ucast data))
         (\<lambda>ws. Inr (0, p\<lparr>plic_sie := ws\<rparr>))
     else if addr = 0x200000 then Inr (0, p\<lparr>plic_mpt := ucast data\<rparr>)
     else if addr = 0x201000 then Inr (0, p\<lparr>plic_spt := ucast data\<rparr>)
     else if addr = 0x200004 then
       (if plic_mcc p \<noteq> ucast data then Inl (Panic ''plic_write'')
        else Inr (0, p\<lparr>plic_mcc := 0\<rparr>))
     else if addr = 0x201004 then
       (if plic_scc p \<noteq> ucast data then Inl (Panic ''plic_write'')
        else Inr (0, p\<lparr>plic_scc := 0\<rparr>))
     else Inl (Panic ''plic_write''))"

text \<open>\<open>calloc\<close> zeroes the structure.\<close>

definition plic_init :: plic_t where
  "plic_init =
     \<lparr>plic_priority = replicate (NUM_SOURCES + 1) 0, plic_mpt = 0, plic_spt = 0,
      plic_mcc = 0, plic_scc = 0, plic_mie = replicate 5 0, plic_sie = replicate 5 0,
      plic_pending = replicate 5 0\<rparr>"

section \<open>The interrupt line\<close>

function first_one_from :: "nat \<Rightarrow> u32 \<Rightarrow> nat result" where
  "first_one_from ret bits =
    (if ret < 32 then
       (if bits AND 1 \<noteq> 0 then Inr ret else first_one_from (ret + 1) (drop_bit 1 bits))
     else Inl (Panic ''first_one''))"
  by pat_completeness auto
termination
  by (relation "measure (\<lambda>(ret, bits). 32 - ret)") auto

declare first_one_from.simps [simp del]

definition first_one :: "u32 \<Rightarrow> nat result" where
  "first_one bits = first_one_from 0 bits"

text \<open>
  The loop of \<open>plic_interrupt\<close> over the words of pending bits: in each word only the lowest
  enabled pending source is looked at, and the first one above the threshold is taken.
\<close>

fun plic_scan :: "plic_t \<Rightarrow> u32 list \<Rightarrow> u32 \<Rightarrow> nat list \<Rightarrow> u32 option result" where
  "plic_scan p xie xpt [] = Inr None"
| "plic_scan p xie xpt (i # js) =
    and_then (array_get ''plic_interrupt'' (plic_pending p) i) (\<lambda>pend.
    and_then (array_get ''plic_interrupt'' xie i) (\<lambda>en.
      let bits = pend AND en in
      if bits \<noteq> 0 then
        and_then (first_one bits) (\<lambda>off.
          let irq = word_of_nat (i * 32 + off) in
          and_then (array_get ''plic_interrupt'' (plic_priority p) (i * 32 + off)) (\<lambda>pri.
            if xpt < pri then Inr (Some irq) else plic_scan p xie xpt js))
      else plic_scan p xie xpt js))"

definition plic_interrupt ::
  "plic_t \<Rightarrow> 'a csr_t_scheme \<Rightarrow> (u32 \<times> plic_t \<times> 'a csr_t_scheme) result" where
  "plic_interrupt p s =
    and_then (intr_next_priv EXTERNAL_INTR_TYPE (priv s) s) (\<lambda>(next_priv, s).
      let xie = (if next_priv = S_MODE then plic_sie p else plic_mie p);
          xpt = (if next_priv = S_MODE then plic_spt p else plic_mpt p) in
      and_then (plic_scan p xie xpt [0..<5]) (\<lambda>found.
        case found of
          None \<Rightarrow> Inr (0, p, s)
        | Some irq \<Rightarrow>
            Inr (irq, if next_priv = S_MODE then p\<lparr>plic_scc := irq\<rparr> else p\<lparr>plic_mcc := irq\<rparr>, s)))"

section \<open>The shape of the controller\<close>

text \<open>
  The arrays keep their lengths and the claim registers hold a number below 160, one that has a
  pending bit, so no operation but the priority registers' write leaves an array (\<open>plic_write\<close>
  accepts 133 priority registers where 128 exist).
\<close>

definition plic_inv :: "plic_t \<Rightarrow> bool" where
  "plic_inv p \<longleftrightarrow>
     length (plic_priority p) = NUM_SOURCES + 1 \<and> length (plic_mie p) = 5 \<and>
     length (plic_sie p) = 5 \<and> length (plic_pending p) = 5 \<and>
     plic_mcc p < 160 \<and> plic_scc p < 160"

lemma succeeds_array_set [simp]:
  "succeeds P (array_set f xs i v) \<longleftrightarrow> (i < length xs \<longrightarrow> P (xs[i := v]))"
  by (simp add: array_set_def)

lemma succeeds_array_get [simp]:
  "succeeds P (array_get f xs i) \<longleftrightarrow> (i < length xs \<longrightarrow> P (xs ! i))"
  by (simp add: array_get_def)

lemma plic_signal_keeps [keeps]: "plic_inv p \<Longrightarrow> succeeds plic_inv (plic_signal irq p)"
  by (simp add: plic_signal_def bit_pos_def plic_inv_def split_def)

lemma clear_pending_keeps [keeps]:
  "succeeds (\<lambda>p'. \<exists>ws. p' = p\<lparr>plic_pending := ws\<rparr> \<and> length ws = length (plic_pending p))
     (clear_pending_bit irq p)"
  by (auto simp: clear_pending_bit_def bit_pos_def)

lemma plic_read_keeps [keeps]: "plic_inv p \<Longrightarrow> succeeds (\<lambda>(v, p'). plic_inv p') (plic_read p addr sz)"
  by (auto simp: plic_read_def plic_inv_def intro!: succeeds_mono [OF clear_pending_keeps])

lemma plic_write_keeps [keeps]:
  "plic_inv p \<Longrightarrow> succeeds (\<lambda>(v, p'). plic_inv p') (plic_write p addr data sz)"
  by (simp add: plic_write_def plic_inv_def)

lemma plic_init_inv: "plic_inv plic_init"
  by (simp add: plic_init_def plic_inv_def)

interpretation plic: bus_device plic_inv plic_read plic_write
  by unfold_locales (auto intro: keeps)

section \<open>What the interrupt line delivers\<close>

lemma first_one_from_spec:
  "first_one_from ret bits = Inr k \<Longrightarrow>
   \<exists>j. k = ret + j \<and> k < 32 \<and> bit bits j \<and> (\<forall>i<j. \<not> bit bits i)"
proof (induction ret bits rule: first_one_from.induct)
  case (1 ret bits)
  show ?case
  proof (cases "bit bits 0")
    case True
    with "1.prems" show ?thesis
      by (subst (asm) first_one_from.simps) (auto simp: word_and_one_zero split: if_splits)
  next
    case False
    then have 0: "\<not> bits AND 1 \<noteq> 0"
      by (simp add: word_and_one_zero)
    with "1.prems" have ret: "ret < 32" "first_one_from (ret + 1) (drop_bit 1 bits) = Inr k"
      by (subst (asm) first_one_from.simps; simp split: if_splits)+
    from "1.IH" [OF ret(1) 0 ret(2)] obtain j
      where j: "k = ret + 1 + j" "k < 32" "bit bits (Suc j)" "\<forall>i<j. \<not> bit bits (Suc i)"
      by (auto simp: bit_simps)
    with False have "\<forall>i<Suc j. \<not> bit bits i"
      by (auto simp: less_Suc_eq_0_disj)
    with j show ?thesis by (intro exI [of _ "Suc j"]) simp
  qed
qed

lemma first_one_spec:
  "first_one bits = Inr k \<Longrightarrow> k < 32 \<and> bit bits k \<and> (\<forall>i<k. \<not> bit bits i)"
  using first_one_from_spec [of 0 bits k] by (auto simp: first_one_def)

lemma first_one_exists: "bits \<noteq> 0 \<Longrightarrow> \<exists>k. first_one bits = Inr k"
proof -
  have "first_one_from ret bits \<noteq> Inl e" if "bit bits j" "ret + j < 32" for ret bits j e
    using that
  proof (induction ret bits arbitrary: j rule: first_one_from.induct)
    case (1 ret bits)
    show ?case
    proof (cases "bit bits 0")
      case True
      with "1.prems" show ?thesis
        by (subst first_one_from.simps) (simp add: word_and_one_zero)
    next
      case False
      with "1.prems" obtain i where i: "j = Suc i"
        by (cases j) auto
      with False "1.prems" have "first_one_from (ret + 1) (drop_bit 1 bits) \<noteq> Inl e"
        by (intro "1.IH" [of i]) (auto simp: word_and_one_zero bit_simps)
      with False show ?thesis
        by (subst first_one_from.simps) (use "1.prems" in \<open>simp add: word_and_one_zero\<close>)
    qed
  qed
  moreover assume "bits \<noteq> 0"
  then obtain j where "bit bits j"
    by (auto simp: bit_eq_iff)
  moreover from this have "j < 32"
    by (auto dest: bit_imp_le_length)
  ultimately have "\<forall>e. first_one_from 0 bits \<noteq> Inl e"
    by simp
  then show ?thesis
    unfolding first_one_def by (cases "first_one_from 0 bits") auto
qed

text \<open>The source a scan picks is pending, enabled, and above the threshold.\<close>

definition plic_deliverable :: "plic_t \<Rightarrow> u32 list \<Rightarrow> u32 \<Rightarrow> nat \<Rightarrow> bool" where
  "plic_deliverable p xie xpt n \<longleftrightarrow>
     n < length (plic_priority p) \<and> bit (plic_pending p ! (n div 32)) (n mod 32) \<and>
     bit (xie ! (n div 32)) (n mod 32) \<and> xpt < plic_priority p ! n"

lemma array_get_eq_Inr [simp]: "array_get f xs i = Inr x \<longleftrightarrow> i < length xs \<and> xs ! i = x"
  by (auto simp: array_get_def)

lemma plic_scan_Some:
  "plic_scan p xie xpt js = Inr (Some irq) \<Longrightarrow>
   \<exists>n. irq = word_of_nat n \<and> n div 32 \<in> set js \<and> plic_deliverable p xie xpt n"
proof (induction js)
  case (Cons i js)
  define bits where "bits = plic_pending p ! i AND xie ! i"
  have len: "i < length (plic_pending p)" "i < length xie"
    using Cons.prems by (auto simp: and_then_eq_Inr)
  have "plic_scan p xie xpt js = Inr (Some irq) \<or>
    (\<exists>off. first_one bits = Inr off \<and> i * 32 + off < length (plic_priority p) \<and>
        xpt < plic_priority p ! (i * 32 + off) \<and> irq = word_of_nat (i * 32 + off))"
  proof (cases "bits = 0")
    case True
    with Cons.prems len show ?thesis
      by (simp add: array_get_def bits_def)
  next
    case False
    then obtain off where off: "first_one bits = Inr off"
      using first_one_exists by blast
    with Cons.prems len False show ?thesis
      by (simp add: array_get_def bits_def [symmetric] Let_def split: if_splits)
  qed
  then consider (skip) "plic_scan p xie xpt js = Inr (Some irq)"
    | (take) off where "first_one bits = Inr off" "i * 32 + off < length (plic_priority p)"
        "xpt < plic_priority p ! (i * 32 + off)" "irq = word_of_nat (i * 32 + off)"
    by blast
  then show ?case
  proof cases
    case skip
    from Cons.IH [OF this] show ?thesis by auto
  next
    case take
    have "off < 32" "bit bits off"
      using first_one_spec [OF take(1)] by blast+
    then have bit: "bit (plic_pending p ! i) off" "bit (xie ! i) off"
      unfolding bits_def bit_and_iff by blast+
    have idx: "(i * 32 + off) div 32 = i" "(i * 32 + off) mod 32 = off"
      using \<open>off < 32\<close> by simp_all
    have "plic_deliverable p xie xpt (i * 32 + off)"
      unfolding plic_deliverable_def idx using take(2, 3) bit by blast
    then show ?thesis
      using take(4) idx(1) by (intro exI [of _ "i * 32 + off"]) simp
  qed
qed simp

lemma plic_interrupt_shape:
  assumes "plic_interrupt p s = Inr (irq, p', s')"
  obtains (nothing) "irq = 0" "p' = p" "s' = s"
  | (supervisor) "intr_next_priv EXTERNAL_INTR_TYPE (priv s) s = Inr (S_MODE, s)"
      "plic_scan p (plic_sie p) (plic_spt p) [0..<5] = Inr (Some irq)" "p' = p\<lparr>plic_scc := irq\<rparr>" "s' = s"
  | (machine) "intr_next_priv EXTERNAL_INTR_TYPE (priv s) s = Inr (M_MODE, s)"
      "plic_scan p (plic_mie p) (plic_mpt p) [0..<5] = Inr (Some irq)" "p' = p\<lparr>plic_mcc := irq\<rparr>" "s' = s"
proof -
  from assms obtain np s1 where np1: "intr_next_priv EXTERNAL_INTR_TYPE (priv s) s = Inr (np, s1)"
    unfolding plic_interrupt_def and_then_eq_Inr by (auto simp del: upt_rec_numeral)
  with intr_next_priv_target have s1: "s1 = s" and np: "np = S_MODE \<or> np = M_MODE"
    by blast+
  define xie where "xie = (if np = S_MODE then plic_sie p else plic_mie p)"
  define xpt where "xpt = (if np = S_MODE then plic_spt p else plic_mpt p)"
  have run: "and_then (plic_scan p xie xpt [0..<5]) (\<lambda>found.
        case found of
          None \<Rightarrow> Inr (0, p, s)
        | Some irq \<Rightarrow>
            Inr (irq, if np = S_MODE then p\<lparr>plic_scc := irq\<rparr> else p\<lparr>plic_mcc := irq\<rparr>, s)) =
      Inr (irq, p', s')"
    using assms
    by (simp only: plic_interrupt_def np1 s1 and_then_Inr prod.case Let_def xie_def xpt_def)
  then obtain found where found: "plic_scan p xie xpt [0..<5] = Inr found"
    unfolding and_then_eq_Inr by blast
  show thesis
  proof (cases found)
    case None
    with run found have "irq = 0" "p' = p" "s' = s"
      by (simp_all del: upt_rec_numeral)
    then show thesis by (rule nothing)
  next
    case (Some i)
    with run found have "i = irq" "s' = s"
      "p' = (if np = S_MODE then p\<lparr>plic_scc := irq\<rparr> else p\<lparr>plic_mcc := irq\<rparr>)"
      by (auto simp del: upt_rec_numeral)
    with np np1 s1 found Some supervisor machine show thesis
      by (cases "np = S_MODE") (simp_all add: xie_def xpt_def del: upt_rec_numeral plic_scan.simps)
  qed
qed

lemma plic_interrupt_keeps: 
  assumes "plic_inv p" "plic_interrupt p s = Inr (irq, p', s')"
  shows "plic_inv p' \<and> s' = s"
proof -
  have "irq < 160" if "plic_scan p xie xpt [0..<5] = Inr (Some irq)" for xie xpt
    using plic_scan_Some [OF that] assms(1)
    by (auto simp: plic_deliverable_def plic_inv_def NUM_SOURCES_def word_less_nat_alt unat_of_nat
        take_bit_nat_eq_self)
  with assms(2) show ?thesis
    by (cases rule: plic_interrupt_shape) (use assms(1) in \<open>auto simp: plic_inv_def\<close>)
qed

section \<open>Properties\<close>

text \<open>The enable words and the threshold of the level external interrupts go to.\<close>

definition external_level :: "'a csr_t_scheme \<Rightarrow> u32" where
  "external_level s = (if priv s \<noteq> M_MODE \<and> bit (csrs s MIDELEG) 9 then S_MODE else M_MODE)"

definition level_enable :: "u32 \<Rightarrow> plic_t \<Rightarrow> u32 list" where
  "level_enable lvl p = (if lvl = S_MODE then plic_sie p else plic_mie p)"

definition level_threshold :: "u32 \<Rightarrow> plic_t \<Rightarrow> u32" where
  "level_threshold lvl p = (if lvl = S_MODE then plic_spt p else plic_mpt p)"

definition level_claim :: "u32 \<Rightarrow> plic_t \<Rightarrow> u32" where
  "level_claim lvl p = (if lvl = S_MODE then plic_scc p else plic_mcc p)"

lemma external_next_priv: "intr_next_priv EXTERNAL_INTR_TYPE (priv s) s = Inr (external_level s, s)"
proof -
  have "(w AND 0x200 = 0) = (\<not> bit w 9)" for w :: u64
    by (simp add: bit_iff_and_push_bit_not_eq_0)
  then show ?thesis
    by (simp add: intr_next_priv_def external_level_def)
qed

text \<open>C21.  An interrupt the controller delivers is one it should: the source is pending, enabled at
  the level that takes external interrupts, above that level's threshold, and it is put in that
  level's claim register; nothing else of the controller changes.\<close>

theorem plic_interrupt_sound:
  assumes "plic_interrupt p s = Inr (irq, p', s')" "irq \<noteq> 0"
  defines "lvl \<equiv> external_level s"
  shows "plic_deliverable p (level_enable lvl p) (level_threshold lvl p) (unat irq) \<and>
    level_claim lvl p' = irq \<and> p' = p\<lparr>plic_scc := plic_scc p', plic_mcc := plic_mcc p'\<rparr> \<and> s' = s"
proof -
  have found: "plic_deliverable p xie xpt (unat irq)"
    if "plic_scan p xie xpt [0..<5] = Inr (Some irq)" for xie xpt
  proof -
    from plic_scan_Some [OF that] obtain n
      where n: "irq = word_of_nat n" "n div 32 < 5" "plic_deliverable p xie xpt n"
      by auto
    then have "unat irq = n"
      by (simp add: unat_of_nat take_bit_nat_eq_self)
    with n show ?thesis by simp
  qed
  from assms(1) show ?thesis
    by (cases rule: plic_interrupt_shape)
      (use assms(2) found in \<open>auto simp: external_next_priv lvl_def level_enable_def level_threshold_def
        level_claim_def simp del: upt_rec_numeral plic_scan.simps\<close>)
qed

text \<open>The scan finds something when some word's lowest enabled pending source is deliverable.\<close>

definition lowest_in_word :: "plic_t \<Rightarrow> u32 list \<Rightarrow> nat \<Rightarrow> bool" where
  "lowest_in_word p xie n \<longleftrightarrow>
     (\<forall>k < n mod 32. \<not> (bit (plic_pending p ! (n div 32)) k \<and> bit (xie ! (n div 32)) k))"

lemma first_one_lowest:
  assumes "bit bits k" "k < 32" "\<forall>j<k. \<not> bit bits j"
  shows "first_one bits = Inr k"
proof -
  have "bits \<noteq> 0"
    using assms(1) by auto
  then obtain i where i: "first_one bits = Inr i"
    using first_one_exists by blast
  with first_one_spec [OF this] assms have "i = k"
    by (metis linorder_neqE_nat)
  with i show ?thesis by simp
qed

lemma plic_scan_finds:
  assumes "plic_inv p" "length xie = 5" "plic_pending p ! 4 = 0" "set js \<subseteq> {..<5}"
    and n: "n div 32 \<in> set js" "plic_deliverable p xie xpt n" "lowest_in_word p xie n"
  shows "\<exists>irq. plic_scan p xie xpt js = Inr (Some irq)"
  using assms(4) n(1)
proof (induction js)
  case (Cons i js)
  define bits where "bits = plic_pending p ! i AND xie ! i"
  have get: "array_get f (plic_pending p) i = Inr (plic_pending p ! i)" "array_get f xie i = Inr (xie ! i)" for f
    using Cons.prems assms(1, 2) by (auto simp: plic_inv_def)
  have pri: "array_get f (plic_priority p) (i * 32 + off) = Inr (plic_priority p ! (i * 32 + off))"
    if "first_one bits = Inr off" for off f
  proof -
    have "off < 32" "bit bits off"
      using first_one_spec [OF that] by blast+
    then have "i \<noteq> 4"
      using assms(3) by (auto simp: bits_def bit_and_iff)
    with \<open>off < 32\<close> Cons.prems(1) have "i * 32 + off < 128"
      by auto
    with assms(1) show ?thesis
      by (simp add: plic_inv_def NUM_SOURCES_def)
  qed
  show ?case
  proof (cases "n div 32 = i")
    case True
    have idx: "i * 32 + n mod 32 = n"
      using True by auto
    have "first_one bits = Inr (n mod 32)"
      using n(2, 3) unfolding True bits_def lowest_in_word_def plic_deliverable_def
      by (intro first_one_lowest) (auto simp: bit_and_iff)
    moreover from this have "bits \<noteq> 0"
      using first_one_spec [of bits "n mod 32"] by auto
    moreover have "n < length (plic_priority p)" "xpt < plic_priority p ! n"
      using n(2) by (simp_all add: plic_deliverable_def)
    ultimately show ?thesis
      by (simp add: get bits_def [symmetric] Let_def idx array_get_def [of _ "plic_priority p"])
  next
    case False
    with Cons.prems have "\<exists>irq. plic_scan p xie xpt js = Inr (Some irq)"
      by (intro Cons.IH) auto
    moreover obtain off where "bits \<noteq> 0 \<longrightarrow> first_one bits = Inr off"
      using first_one_exists by blast
    ultimately show ?thesis
      using pri [of off] by (cases "bits = 0")
        (auto simp: get bits_def [symmetric] Let_def array_get_def [of _ "plic_priority p"])
  qed
qed simp

lemma plic_scan_total:
  assumes "plic_inv p" "length xie = 5" "plic_pending p ! 4 = 0"
  shows "set js \<subseteq> {..<5} \<Longrightarrow> \<exists>r. plic_scan p xie xpt js = Inr r"
proof (induction js)
  case (Cons i js)
  define bits where "bits = plic_pending p ! i AND xie ! i"
  have get: "array_get f (plic_pending p) i = Inr (plic_pending p ! i)" "array_get f xie i = Inr (xie ! i)" for f
    using Cons.prems assms(1, 2) by (auto simp: plic_inv_def)
  show ?case
  proof (cases "bits = 0")
    case True
    with Cons show ?thesis
      by (simp add: get bits_def)
  next
    case False
    then obtain off where off: "first_one bits = Inr off"
      using first_one_exists by blast
    have "off < 32" "i \<noteq> 4"
      using first_one_spec [OF off] assms(3) by (auto simp: bits_def bit_and_iff)
    with Cons.prems have "i * 32 + off < 128"
      by auto
    then show ?thesis
      using Cons off False assms(1)
      by (simp add: get bits_def [symmetric] Let_def array_get_def [of _ "plic_priority p"] plic_inv_def NUM_SOURCES_def)
  qed
qed simp

lemma plic_interrupt_total:
  assumes "plic_inv p" "plic_pending p ! 4 = 0"
  obtains irq p' where "plic_interrupt p s = Inr (irq, p', s)" "plic_inv p'" "plic_pending p' = plic_pending p"
proof -
  obtain np where np: "intr_next_priv EXTERNAL_INTR_TYPE (priv s) s = Inr (np, s)"
    by (metis external_next_priv)
  define xie where "xie = (if np = S_MODE then plic_sie p else plic_mie p)"
  define xpt where "xpt = (if np = S_MODE then plic_spt p else plic_mpt p)"
  have "length xie = 5"
    using assms(1) by (simp add: xie_def plic_inv_def)
  moreover have "set [0..<5] \<subseteq> {..<5}"
    by auto
  ultimately obtain r where "plic_scan p xie xpt [0..<5] = Inr r"
    using plic_scan_total [OF assms(1) _ assms(2)] by blast
  then obtain irq p' where run: "plic_interrupt p s = Inr (irq, p', s)"
    by (cases r) (simp_all add: plic_interrupt_def np Let_def xie_def [symmetric] xpt_def [symmetric]
        del: upt_rec_numeral plic_scan.simps)
  moreover from run have "plic_pending p' = plic_pending p"
    by (cases rule: plic_interrupt_shape) simp_all
  moreover have "plic_inv p'"
    using plic_interrupt_keeps [OF assms(1) run] by blast
  ultimately show thesis
    using that by blast
qed

text \<open>C22.  The controller does not lose a source that is the lowest enabled pending one of its word.\<close>

theorem plic_interrupt_delivers:
  fixes p :: plic_t and s :: "'a csr_t_scheme"
  assumes "plic_inv p" "plic_pending p ! 4 = 0"
  defines "lvl \<equiv> external_level s"
  assumes "plic_deliverable p (level_enable lvl p) (level_threshold lvl p) n"
    and "lowest_in_word p (level_enable lvl p) n"
  shows "\<exists>irq p'. plic_interrupt p s = Inr (irq, p', s) \<and>
    plic_deliverable p (level_enable lvl p) (level_threshold lvl p) (unat irq) \<and> level_claim lvl p' = irq"
proof -
  let ?scan = "plic_scan p (level_enable lvl p) (level_threshold lvl p) [0..<5]"
  have "n < 128"
    using assms(1, 4) by (simp add: plic_deliverable_def plic_inv_def NUM_SOURCES_def)
  then have "n div 32 \<in> set [0..<5]"
    by (auto simp del: upt_rec_numeral)
  moreover have "length (level_enable lvl p) = 5"
    using assms(1) by (simp add: level_enable_def plic_inv_def)
  moreover have "set [0..<5] \<subseteq> {..<5}"
    by auto
  ultimately obtain irq where irq: "?scan = Inr (Some irq)"
    using plic_scan_finds [OF assms(1) _ assms(2) _ _ assms(4, 5), of "[0..<5]"] by blast
  from plic_scan_Some [OF this] obtain k
    where k: "irq = word_of_nat k" "k div 32 < 5" "plic_deliverable p (level_enable lvl p) (level_threshold lvl p) k"
    by auto
  then have "unat irq = k"
    by (simp add: unat_of_nat take_bit_nat_eq_self)
  with irq k show ?thesis
    by (auto simp: plic_interrupt_def external_next_priv lvl_def level_enable_def level_threshold_def
        level_claim_def Let_def simp del: upt_rec_numeral plic_scan.simps)
qed

text \<open>It does lose others.\<close>

theorem plic_misses_source:
  "\<exists>p. plic_inv p \<and> plic_pending p ! 4 = 0 \<and> plic_deliverable p (plic_mie p) (plic_mpt p) 10 \<and>
     plic_scan p (plic_mie p) (plic_mpt p) [0..<5] = Inr None"
proof -
  define p where "p = plic_init\<lparr>plic_pending := [0x402, 0, 0, 0, 0], plic_mie := [0x402, 0, 0, 0, 0],
    plic_priority := (replicate 128 0)[10 := 1]\<rparr>"
  have "plic_inv p"
    by (simp add: p_def plic_init_def plic_inv_def NUM_SOURCES_def)
  moreover have "plic_pending p ! 4 = 0" "plic_deliverable p (plic_mie p) (plic_mpt p) 10"
    unfolding p_def by code_simp+
  moreover have "plic_scan p (plic_mie p) (plic_mpt p) [0..<5] = Inr None"
    unfolding p_def by code_simp
  ultimately show ?thesis by blast
qed

text \<open>A controller with source 10 pending, enabled and above the thresholds, for instances.\<close>

definition demo_plic :: plic_t where
  "demo_plic = plic_init\<lparr>plic_pending := [0x400, 0, 0, 0, 0], plic_sie := [0x400, 0, 0, 0, 0],
     plic_mie := [0x400, 0, 0, 0, 0], plic_priority := (replicate 128 0)[10 := 1]\<rparr>"

lemma demo_plic_facts:
  "plic_inv demo_plic" "plic_pending demo_plic ! 4 = 0"
  "plic_deliverable demo_plic (plic_mie demo_plic) (plic_mpt demo_plic) 10"
  "lowest_in_word demo_plic (plic_mie demo_plic) 10"
  "plic_scan demo_plic (plic_mie demo_plic) (plic_mpt demo_plic) [0..<5] = Inr (Some 10)"
proof -
  show "plic_inv demo_plic"
    by (simp add: demo_plic_def plic_init_def plic_inv_def NUM_SOURCES_def)
  show "plic_pending demo_plic ! 4 = 0"
    "plic_deliverable demo_plic (plic_mie demo_plic) (plic_mpt demo_plic) 10"
    "lowest_in_word demo_plic (plic_mie demo_plic) 10"
    "plic_scan demo_plic (plic_mie demo_plic) (plic_mpt demo_plic) [0..<5] = Inr (Some 10)"
    by code_simp+
qed

theorem plic_interrupt_sound_witness:
  "\<exists>p'. plic_interrupt demo_plic (demo_csr M_MODE) = Inr (10, p', demo_csr M_MODE) \<and> plic_mcc p' = 10"
proof -
  have "plic_interrupt demo_plic (demo_csr M_MODE) = Inr (10, demo_plic\<lparr>plic_mcc := 10\<rparr>, demo_csr M_MODE)"
    by (simp add: plic_interrupt_def intr_next_priv_def priv_def demo_csr_def demo_plic_facts
        del: upt_rec_numeral plic_scan.simps)
  with plic_interrupt_sound [OF this] show ?thesis
    by (simp add: level_claim_def external_level_def priv_def demo_csr_def)
qed

theorem plic_interrupt_delivers_witness:
  "\<exists>irq p'. plic_interrupt demo_plic (demo_csr M_MODE) = Inr (irq, p', demo_csr M_MODE) \<and> plic_mcc p' = irq"
  using plic_interrupt_delivers [of demo_plic "demo_csr M_MODE" 10]
  by (simp add: demo_plic_facts level_claim_def level_enable_def level_threshold_def external_level_def
      priv_def demo_csr_def) blast

lemma bit_update_or:
  "bit ((xs[i := xs ! i OR push_bit k 1]) ! j) l \<longleftrightarrow> bit (xs ! j) l \<or> i = j \<and> k = l"
  if "i < length xs" "k < LENGTH('a)" for xs :: "'a::len word list"
  using that by (auto simp: nth_list_update bit_simps dest: bit_imp_le_length)

lemma bit_update_and:
  "bit ((xs[i := xs ! i AND NOT (push_bit k 1)]) ! j) l \<longleftrightarrow> bit (xs ! j) l \<and> \<not> (i = j \<and> k = l)"
  if "i < length xs" "k < LENGTH('a)" for xs :: "'a::len word list"
  using that by (auto simp: nth_list_update bit_simps dest: bit_imp_le_length)

text \<open>A device's signal sets its source's pending bit and no other, and the claim read that
  returns the source clears that bit and no other.\<close>

theorem plic_signal_claim:
  assumes "plic_inv p" "0 < irq" "irq < 160"
  shows "\<exists>p1. plic_signal irq p = Inr p1 \<and> plic_inv p1 \<and>
    (\<forall>w k. bit (plic_pending p1 ! w) k \<longleftrightarrow>
       bit (plic_pending p ! w) k \<or> w = unat irq div 32 \<and> k = unat irq mod 32) \<and>
    (\<exists>p2. plic_read (p1\<lparr>plic_scc := irq\<rparr>) 0x201004 4 = Inr (ucast irq, p2) \<and>
      (\<forall>w k. bit (plic_pending p2 ! w) k \<longleftrightarrow>
         bit (plic_pending p ! w) k \<and> \<not> (w = unat irq div 32 \<and> k = unat irq mod 32)))"
proof -
  have irq: "irq \<noteq> 0" "unat irq < 160"
    using assms(2, 3) by (auto simp: word_less_nat_alt)
  then have idx: "unat irq div 32 < 5" "unat irq div 32 < length (plic_pending p)"
    "unat (irq div 32) = unat irq div 32" "unat (irq mod 32) = unat irq mod 32"
    using assms(1) by (auto simp: plic_inv_def unat_div unat_mod)
  have "unat irq mod 32 < LENGTH(32)"
    by simp
  note bits = bit_update_or [OF idx(2) this] bit_update_and [OF _ this]
  have len: "length (plic_pending p) = 5"
    using assms(1) by (simp add: plic_inv_def)
  define one :: u32 where "one = push_bit (unat irq mod 32) 1"
  define ws where "ws = (plic_pending p)[unat irq div 32 := plic_pending p ! (unat irq div 32) OR one]"
  define vs where "vs = ws[unat irq div 32 := ws ! (unat irq div 32) AND NOT one]"
  have len_ws: "length ws = 5"
    by (simp add: ws_def len)
  have "plic_signal irq p = Inr (p\<lparr>plic_pending := ws\<rparr>)"
    using irq(1) idx by (simp add: plic_signal_def bit_pos_def array_get_def array_set_def ws_def one_def)
  moreover have "plic_inv (p\<lparr>plic_pending := ws\<rparr>)"
    using assms(1) by (simp add: plic_inv_def len_ws)
  moreover have "bit (ws ! w) k \<longleftrightarrow> bit (plic_pending p ! w) k \<or> w = unat irq div 32 \<and> k = unat irq mod 32" for w k
    unfolding ws_def one_def bits(1) by auto
  moreover from this have "bit (vs ! w) k \<longleftrightarrow>
      bit (plic_pending p ! w) k \<and> \<not> (w = unat irq div 32 \<and> k = unat irq mod 32)" for w k
    unfolding vs_def one_def using bits(2) [of "unat irq div 32" ws w k] idx by (auto simp: len_ws)
  moreover have "plic_read (p\<lparr>plic_pending := ws, plic_scc := irq\<rparr>) 0x201004 4 =
      Inr (ucast irq, p\<lparr>plic_pending := vs, plic_scc := irq\<rparr>)"
    using irq(1) idx by (simp add: plic_read_def clear_pending_bit_def bit_pos_def array_get_def
        array_set_def len_ws vs_def one_def)
  ultimately show ?thesis by auto
qed

theorem plic_signal_claim_witness:
  "\<exists>p1. plic_signal 10 plic_init = Inr p1 \<and> bit (plic_pending p1 ! 0) 10"
  using plic_signal_claim [of plic_init 10] by (auto simp: plic_init_inv)

text \<open>C24.  The only store to the controller that leaves an array is one to the priority
  registers past the 128th, which the address check lets through.\<close>

theorem plic_write_overflow:
  assumes "plic_inv p"
  shows "(\<exists>f. plic_write p addr data sz = Inl (UB f)) \<longleftrightarrow> addr mod 4 = 0 \<and> 0x200 \<le> addr \<and> addr \<le> 0x210"
proof -
  have len: "length (plic_priority p) = 128" "length (plic_mie p) = 5" "length (plic_sie p) = 5"
    using assms by (simp_all add: plic_inv_def NUM_SOURCES_def)
  have set_UB: "(\<exists>f. and_then (array_set g xs i v) (\<lambda>ws. Inr (h ws)) = Inl (UB f)) \<longleftrightarrow> length xs \<le> i"
    for g xs i v and h :: "u32 list \<Rightarrow> u64 \<times> plic_t"
    by (auto simp: array_set_def)
  have idx: "unat ((addr - b) div 4) < 5" if "b \<le> addr" "addr \<le> b + 0x10" "b \<le> 0x3000" for b
    using that by unat_arith
  have pri: "128 \<le> unat (addr div 4) \<longleftrightarrow> 0x200 \<le> addr"
    by unat_arith
  have if_UB: "(\<exists>f. (if c then x else y) = Inl (UB f)) \<longleftrightarrow>
      (if c then \<exists>f. x = Inl (UB f) else \<exists>f. y = Inl (UB f))" for c and x y :: "(u64 \<times> plic_t) result"
    by simp
  have "\<not> 5 \<le> unat ((addr - 0x2000) div 4)" if "0x2000 \<le> addr" "addr \<le> 0x2010"
    using idx [of "0x2000"] that by simp
  moreover have "\<not> 5 \<le> unat ((addr - 0x2080) div 4)" if "0x2080 \<le> addr" "addr \<le> 0x2090"
    using idx [of "0x2080"] that by simp
  moreover have "addr \<le> 0x210 \<Longrightarrow> \<not> 0x2000 \<le> addr"
    by unat_arith
  ultimately show ?thesis
    by (simp add: plic_write_def if_UB set_UB len pri)
qed

theorem plic_write_overflow_witness: "\<exists>f. plic_write plic_init 0x200 7 4 = Inl (UB f)"
  using plic_write_overflow [of plic_init "0x200" 7 4] by (simp add: plic_init_inv)

text \<open>Whatever the guest does to the controller's registers, its arrays keep their sizes.\<close>

theorem plic_accesses_keep:
  "succeeds (\<lambda>(vs, p). plic_inv p) (run_accesses plic_read plic_write xs plic_init)"
  by (rule plic.run_keeps) (rule plic_init_inv)

end
