(* ===== verification/Clint.thy ===== *)
theory Clint
  imports Interrupt
begin

text \<open>
  \<open>clint.c\<close>: the core-local interruptor.  The two pending flags are file-level variables of the
  source and are kept with the device here.  \<open>clint_routine\<close> is one pass of the timer
  thread's loop: blocked while no timer runs, it reads the clock, and either keeps waiting or
  raises the timer interrupt and stops the timer.
\<close>

record clint_t =
  timer_running :: bool
  mtimecmp :: u64
  software_intr :: bool
  timer_intr :: bool

abbreviation (input) CLINT_MSIP :: u64 where "CLINT_MSIP \<equiv> 0x0000"
abbreviation (input) CLINT_MTIMECMP :: u64 where "CLINT_MTIMECMP \<equiv> 0x4000"

definition clint_interrupt :: "clint_t \<Rightarrow> intr_type_t" where
  "clint_interrupt c =
    (if timer_intr c then TIMER_INTR_TYPE
     else if software_intr c then SOFTWARE_INTR_TYPE
     else INTR_TYPE_NONE)"

definition clint_read :: "clint_t \<Rightarrow> u64 \<Rightarrow> u64 \<Rightarrow> (u64 \<times> clint_t) result" where
  "clint_read c addr sz = Inl (Panic ''clint_read'')"

definition clint_write ::
  "clint_t \<Rightarrow> u64 \<Rightarrow> u64 \<Rightarrow> u64 \<Rightarrow> 'a host_scheme \<Rightarrow> (u64 \<times> clint_t \<times> 'a host_scheme) result" where
  "clint_write c addr data sz h =
    (if addr = CLINT_MSIP then Inr (0, c\<lparr>software_intr := (data \<noteq> 0)\<rparr>, h)
     else if addr = CLINT_MTIMECMP then
       (let c = c\<lparr>timer_intr := False, mtimecmp := data\<rparr>;
            (now, h) = cpu_read_rtc h in
        if mtimecmp c < now then Inr (0, c\<lparr>timer_intr := True\<rparr>, h)
        else Inr (0, c\<lparr>timer_running := True\<rparr>, h))
     else Inl (Panic ''clint_write''))"

definition clint_routine :: "clint_t \<Rightarrow> 'a host_scheme \<Rightarrow> clint_t \<times> 'a host_scheme" where
  "clint_routine c h =
    (if timer_running c then
       (let (now, h) = cpu_read_rtc h in
        if now < mtimecmp c then (c, h)
        else (c\<lparr>timer_intr := True, timer_running := False\<rparr>, h))
     else (c, h))"

definition clint_init :: clint_t where
  "clint_init = \<lparr>timer_running = False, mtimecmp = 0, software_intr = False, timer_intr = False\<rparr>"

end
