(* ===== verification/Trap.thy ===== *)
theory Trap
  imports Operation Plic Clint
begin

text \<open>
  \<open>trap.h\<close> and \<open>trap.c\<close>: entering a trap at the level that handles it, returning from one, and
  the interrupt check at the top of the main loop.  Each reads and writes the registers
  through \<open>csr_read\<close> and \<open>csr_update\<close> in the order of the source; the \<open>has_except\<close> results
  are not looked at there.
\<close>

definition trap_enter ::
  "u64 \<Rightarrow> u32 \<Rightarrow> u64 \<Rightarrow> u64 \<Rightarrow> 'a csr_t_scheme \<Rightarrow> (u64 \<times> 'a csr_t_scheme) result" where
  "trap_enter pc next_priv cause tval s =
    (if next_priv = S_MODE then
       let mode_bit = (if priv s = U_MODE then 0 else 1) in
       and_then (csr_read SSTATUS s) (\<lambda>(sstatus, _, s).
       let sstatus = SET_BIT sstatus BIT_SPP_POS mode_bit;
           s = switch_to S_MODE s in
       and_then (csr_update SCAUSE cause CSR_OP_WRITE s) (\<lambda>(_, _, s).
       and_then (csr_update STVAL tval CSR_OP_WRITE s) (\<lambda>(_, _, s).
       let sstatus = SET_BIT sstatus BIT_SPIE_POS (BIT sstatus BIT_SIE_POS);
           sstatus = SET_BIT sstatus BIT_SIE_POS 0 in
       and_then (csr_update SSTATUS sstatus CSR_OP_WRITE s) (\<lambda>(_, _, s).
       and_then (csr_update SEPC pc CSR_OP_WRITE s) (\<lambda>(_, _, s).
       and_then (csr_read STVEC s) (\<lambda>(ret, _, s). Inr (ret, s)))))))
     else
       and_then (csr_read MSTATUS s) (\<lambda>(mstatus, _, s).
       let mstatus = SET_BITS mstatus 12 11 (ucast (priv s));
           s = switch_to M_MODE s in
       and_then (csr_update MCAUSE cause CSR_OP_WRITE s) (\<lambda>(_, _, s).
       and_then (csr_update MTVAL tval CSR_OP_WRITE s) (\<lambda>(_, _, s).
       let mstatus = SET_BIT mstatus BIT_MPIE_POS (BIT mstatus BIT_MIE_POS);
           mstatus = SET_BIT mstatus BIT_MIE_POS 0 in
       and_then (csr_update MSTATUS mstatus CSR_OP_WRITE s) (\<lambda>(_, _, s).
       and_then (csr_update MEPC pc CSR_OP_WRITE s) (\<lambda>(_, _, s).
       and_then (csr_read MTVEC s) (\<lambda>(ret, _, s). Inr (ret, s))))))))"

definition trap_exit :: "op_t \<Rightarrow> 'a csr_t_scheme \<Rightarrow> (u64 \<times> 'a csr_t_scheme) result" where
  "trap_exit op s =
    (if op = SRET then
       and_then (csr_read SSTATUS s) (\<lambda>(sstatus, _, s).
       let s = switch_to (if BIT sstatus BIT_SPP_POS \<noteq> 0 then S_MODE else U_MODE) s;
           sstatus = SET_BIT sstatus BIT_SIE_POS (BIT sstatus BIT_SPIE_POS) in
       and_then (csr_update SSTATUS sstatus CSR_OP_WRITE s) (\<lambda>(_, _, s).
       and_then (csr_read SEPC s) (\<lambda>(ret, _, s). Inr (ret, s))))
     else if op = MRET then
       and_then (csr_read MSTATUS s) (\<lambda>(mstatus, _, s).
       let s = switch_to (ucast (BITS mstatus 12 11)) s;
           mstatus = SET_BIT mstatus BIT_MIE_POS (BIT mstatus BIT_MPIE_POS) in
       and_then (csr_update MSTATUS mstatus CSR_OP_WRITE s) (\<lambda>(_, _, s).
       and_then (csr_read MEPC s) (\<lambda>(ret, _, s). Inr (ret, s))))
     else Inl (Panic ''trap_exit''))"

text \<open>Shifting \<open>1U\<close> by 32 or more is undefined; the causes of the source are below 16.\<close>

definition except_bit_flag :: "u64 \<Rightarrow> u32 result" where
  "except_bit_flag cause =
    (if cause < 32 then Inr (push_bit (unat cause) 1) else Inl (UB ''except_bit_flag''))"

definition except_next_priv ::
  "u64 \<Rightarrow> u32 \<Rightarrow> 'a csr_t_scheme \<Rightarrow> (u32 \<times> 'a csr_t_scheme) result" where
  "except_next_priv cause lvl s =
    (if lvl \<noteq> M_MODE then
       and_then (csr_read MEDELEG s) (\<lambda>(medeleg, _, s).
       and_then (except_bit_flag cause) (\<lambda>except_bit.
         Inr (if medeleg AND ucast except_bit \<noteq> 0 then S_MODE else M_MODE, s)))
     else Inr (M_MODE, s))"

definition raise_except ::
  "u64 \<Rightarrow> u64 \<Rightarrow> u64 \<Rightarrow> 'a csr_t_scheme \<Rightarrow> (u64 \<times> 'a csr_t_scheme) result" where
  "raise_except pc cause tval s =
    and_then (except_next_priv cause (priv s) s) (\<lambda>(next_priv, s).
      trap_enter pc next_priv cause tval s)"

definition handle_interrupt ::
  "u64 \<Rightarrow> plic_t \<Rightarrow> clint_t \<Rightarrow> 'a csr_t_scheme \<Rightarrow> (u64 \<times> plic_t \<times> 'a csr_t_scheme) result" where
  "handle_interrupt pc p c s =
    and_then (plic_interrupt p s) (\<lambda>(eid, p, s).
    let type = (if eid \<noteq> 0 then EXTERNAL_INTR_TYPE else clint_interrupt c) in
    if type = INTR_TYPE_NONE then Inr (0, p, s)
    else
      and_then (intr_next_priv type (priv s) s) (\<lambda>(next_priv, s).
      if next_priv = S_MODE then
        and_then (csr_read SSTATUS s) (\<lambda>(sstatus, _, s).
        if sstatus AND BIT_SIE \<noteq> 0 then
          and_then (csr_read SIE s) (\<lambda>(sie, _, s).
          and_then (intr_bit_flag type S_MODE) (\<lambda>irq_bit.
          if sie AND ucast irq_bit \<noteq> 0 then
            and_then (csr_update SIP (ucast irq_bit) CSR_OP_SET s) (\<lambda>(_, _, s).
            and_then (intr_cause type next_priv) (\<lambda>cause.
            and_then (trap_enter pc next_priv cause 0 s) (\<lambda>(ret_pc, s). Inr (ret_pc, p, s))))
          else Inr (0, p, s)))
        else Inr (0, p, s))
      else
        and_then (csr_read MSTATUS s) (\<lambda>(mstatus, _, s).
        if mstatus AND BIT_MIE \<noteq> 0 then
          and_then (csr_read MIE s) (\<lambda>(mie, _, s).
          and_then (intr_bit_flag type M_MODE) (\<lambda>irq_bit.
          if mie AND ucast irq_bit \<noteq> 0 then
            and_then (csr_update MIP (ucast irq_bit) CSR_OP_SET s) (\<lambda>(_, _, s).
            and_then (intr_cause type next_priv) (\<lambda>cause.
            and_then (trap_enter pc next_priv cause 0 s) (\<lambda>(ret_pc, s). Inr (ret_pc, p, s))))
          else Inr (0, p, s)))
        else Inr (0, p, s))))"

section \<open>The effect of trap entry and exit\<close>

text \<open>The status words the trap code writes, as functions of the old word.\<close>

definition sstatus_enter :: "u32 \<Rightarrow> u64 \<Rightarrow> u64" where
  "sstatus_enter lvl w =
    (let w = SET_BIT w BIT_SPP_POS (if lvl = U_MODE then 0 else 1);
         w = SET_BIT w BIT_SPIE_POS (BIT w BIT_SIE_POS)
     in SET_BIT w BIT_SIE_POS 0)"

definition mstatus_enter :: "u32 \<Rightarrow> u64 \<Rightarrow> u64" where
  "mstatus_enter lvl w =
    (let w = SET_BITS w 12 11 (ucast lvl);
         w = SET_BIT w BIT_MPIE_POS (BIT w BIT_MIE_POS)
     in SET_BIT w BIT_MIE_POS 0)"

lemma trap_enter_S:
  "trap_enter pc S_MODE cause tval s =
     Inr (csrs s STVEC,
       s\<lparr>cur_priv := S_MODE,
         csrs := (csrs s)(SCAUSE := cause, STVAL := tval,
           SSTATUS := sstatus_enter (cur_priv s) (csrs s SSTATUS), SEPC := pc)\<rparr>)"
  by (simp add: trap_enter_def Let_def sstatus_enter_def switch_to_def priv_def)

lemma trap_enter_M:
  "np \<noteq> S_MODE \<Longrightarrow>
   trap_enter pc np cause tval s =
     Inr (csrs s MTVEC,
       s\<lparr>cur_priv := M_MODE,
         csrs := (csrs s)(MCAUSE := cause, MTVAL := tval,
           MSTATUS := mstatus_enter (cur_priv s) (csrs s MSTATUS), MEPC := pc)\<rparr>)"
  by (simp add: trap_enter_def Let_def mstatus_enter_def switch_to_def priv_def)

lemma trap_exit_S:
  "trap_exit SRET s =
     Inr (csrs s SEPC,
       s\<lparr>cur_priv := (if bit (csrs s SSTATUS) BIT_SPP_POS then S_MODE else U_MODE),
         csrs := (csrs s)(SSTATUS := SET_BIT (csrs s SSTATUS) BIT_SIE_POS
           (BIT (csrs s SSTATUS) BIT_SPIE_POS))\<rparr>)"
  by (simp add: trap_exit_def Let_def switch_to_def BIT_eq)

lemma trap_exit_M:
  "trap_exit MRET s =
     Inr (csrs s MEPC,
       s\<lparr>cur_priv := ucast (BITS (csrs s MSTATUS) 12 11),
         csrs := (csrs s)(MSTATUS := SET_BIT (csrs s MSTATUS) BIT_MIE_POS
           (BIT (csrs s MSTATUS) BIT_MPIE_POS))\<rparr>)"
  by (simp add: trap_exit_def Let_def switch_to_def)

lemma bit_sstatus_enter:
  "bit (sstatus_enter lvl w) n \<longleftrightarrow>
     (if n = BIT_SPP_POS then lvl \<noteq> U_MODE
      else if n = BIT_SPIE_POS then bit w BIT_SIE_POS
      else if n = BIT_SIE_POS then False
      else bit w n)"
  by (auto simp: sstatus_enter_def Let_def word_bits bit_simps dest: bit_imp_le_length)

lemma bit_mstatus_enter:
  assumes "lvl < 4"
  shows "bit (mstatus_enter lvl w) n \<longleftrightarrow>
     (if n = 11 then bit lvl 0
      else if n = 12 then bit lvl 1
      else if n = BIT_MPIE_POS then bit w BIT_MIE_POS
      else if n = BIT_MIE_POS then False
      else bit w n)"
proof -
  have lvl: "m < 2" if "bit lvl m" for m
    using assms that by (intro bit_less_exp [of lvl 2]) simp_all
  consider "n = 11" | "n = 12" | "n < 11" | "12 < n"
    by linarith
  then show ?thesis
  proof cases
    case 4
    then have "\<not> bit lvl (n - 11)"
      using lvl [of "n - 11"] by auto
    with 4 show ?thesis
      by (auto simp: mstatus_enter_def Let_def word_bits bit_simps dest: bit_imp_le_length)
  qed (auto simp: mstatus_enter_def Let_def word_bits bit_simps)
qed

section \<open>What trap handling can change\<close>

text \<open>\<open>trap_change s s'\<close>: only the privilege level and the CSRs differ, and the level is valid.\<close>

definition trap_change :: "'a csr_t_scheme \<Rightarrow> 'a csr_t_scheme \<Rightarrow> bool" where
  "trap_change s s' \<longleftrightarrow>
     s' = s\<lparr>cur_priv := cur_priv s', csrs := csrs s'\<rparr> \<and> (cur_priv s' = cur_priv s \<or> cur_priv s' < 4)"

lemma trap_change_refl [simp]: "trap_change s s"
  by (simp add: trap_change_def)

lemma trap_changeI: "p = cur_priv s \<or> p < 4 \<Longrightarrow> trap_change s (s\<lparr>cur_priv := p, csrs := f\<rparr>)"
  by (simp add: trap_change_def)

lemma trap_change_csrs [simp]: "trap_change s (s\<lparr>csrs := f\<rparr>)"
  by (simp add: trap_change_def)

lemma trap_change_trans:
  assumes "trap_change s s'" "trap_change s' s''"
  shows "trap_change s s''"
proof -
  have "s'\<lparr>cur_priv := p, csrs := f\<rparr> = s\<lparr>cur_priv := p, csrs := f\<rparr>" for p f
    by (subst assms(1) [unfolded trap_change_def, THEN conjunct1]) simp
  with assms show ?thesis
    unfolding trap_change_def by metis
qed

lemma trap_enter_change: "trap_enter pc np cause tval s = Inr (r, s') \<Longrightarrow> trap_change s s'"
  by (cases "np = S_MODE") (auto simp: trap_enter_S trap_enter_M intro!: trap_changeI)

lemma except_next_priv_state: "except_next_priv cause lvl s = Inr (p, s') \<Longrightarrow> s' = s \<and> (p = S_MODE \<or> p = M_MODE)"
  by (auto simp: except_next_priv_def and_then_eq_Inr split: if_splits)

lemma raise_except_change: "raise_except pc cause tval s = Inr (r, s') \<Longrightarrow> trap_change s s'"
  by (auto simp: raise_except_def and_then_eq_Inr dest!: except_next_priv_state trap_enter_change)

lemma BITS_12_11_less: "ucast (BITS (w::u64) 12 11) < (4::u32)"
proof -
  have "unat (BITS w 12 11) < 2 ^ (12 - 11 + 1)"
    by (rule unat_BITS_less) simp
  then show ?thesis
    by (simp add: word_less_nat_alt unsigned_ucast_eq take_bit_nat_eq_self)
qed

lemma trap_exit_change: "trap_exit op s = Inr (r, s') \<Longrightarrow> trap_change s s'"
proof -
  assume *: "trap_exit op s = Inr (r, s')"
  then consider "op = SRET" | "op = MRET"
    by (auto simp: trap_exit_def split: if_splits)
  then show ?thesis
    using * by cases (auto simp: trap_exit_S trap_exit_M BITS_12_11_less intro!: trap_changeI)
qed

lemma handle_interrupt_change:
  assumes "handle_interrupt pc p c s = Inr (r, p', s')"
  shows "trap_change s s' \<and> (\<exists>irq s1. plic_interrupt p s = Inr (irq, p', s1))"
proof -
  from assms obtain irq p1 s1 where irq: "plic_interrupt p s = Inr (irq, p1, s1)"
    by (auto simp: handle_interrupt_def and_then_eq_Inr)
  then have s1: "s1 = s"
    by (cases rule: plic_interrupt_shape)
  have enter: "trap_change s s2" if "trap_enter pc np cause 0 (s\<lparr>csrs := f\<rparr>) = Inr (r2, s2)" for np cause f r2 s2
    using trap_enter_change [OF that] trap_change_trans [OF trap_change_csrs] by blast
  show ?thesis
    using assms irq s1
    by (auto simp: handle_interrupt_def and_then_eq_Inr Let_def split: if_splits
        dest!: intr_next_priv_target intro: enter)
qed

section \<open>Properties\<close>

text \<open>Entering a trap at supervisor level: \<open>SEPC\<close>, \<open>SCAUSE\<close> and \<open>STVAL\<close> take the arguments, \<open>SPP\<close>
  says whether the old level was above user, \<open>SPIE\<close> takes the old \<open>SIE\<close>, \<open>SIE\<close> is cleared, every other
  bit of \<open>SSTATUS\<close> and every other register stays, and control goes to \<open>STVEC\<close>.\<close>

theorem trap_enter_supervisor:
  "\<exists>s'. trap_enter pc S_MODE cause tval s = Inr (csrs s STVEC, s') \<and>
     priv s' = S_MODE \<and> csrs s' SEPC = pc \<and> csrs s' SCAUSE = cause \<and> csrs s' STVAL = tval \<and>
     (\<forall>n. bit (csrs s' SSTATUS) n \<longleftrightarrow>
       (if n = BIT_SPP_POS then priv s \<noteq> U_MODE
        else if n = BIT_SPIE_POS then bit (csrs s SSTATUS) BIT_SIE_POS
        else if n = BIT_SIE_POS then False
        else bit (csrs s SSTATUS) n)) \<and>
     (\<forall>a. a \<notin> {SEPC, SCAUSE, STVAL, SSTATUS} \<longrightarrow> csrs s' a = csrs s a)"
  by (simp add: trap_enter_S priv_def bit_sstatus_enter)

theorem trap_enter_supervisor_witness:
  "\<exists>s'. trap_enter 0x1000 S_MODE 8 0 (demo_csr U_MODE) = Inr (0x80200000, s') \<and>
     csrs s' SEPC = 0x1000 \<and> csrs s' MTVEC = 0x80000100"
  using trap_enter_supervisor [where s = "demo_csr U_MODE" and pc = "0x1000" and cause = "8" and tval = "0"]
  by (auto simp: demo_csr_def)

text \<open>Entering a trap at machine level: \<open>MEPC\<close>, \<open>MCAUSE\<close> and \<open>MTVAL\<close> take the arguments, \<open>MPP\<close> the
  old level, \<open>MPIE\<close> the old \<open>MIE\<close>, \<open>MIE\<close> is cleared, every other bit of \<open>MSTATUS\<close> and every other
  register stays, and control goes to \<open>MTVEC\<close>.\<close>

theorem trap_enter_machine:
  assumes "priv s < 4" "np \<noteq> S_MODE"
  shows "\<exists>s'. trap_enter pc np cause tval s = Inr (csrs s MTVEC, s') \<and>
     priv s' = M_MODE \<and> csrs s' MEPC = pc \<and> csrs s' MCAUSE = cause \<and> csrs s' MTVAL = tval \<and>
     (\<forall>n. bit (csrs s' MSTATUS) n \<longleftrightarrow>
       (if n = 11 then bit (priv s) 0
        else if n = 12 then bit (priv s) 1
        else if n = BIT_MPIE_POS then bit (csrs s MSTATUS) BIT_MIE_POS
        else if n = BIT_MIE_POS then False
        else bit (csrs s MSTATUS) n)) \<and>
     (\<forall>a. a \<notin> {MEPC, MCAUSE, MTVAL, MSTATUS} \<longrightarrow> csrs s' a = csrs s a)"
  using assms by (simp add: trap_enter_M priv_def bit_mstatus_enter)

theorem trap_enter_machine_witness:
  "\<exists>s'. trap_enter 0x80000004 M_MODE 2 0 (demo_csr S_MODE) = Inr (0x80000100, s') \<and>
     priv s' = M_MODE \<and> csrs s' MEPC = 0x80000004 \<and> csrs s' MCAUSE = 2"
  using trap_enter_machine [where s = "demo_csr S_MODE" and np = M_MODE and pc = "0x80000004" and cause = "2" and tval = "0"]
  by (auto simp: demo_csr_def priv_def)

lemma trap_return_S:
  assumes "priv s \<le> S_MODE"
  shows "\<exists>s1 s2. trap_enter pc S_MODE cause tval s = Inr (csrs s STVEC, s1) \<and>
     trap_exit SRET s1 = Inr (pc, s2) \<and> priv s2 = priv s \<and>
     bit (csrs s2 SSTATUS) BIT_SIE_POS = bit (csrs s SSTATUS) BIT_SIE_POS"
proof -
  have "priv s = U_MODE \<or> priv s = S_MODE"
    using assms by (auto simp: unat_arith_simps)
  then show ?thesis
    by (auto simp: trap_enter_S trap_exit_S priv_def bit_sstatus_enter word_bits)
qed

lemma trap_return_M:
  assumes "priv s < 4"
  shows "\<exists>s1 s2. trap_enter pc M_MODE cause tval s = Inr (csrs s MTVEC, s1) \<and>
     trap_exit MRET s1 = Inr (pc, s2) \<and> priv s2 = priv s \<and>
     bit (csrs s2 MSTATUS) BIT_MIE_POS = bit (csrs s MSTATUS) BIT_MIE_POS"
proof -
  have "ucast (BITS (mstatus_enter (cur_priv s) w) 12 11) = cur_priv s" for w
  proof (rule bit_word_eqI)
    fix n
    assume "n < LENGTH(32)"
    moreover have "\<not> bit (cur_priv s) n" if "2 \<le> n"
      using bit_less_exp [of "cur_priv s" 2 n] assms that by (auto simp: priv_def)
    ultimately show "bit (ucast (BITS (mstatus_enter (cur_priv s) w) 12 11) :: u32) n \<longleftrightarrow> bit (cur_priv s) n"
      using assms by (cases "n = 0"; cases "n = 1") (auto simp: priv_def bit_simps word_bits bit_mstatus_enter)
  qed
  with assms show ?thesis
    by (simp add: trap_enter_M trap_exit_M priv_def word_bits bit_mstatus_enter)
qed

text \<open>C11.  Returning from a trap undoes entering it: the same program counter and level, and the
  same global interrupt enable; \<open>MRET\<close> from whatever level the trap came, \<open>SRET\<close> from the two
  that can trap to supervisor level.\<close>

theorem trap_return:
  assumes "priv s < 4"
  shows "(\<exists>s1 s2. trap_enter pc M_MODE cause tval s = Inr (csrs s MTVEC, s1) \<and>
      trap_exit MRET s1 = Inr (pc, s2) \<and> priv s2 = priv s \<and>
      bit (csrs s2 MSTATUS) BIT_MIE_POS = bit (csrs s MSTATUS) BIT_MIE_POS) \<and>
    (priv s \<le> S_MODE \<longrightarrow>
      (\<exists>s1 s2. trap_enter pc S_MODE cause tval s = Inr (csrs s STVEC, s1) \<and>
        trap_exit SRET s1 = Inr (pc, s2) \<and> priv s2 = priv s \<and>
        bit (csrs s2 SSTATUS) BIT_SIE_POS = bit (csrs s SSTATUS) BIT_SIE_POS))"
  using trap_return_M [OF assms] trap_return_S by blast

theorem trap_return_witness:
  "\<exists>s1 s2. trap_enter 0x1000 M_MODE 9 0 (demo_csr S_MODE) = Inr (0x80000100, s1) \<and>
     trap_exit MRET s1 = Inr (0x1000, s2) \<and> priv s2 = S_MODE"
  using trap_return [where s = "demo_csr S_MODE" and pc = "0x1000" and cause = "9" and tval = "0"]
  by (auto simp: demo_csr_def priv_def)

lemma raise_except_target:
  assumes "cause < 32"
  shows "raise_except pc cause tval s =
    trap_enter pc (if priv s \<noteq> M_MODE \<and> bit (csrs s MEDELEG) (unat cause) then S_MODE else M_MODE)
      cause tval s"
proof -
  have n: "unat cause < 32"
    using assms by (simp add: word_less_nat_alt)
  have "ucast (push_bit (unat cause) (1::u32)) = push_bit (unat cause) (1::u64)"
    using n by (intro bit_word_eqI) (auto simp: bit_simps)
  then have "csrs s MEDELEG AND ucast (push_bit (unat cause) (1::u32)) \<noteq> 0 \<longleftrightarrow> bit (csrs s MEDELEG) (unat cause)"
    by (simp only: bit_iff_and_push_bit_not_eq_0)
  with assms show ?thesis
    by (simp add: raise_except_def except_next_priv_def except_bit_flag_def)
qed

text \<open>C12.  A trap raised below machine level goes to supervisor level if the bit of \<open>medeleg\<close> for its
  cause is set; every other trap, and every trap raised at machine level, goes to machine level.\<close>

theorem delegation:
  assumes "cause < 32"
  shows "raise_except pc cause tval s =
    trap_enter pc (if priv s \<noteq> M_MODE \<and> bit (csrs s MEDELEG) (unat cause) then S_MODE else M_MODE)
      cause tval s"
  using raise_except_target [OF assms] .

theorem delegation_witness:
  "raise_except 0x1000 12 0 (demo_csr U_MODE) = trap_enter 0x1000 M_MODE 12 0 (demo_csr U_MODE)"
  using delegation [where s = "demo_csr U_MODE" and cause = "12" and pc = "0x1000" and tval = "0"]
  by (simp add: demo_csr_def priv_def)

text \<open>The privileged specification numbers the interrupts: supervisor software, timer and external
  are 1, 5 and 9, machine ones 3, 7 and 11.  One may be taken when its level's global enable and
  its own enable bit are set; below machine mode \<open>mideleg\<close> says which level that is.\<close>

definition intr_pos :: "intr_type_t \<Rightarrow> u32 \<Rightarrow> nat" where
  "intr_pos type lvl = unat lvl + (case type of TIMER_INTR_TYPE \<Rightarrow> 4 | EXTERNAL_INTR_TYPE \<Rightarrow> 8 | _ \<Rightarrow> 0)"

definition intr_enabled :: "intr_type_t \<Rightarrow> u32 \<Rightarrow> 'a csr_t_scheme \<Rightarrow> bool" where
  "intr_enabled type lvl s \<longleftrightarrow>
     (if lvl = S_MODE
      then priv s \<noteq> M_MODE \<and> bit (csrs s MIDELEG) (intr_pos type S_MODE) \<and>
        bit (csrs s SSTATUS) BIT_SIE_POS \<and> bit (csrs s SIE) (intr_pos type S_MODE)
      else (priv s = M_MODE \<or> \<not> bit (csrs s MIDELEG) (intr_pos type S_MODE)) \<and>
        bit (csrs s MSTATUS) BIT_MIE_POS \<and> bit (csrs s MIE) (intr_pos type M_MODE))"

lemma and_flag:
  "(w AND 2 = 0) = (\<not> bit (w::u64) (Suc 0))" "(w AND 8 = 0) = (\<not> bit w 3)"
  "(w AND 0x20 = 0) = (\<not> bit w 5)" "(w AND 0x80 = 0) = (\<not> bit w 7)"
  "(w AND 0x200 = 0) = (\<not> bit w 9)" "(w AND 0x800 = 0) = (\<not> bit w 11)"
  by (simp_all add: bit_iff_and_push_bit_not_eq_0)

lemma intr_flag:
  assumes "type \<noteq> INTR_TYPE_NONE" "lvl = S_MODE \<or> lvl = M_MODE"
  obtains b where "intr_bit_flag type lvl = Inr b"
    "\<And>w::u64. (w AND ucast b = 0) = (\<not> bit w (intr_pos type lvl))"
  using assms by (cases type) (auto simp: intr_pos_def and_flag)

lemma interrupts_off:
  assumes "priv s = M_MODE" "\<not> bit (csrs s MSTATUS) BIT_MIE_POS" "plic_interrupt p s = Inr (eid, p', s)"
  shows "handle_interrupt pc p c s = Inr (0, p', s)"
  using assms by (simp add: handle_interrupt_def Let_def intr_next_priv_M and_flag)

text \<open>The interrupt check, in one equation for each outcome.\<close>

definition intr_target :: "intr_type_t \<Rightarrow> 'a csr_t_scheme \<Rightarrow> u32" where
  "intr_target type s = (if priv s \<noteq> M_MODE \<and> bit (csrs s MIDELEG) (intr_pos type S_MODE) then S_MODE else M_MODE)"

definition intr_on :: "intr_type_t \<Rightarrow> u32 \<Rightarrow> 'a csr_t_scheme \<Rightarrow> bool" where
  "intr_on type lvl s \<longleftrightarrow>
     (if lvl = S_MODE then bit (csrs s SSTATUS) BIT_SIE_POS \<and> bit (csrs s SIE) (intr_pos type lvl)
      else bit (csrs s MSTATUS) BIT_MIE_POS \<and> bit (csrs s MIE) (intr_pos type lvl))"

lemma handle_interrupt_eq:
  assumes run: "plic_interrupt p s = Inr (eid, p', s)"
    and type: "type = (if eid \<noteq> 0 then EXTERNAL_INTR_TYPE else clint_interrupt c)"
  defines "lvl \<equiv> intr_target type s"
  defines "x \<equiv> (if lvl = S_MODE then SIP else MIP)"
  shows "type = INTR_TYPE_NONE \<Longrightarrow> handle_interrupt pc p c s = Inr (0, p', s)"
    and "type \<noteq> INTR_TYPE_NONE \<Longrightarrow> \<not> intr_on type lvl s \<Longrightarrow> handle_interrupt pc p c s = Inr (0, p', s)"
    and "type \<noteq> INTR_TYPE_NONE \<Longrightarrow> intr_on type lvl s \<Longrightarrow>
      \<exists>v. handle_interrupt pc p c s =
        and_then (trap_enter pc lvl (BIT_CAUSE_INTR + of_nat (intr_pos type lvl)) 0 (s\<lparr>csrs := (csrs s)(x := v)\<rparr>))
          (\<lambda>(r, s). Inr (r, p', s))"
proof -
  note steps = handle_interrupt_def run type [symmetric]
  show "type = INTR_TYPE_NONE \<Longrightarrow> handle_interrupt pc p c s = Inr (0, p', s)"
    by (simp add: steps Let_def)
  assume t: "type \<noteq> INTR_TYPE_NONE"
  obtain bS where bS: "intr_bit_flag type S_MODE = Inr bS"
    "\<And>w::u64. (w AND ucast bS = 0) = (\<not> bit w (intr_pos type S_MODE))"
    using intr_flag [OF t, of S_MODE] by auto
  obtain bM where bM: "intr_bit_flag type M_MODE = Inr bM"
    "\<And>w::u64. (w AND ucast bM = 0) = (\<not> bit w (intr_pos type M_MODE))"
    using intr_flag [OF t, of M_MODE] by auto
  have cause: "intr_cause type S_MODE = Inr (BIT_CAUSE_INTR + of_nat (intr_pos type S_MODE))"
    "intr_cause type M_MODE = Inr (BIT_CAUSE_INTR + of_nat (intr_pos type M_MODE))"
    using t by (cases type; simp add: intr_pos_def)+
  have next_priv: "intr_next_priv type (priv s) s = Inr (lvl, s)"
    by (simp add: intr_next_priv_def bS lvl_def intr_target_def)
  note steps = steps t next_priv and_flag bS bM intr_on_def
  have lvl: "lvl = S_MODE \<or> lvl = M_MODE"
    by (simp add: lvl_def intr_target_def)
  then show "\<not> intr_on type lvl s \<Longrightarrow> handle_interrupt pc p c s = Inr (0, p', s)"
    by (elim disjE) (auto simp: steps Let_def)
  from lvl show "intr_on type lvl s \<Longrightarrow> \<exists>v. handle_interrupt pc p c s =
        and_then (trap_enter pc lvl (BIT_CAUSE_INTR + of_nat (intr_pos type lvl)) 0 (s\<lparr>csrs := (csrs s)(x := v)\<rparr>))
          (\<lambda>(r, s). Inr (r, p', s))"
    by (elim disjE) (auto simp: steps cause Let_def x_def)
qed



end
