(* ===== verification/Uart.thy ===== *)
theory Uart
  imports Plic
begin

text \<open>
  \<open>uart.c\<close>: the serial port.  Its operations signal the interrupt controller, so they take and
  return its state too.  Two fields stand for what is outside the C structure: \<open>uart_out\<close> is
  what \<open>putchar\<close> has written to standard output, and \<open>uart_alive\<close> says whether the receiving
  thread still runs (it ends when it reads CTRL-C).
\<close>

abbreviation (input) UART_RBR :: u64 where "UART_RBR \<equiv> 0"
abbreviation (input) UART_THR :: u64 where "UART_THR \<equiv> 0"
abbreviation (input) UART_IER :: u64 where "UART_IER \<equiv> 1"
abbreviation (input) UART_IIR :: u64 where "UART_IIR \<equiv> 2"
abbreviation (input) UART_LCR :: u64 where "UART_LCR \<equiv> 3"
abbreviation (input) UART_MCR :: u64 where "UART_MCR \<equiv> 4"
abbreviation (input) UART_LSR :: u64 where "UART_LSR \<equiv> 5"
abbreviation (input) UART_MSR :: u64 where "UART_MSR \<equiv> 6"
abbreviation (input) UART_SCR :: u64 where "UART_SCR \<equiv> 7"

abbreviation (input) UART_LSR_TEMT :: u8 where "UART_LSR_TEMT \<equiv> 0x40"
abbreviation (input) UART_LSR_THRE :: u8 where "UART_LSR_THRE \<equiv> 0x20"
abbreviation (input) UART_LSR_BI :: u8 where "UART_LSR_BI \<equiv> 0x10"
abbreviation (input) UART_LSR_DR :: u8 where "UART_LSR_DR \<equiv> 0x01"

abbreviation (input) UART_LCR_DLAB :: u8 where "UART_LCR_DLAB \<equiv> 0x80"

abbreviation (input) UART_IER_MSI :: u8 where "UART_IER_MSI \<equiv> 0x08"
abbreviation (input) UART_IER_RLSI :: u8 where "UART_IER_RLSI \<equiv> 0x04"
abbreviation (input) UART_IER_THRI :: u8 where "UART_IER_THRI \<equiv> 0x02"
abbreviation (input) UART_IER_RDI :: u8 where "UART_IER_RDI \<equiv> 0x01"

abbreviation (input) UART_IIR_MSI :: u8 where "UART_IIR_MSI \<equiv> 0x00"
abbreviation (input) UART_IIR_THRI :: u8 where "UART_IIR_THRI \<equiv> 0x02"
abbreviation (input) UART_IIR_RDI :: u8 where "UART_IIR_RDI \<equiv> 0x04"
abbreviation (input) UART_IIR_RLSI :: u8 where "UART_IIR_RLSI \<equiv> 0x06"
abbreviation (input) UART_IIR_NO_INT :: u8 where "UART_IIR_NO_INT \<equiv> 0x01"
abbreviation (input) UART_IIR_ID :: u8 where "UART_IIR_ID \<equiv> 0x06"

record uart_t =
  uart_irq_num :: u32
  uart_rbr :: u8
  uart_ier :: u8
  uart_iir :: u8
  uart_lcr :: u8
  uart_mcr :: u8
  uart_lsr :: u8
  uart_msr :: u8
  uart_scr :: u8
  uart_divider :: u16
  uart_thr_pending :: bool
  uart_out :: "u8 list"
  uart_alive :: bool

section \<open>Registers\<close>

definition uart_signal :: "uart_t \<Rightarrow> plic_t \<Rightarrow> (uart_t \<times> plic_t) result" where
  "uart_signal u p =
    (if uart_iir u \<noteq> UART_IIR_NO_INT
     then and_then (plic_signal (uart_irq_num u) p) (\<lambda>p. Inr (u, p))
     else Inr (u, p))"

definition uart_read ::
  "uart_t \<Rightarrow> plic_t \<Rightarrow> u64 \<Rightarrow> u64 \<Rightarrow> (u64 \<times> uart_t \<times> plic_t) result" where
  "uart_read u p addr sz =
    (if addr = UART_RBR then
       let u = u\<lparr>uart_lsr := uart_lsr u AND NOT (UART_LSR_DR OR UART_LSR_BI)\<rparr>;
           u = u\<lparr>uart_iir := (if uart_ier u AND UART_IER_THRI \<noteq> 0 then UART_IIR_THRI
                              else UART_IIR_NO_INT)\<rparr>
       in and_then (uart_signal u p) (\<lambda>(u, p). Inr (ucast (uart_rbr u), u, p))
     else if addr = UART_IER then Inr (ucast (uart_ier u), u, p)
     else if addr = UART_IIR then
       let ret = uart_iir u in
       if ret AND UART_IIR_ID = UART_IIR_THRI
       then Inr (ucast ret, u\<lparr>uart_thr_pending := False, uart_iir := UART_IIR_NO_INT\<rparr>, p)
       else Inr (ucast ret, u, p)
     else if addr = UART_LCR then Inr (ucast (uart_lcr u), u, p)
     else if addr = UART_LSR then Inr (ucast (uart_lsr u), u, p)
     else if addr = UART_MSR then Inr (ucast (uart_msr u), u, p)
     else if addr = UART_SCR then Inr (ucast (uart_scr u), u, p)
     else Inl (Panic ''uart_read''))"

text \<open>The interrupt the new value of \<open>ier\<close> gives, in the order of the source's tests.\<close>

definition uart_ier_iir :: "uart_t \<Rightarrow> u8" where
  "uart_ier_iir u =
    (if uart_ier u AND UART_IER_RLSI \<noteq> 0 then UART_IIR_RLSI
     else if uart_ier u AND UART_IER_RDI \<noteq> 0 \<and> uart_lsr u AND UART_LSR_DR \<noteq> 0 then UART_IIR_RDI
     else if uart_ier u AND UART_IER_THRI \<noteq> 0 \<and> uart_thr_pending u then UART_IIR_THRI
     else if uart_ier u AND UART_IER_MSI \<noteq> 0 then UART_IIR_MSI
     else UART_IIR_NO_INT)"

definition uart_write ::
  "uart_t \<Rightarrow> plic_t \<Rightarrow> u64 \<Rightarrow> u64 \<Rightarrow> u64 \<Rightarrow> (u64 \<times> uart_t \<times> plic_t) result" where
  "uart_write u p addr data sz =
    (if sz \<noteq> 1 then Inl (Panic ''uart_write'')
     else if addr = UART_THR then
       (if uart_lcr u AND UART_LCR_DLAB \<noteq> 0
        then Inr (0, u\<lparr>uart_divider := (uart_divider u AND 0xFF00) OR ucast (data AND 0xFF)\<rparr>, p)
        else Inr (0, u\<lparr>uart_thr_pending := False, uart_out := uart_out u @ [ucast data]\<rparr>, p))
     else if addr = UART_IER then
       (if uart_lcr u AND UART_LCR_DLAB \<noteq> 0
        then Inr (0, u\<lparr>uart_divider := ucast (push_bit 8 (data AND 0xFF)) OR
                        (uart_divider u AND 0x00FF)\<rparr>, p)
        else
          let changed = ((ucast (uart_ier u) XOR data) AND 0x0f \<noteq> 0);
              u = u\<lparr>uart_ier := ucast data\<rparr> in
          if changed then
            let u = (if uart_ier u AND UART_IER_THRI \<noteq> 0 then u\<lparr>uart_thr_pending := True\<rparr> else u);
                u = u\<lparr>uart_iir := uart_ier_iir u\<rparr>
            in and_then (uart_signal u p) (\<lambda>(u, p). Inr (0, u, p))
          else Inr (0, u, p))
     else if addr = UART_IIR then Inr (0, u\<lparr>uart_iir := ucast data\<rparr>, p)
     else if addr = UART_LCR then Inr (0, u\<lparr>uart_lcr := ucast data\<rparr>, p)
     else if addr = UART_MCR then Inr (0, u\<lparr>uart_mcr := ucast data\<rparr>, p)
     else if addr = UART_MSR then Inr (0, u\<lparr>uart_msr := ucast data\<rparr>, p)
     else if addr = UART_SCR then Inr (0, u\<lparr>uart_scr := ucast data\<rparr>, p)
     else Inl (Panic ''uart_write''))"

section \<open>The receiver\<close>

text \<open>One pass of the receiving thread's loop, with the byte \<open>getch\<close> returns.\<close>

definition uart_routine :: "u8 \<Rightarrow> uart_t \<Rightarrow> plic_t \<Rightarrow> (uart_t \<times> plic_t) result" where
  "uart_routine ch u p =
    (if \<not> uart_alive u then Inr (u, p)
     else
       let u = u\<lparr>uart_rbr := ch\<rparr> in
       if uart_rbr u = 3 then Inr (u\<lparr>uart_alive := False\<rparr>, p)
       else
         let u = u\<lparr>uart_lsr := uart_lsr u OR UART_LSR_DR\<rparr> in
         if uart_ier u AND UART_IER_RDI \<noteq> 0 then
           and_then (plic_signal (uart_irq_num u) p) (\<lambda>p. Inr (u\<lparr>uart_iir := UART_IIR_RDI\<rparr>, p))
         else Inr (u, p))"

definition uart_init :: "u32 \<Rightarrow> uart_t" where
  "uart_init irq_num =
     \<lparr>uart_irq_num = irq_num, uart_rbr = 0, uart_ier = 0, uart_iir = 0, uart_lcr = 0,
      uart_mcr = 0, uart_lsr = UART_LSR_THRE OR UART_LSR_TEMT, uart_msr = 0, uart_scr = 0,
      uart_divider = 0, uart_thr_pending = False, uart_out = [], uart_alive = True\<rparr>"

section \<open>The invariant of the port and the controller\<close>

definition uart_inv :: "uart_t \<times> plic_t \<Rightarrow> bool" where
  "uart_inv s \<longleftrightarrow> uart_irq_num (fst s) = 10 \<and> plic_inv (snd s)"

lemma uart_signal_keeps [keeps]:
  "uart_inv (u, p) \<Longrightarrow> succeeds uart_inv (uart_signal u p)"
  by (auto simp: uart_signal_def uart_inv_def intro!: succeeds_mono [OF plic_signal_keeps])

lemma uart_read_keeps [keeps]:
  "uart_inv (u, p) \<Longrightarrow> succeeds (\<lambda>(v, s'). uart_inv s') (uart_read u p addr sz)"
  by (auto simp: uart_read_def Let_def uart_inv_def [of "(_, _)"]
      intro!: succeeds_mono [OF uart_signal_keeps])

lemma uart_write_keeps [keeps]:
  "uart_inv (u, p) \<Longrightarrow> succeeds (\<lambda>(v, s'). uart_inv s') (uart_write u p addr data sz)"
  by (auto simp: uart_write_def Let_def uart_inv_def [of "(_, _)"]
      intro!: succeeds_mono [OF uart_signal_keeps])

lemma uart_routine_keeps [keeps]:
  "uart_inv (u, p) \<Longrightarrow> succeeds uart_inv (uart_routine ch u p)"
  by (auto simp: uart_routine_def Let_def uart_inv_def intro!: succeeds_mono [OF plic_signal_keeps])

interpretation uart: bus_device uart_inv
  "\<lambda>(u, p) addr sz. uart_read u p addr sz"
  "\<lambda>(u, p) addr data sz. uart_write u p addr data sz"
  by unfold_locales (auto intro: keeps)

end
