(* ===== verification/Rtc.thy ===== *)
theory Rtc
  imports Util
begin

text \<open>\<open>rtc.c\<close>: the real-time clock.  A read of the low word latches the high word.\<close>

record rtc_t =
  rtc_time_high :: u32
  rtc_alarm_next :: u64
  rtc_alarm_running :: u32

definition rtc_read ::
  "rtc_t \<Rightarrow> u64 \<Rightarrow> u64 \<Rightarrow> 'a host_scheme \<Rightarrow> (u64 \<times> rtc_t \<times> 'a host_scheme) result" where
  "rtc_read r addr sz h =
    (if addr = 0x00 then
       (let (dword, h) = get_clock_realtime h
        in Inr (dword AND 0xFFFFFFFF, r\<lparr>rtc_time_high := ucast (drop_bit 32 dword)\<rparr>, h))
     else if addr = 0x04 then Inr (ucast (rtc_time_high r), r, h)
     else if addr = 0x08 then Inr (rtc_alarm_next r AND 0xFFFFFFFF, r, h)
     else if addr = 0x0c then Inr (drop_bit 32 (rtc_alarm_next r), r, h)
     else if addr = 0x18 then Inr (ucast (rtc_alarm_running r), r, h)
     else Inl (Panic ''rtc_read''))"

definition rtc_write :: "rtc_t \<Rightarrow> u64 \<Rightarrow> u64 \<Rightarrow> u64 \<Rightarrow> (u64 \<times> rtc_t) result" where
  "rtc_write r addr data sz = Inl (Panic ''rtc_write'')"

definition rtc_init :: rtc_t where
  "rtc_init = \<lparr>rtc_time_high = 0, rtc_alarm_next = 0, rtc_alarm_running = 0\<rparr>"

text \<open>The latched word completes the time of the last low read.\<close>

lemma rtc_high_after_low:
  assumes "rtc_read r 0x00 sz h = Inr (lo, r', h')"
    and "rtc_read r' 0x04 sz' h' = Inr (hi, r'', h'')"
  shows "push_bit 32 hi OR lo = fst (get_clock_realtime h)"
proof (rule bit_word_eqI)
  fix n
  assume n: "n < LENGTH(64)"
  have mask: "(0xFFFFFFFF :: u64) = mask 32"
    by (simp add: mask_eq_exp_minus_1)
  have "lo = fst (get_clock_realtime h) AND 0xFFFFFFFF"
    "hi = ucast (ucast (drop_bit 32 (fst (get_clock_realtime h))) :: u32)"
    using assms by (auto simp: rtc_read_def split_def Let_def)
  with n show "bit (push_bit 32 hi OR lo) n \<longleftrightarrow> bit (fst (get_clock_realtime h)) n"
    unfolding mask by (auto simp: bit_simps)
qed

end
