(* ===== verification/PciHost.thy ===== *)
theory PciHost
  imports Prelude
begin

text \<open>
  \<open>pci_host.c\<close> (with the offsets of \<open>pci.h\<close>): the configuration space of the PCI host bridge;
  and \<open>fw_cfg.c\<close>, whose register operations all panic and which \<open>main\<close> does not register.
\<close>

abbreviation (input) PCI_VENDOR_ID :: u64 where "PCI_VENDOR_ID \<equiv> 0x00"
abbreviation (input) PCI_DEVICE_ID :: u64 where "PCI_DEVICE_ID \<equiv> 0x02"
abbreviation (input) PCI_COMMAND :: u64 where "PCI_COMMAND \<equiv> 0x04"
abbreviation (input) PCI_STATUS :: u64 where "PCI_STATUS \<equiv> 0x06"
abbreviation (input) PCI_CLASS_REVISION :: u64 where "PCI_CLASS_REVISION \<equiv> 0x08"
abbreviation (input) PCI_CLASS_DEVICE :: u64 where "PCI_CLASS_DEVICE \<equiv> 0x0a"
abbreviation (input) PCI_HEADER_TYPE :: u64 where "PCI_HEADER_TYPE \<equiv> 0x0e"
abbreviation (input) PCI_SUBSYSTEM_VENDOR_ID :: u64 where "PCI_SUBSYSTEM_VENDOR_ID \<equiv> 0x2c"
abbreviation (input) PCI_SUBSYSTEM_ID :: u64 where "PCI_SUBSYSTEM_ID \<equiv> 0x2e"
abbreviation (input) PCI_ROM_ADDRESS :: u64 where "PCI_ROM_ADDRESS \<equiv> 0x30"
abbreviation (input) PCI_INTERRUPT_PIN :: u64 where "PCI_INTERRUPT_PIN \<equiv> 0x3d"

text \<open>\<open>PCI_BASE_ADDRESS_0\<close> to \<open>PCI_BASE_ADDRESS_5\<close>.\<close>

definition pci_base_address :: "u64 \<Rightarrow> bool" where
  "pci_base_address addr \<longleftrightarrow> addr \<in> {0x10, 0x14, 0x18, 0x1c, 0x20, 0x24}"

record pci_host_t =
  pci_command :: u16
  pci_status :: u16
  pci_class_id :: u16

definition pci_host_read :: "pci_host_t \<Rightarrow> u64 \<Rightarrow> u64 \<Rightarrow> u64 result" where
  "pci_host_read pci addr sz =
    (if 256 \<le> addr then Inr (- 1)
     else if addr = PCI_VENDOR_ID then
       Inr (if sz = 4 then 0x1b36 OR push_bit 16 0x0008 else 0x1b36)
     else if addr = PCI_DEVICE_ID then Inr 0x0008
     else if addr = PCI_COMMAND then Inr (ucast (pci_command pci))
     else if addr = PCI_STATUS then Inr (ucast (pci_status pci))
     else if addr = PCI_CLASS_REVISION then
       Inr (if sz = 4 then 0 OR push_bit 16 0x0600 else 0)
     else if addr = PCI_CLASS_DEVICE then Inr 0x0600
     else if addr = PCI_HEADER_TYPE then Inr 0
     else if pci_base_address addr then Inr 0
     else if addr = PCI_SUBSYSTEM_VENDOR_ID then Inr 0x1af4
     else if addr = PCI_SUBSYSTEM_ID then Inr 0x1100
     else if addr = PCI_ROM_ADDRESS then Inr 0
     else if addr = PCI_INTERRUPT_PIN then Inr 0
     else Inl (Panic ''pci_host_read''))"

definition pci_host_write :: "pci_host_t \<Rightarrow> u64 \<Rightarrow> u64 \<Rightarrow> u64 \<Rightarrow> (u64 \<times> pci_host_t) result" where
  "pci_host_write pci addr data sz =
    (if addr = PCI_COMMAND then Inr (0, pci\<lparr>pci_command := ucast data\<rparr>)
     else if pci_base_address addr then Inr (0, pci)
     else if addr = PCI_ROM_ADDRESS then Inr (0, pci)
     else Inl (Panic ''pci_host_write''))"

definition pci_host_init :: pci_host_t where
  "pci_host_init = \<lparr>pci_command = 0, pci_status = 0, pci_class_id = 0\<rparr>"

definition fw_cfg_read :: "u64 \<Rightarrow> u64 \<Rightarrow> u64 result" where
  "fw_cfg_read addr sz = Inl (Panic ''fw_cfg_read'')"

definition fw_cfg_write :: "u64 \<Rightarrow> u64 \<Rightarrow> u64 \<Rightarrow> u64 result" where
  "fw_cfg_write addr data sz = Inl (Panic ''fw_cfg_write'')"

end
