(* ===== verification/Bytes.thy ===== *)
theory Bytes
  imports Prelude
begin

text \<open>
  Memory as bytes.  The devices of the emulator that hold memory access it with \<open>memcpy\<close> or
  through pointers to 1, 2, 4 and 8-byte integers; on the little-endian host the program
  runs on, both are the functions below.  The locale \<open>byte_memory\<close> states what a component
  that behaves as memory promises to its users; RAM, flash and the bus seen through the RAM
  window are shown to keep it in the theories that define them.
\<close>

fun load_le :: "(u64 \<Rightarrow> u8) \<Rightarrow> u64 \<Rightarrow> nat \<Rightarrow> u64" where
  "load_le mem a 0 = 0"
| "load_le mem a (Suc n) = ucast (mem a) OR push_bit 8 (load_le mem (a + 1) n)"

fun store_le :: "(u64 \<Rightarrow> u8) \<Rightarrow> u64 \<Rightarrow> u64 \<Rightarrow> nat \<Rightarrow> (u64 \<Rightarrow> u8)" where
  "store_le mem a v 0 = mem"
| "store_le mem a v (Suc n) = (store_le mem (a + 1) (drop_bit 8 v) n)(a := ucast v)"

text \<open>\<open>sz\<close> is one of the access sizes of the bus.\<close>

definition access_size :: "u64 \<Rightarrow> bool" where
  "access_size sz \<longleftrightarrow> sz = 1 \<or> sz = 2 \<or> sz = 4 \<or> sz = 8"

lemma access_size_unat: "access_size sz \<Longrightarrow> unat sz \<in> {1, 2, 4, 8}"
  by (auto simp: access_size_def)

lemma access_size_le_8: "access_size sz \<Longrightarrow> unat sz \<le> 8"
  using access_size_unat by fastforce

text \<open>\<open>memcpy\<close> and \<open>fread\<close> of a whole buffer.\<close>

definition store_bytes :: "(u64 \<Rightarrow> u8) \<Rightarrow> u64 \<Rightarrow> u8 list \<Rightarrow> (u64 \<Rightarrow> u8)" where
  "store_bytes mem a bs = (\<lambda>b. if unat (b - a) < length bs then bs ! unat (b - a) else mem b)"

section \<open>Which bytes are read and written\<close>

lemma bit_load_le:
  "bit (load_le mem a n) k \<longleftrightarrow>
     k < 64 \<and> k < 8 * n \<and> bit (mem (a + of_nat (k div 8))) (k mod 8)"
proof (induction n arbitrary: a k)
  case 0
  then show ?case by simp
next
  case (Suc n)
  show ?case
  proof (cases "k < 8")
    case True
    then show ?thesis by (simp add: bit_simps)
  next
    case False
    then obtain j where k: "k = j + 8"
      by (metis add.commute le_Suc_ex not_less)
    have "\<not> bit (mem a) k"
      using False by (auto dest: bit_imp_le_length)
    then show ?thesis
      by (auto simp: k bit_simps Suc.IH add.assoc div_add_self2)
  qed
qed

lemma store_le_outside:
  "(\<And>i. i < n \<Longrightarrow> b \<noteq> a + of_nat i) \<Longrightarrow> store_le mem a v n b = mem b"
proof (induction n arbitrary: a v)
  case 0
  then show ?case by simp
next
  case (Suc n)
  have "b \<noteq> a"
    using Suc.prems [of 0] by simp
  moreover have "store_le mem (a + 1) (drop_bit 8 v) n b = mem b"
  proof (rule Suc.IH)
    fix i
    assume "i < n"
    then show "b \<noteq> a + 1 + of_nat i"
      using Suc.prems [of "Suc i"] by (simp add: add.assoc)
  qed
  ultimately show ?case by simp
qed

lemma store_le_inside:
  "i < n \<Longrightarrow> n \<le> 2 ^ 32 \<Longrightarrow>
   store_le mem a v n (a + of_nat i) = ucast (drop_bit (8 * i) v)"
proof (induction n arbitrary: a v i)
  case 0
  then show ?case by simp
next
  case (Suc n)
  show ?case
  proof (cases i)
    case 0
    then show ?thesis by simp
  next
    case (Suc j)
    with Suc.prems have j: "Suc j < 2 ^ 64" "j < n" "n \<le> 2 ^ 32"
      by simp_all
    have "a + of_nat (Suc j) \<noteq> a"
    proof
      assume "a + of_nat (Suc j) = a"
      then have "unat (of_nat (Suc j) :: u64) = 0"
        by simp
      with j show False
        by (simp add: unat_of_nat take_bit_nat_eq_self del: of_nat_Suc)
    qed
    then show ?thesis
      using Suc.IH [of j "a + 1" "drop_bit 8 v"] j \<open>i = Suc j\<close>
      by (simp add: add.assoc drop_bit_drop_bit add.commute [of 8])
  qed
qed

lemma load_store_le:
  assumes "n \<le> 8"
  shows "load_le (store_le mem a v n) a n = take_bit (8 * n) v"
proof (rule bit_word_eqI)
  fix k
  assume k: "k < LENGTH(64)"
  show "bit (load_le (store_le mem a v n) a n) k \<longleftrightarrow> bit (take_bit (8 * n) v) k"
  proof (cases "k < 8 * n")
    case True
    then have "k div 8 < n" by simp
    with assms have "store_le mem a v n (a + of_nat (k div 8)) = ucast (drop_bit (8 * (k div 8)) v)"
      by (intro store_le_inside) simp_all
    with True k show ?thesis
      by (simp add: bit_load_le bit_simps)
  qed (simp add: bit_load_le bit_simps)
qed

lemma load_le_cong:
  "(\<And>i. i < n \<Longrightarrow> mem (a + of_nat i) = mem' (a + of_nat i)) \<Longrightarrow> load_le mem a n = load_le mem' a n"
  by (rule bit_word_eqI) (auto simp: bit_load_le)

text \<open>The two accesses share no byte.\<close>

definition disjoint_access :: "u64 \<Rightarrow> nat \<Rightarrow> u64 \<Rightarrow> nat \<Rightarrow> bool" where
  "disjoint_access a n b m \<longleftrightarrow> (\<forall>i<n. \<forall>j<m. a + of_nat i \<noteq> b + of_nat j)"

lemma load_store_le_disjoint:
  "disjoint_access a n b m \<Longrightarrow> load_le (store_le mem b v m) a n = load_le mem a n"
  by (intro load_le_cong store_le_outside) (auto simp: disjoint_access_def)

lemma store_le_shift:
  "(\<lambda>b. store_le mem (a - c) v n (b - c)) = store_le (\<lambda>b. mem (b - c)) a v n"
proof (induction n arbitrary: a v)
  case (Suc n)
  have "a - c + 1 = a + 1 - c"
    by simp
  then show ?case
    using Suc.IH [of "a + 1" "drop_bit 8 v"]
    by (simp only: store_le.simps) (auto simp: fun_eq_iff)
qed simp

lemma load_le_shift: "load_le (\<lambda>b. mem (b - c)) a n = load_le mem (a - c) n"
  by (rule bit_word_eqI) (simp add: bit_load_le algebra_simps)

section \<open>What memory promises\<close>

text \<open>
  \<open>ok m a sz\<close>: in state \<open>m\<close> the access is to memory.  A read returns the bytes, least
  significant first, and changes nothing; a write stores the low bytes of its operand
  there, changes no other byte, and keeps the same accesses allowed.
\<close>

locale byte_memory =
  fixes rd :: "'m \<Rightarrow> u64 \<Rightarrow> u64 \<Rightarrow> (u64 \<times> 'm) result"
    and wr :: "'m \<Rightarrow> u64 \<Rightarrow> u64 \<Rightarrow> u64 \<Rightarrow> (u64 \<times> 'm) result"
    and ok :: "'m \<Rightarrow> u64 \<Rightarrow> u64 \<Rightarrow> bool"
    and bytes :: "'m \<Rightarrow> u64 \<Rightarrow> u8"
  assumes ok_size: "ok m a sz \<Longrightarrow> unat sz \<le> 8"
    and rd_ok: "ok m a sz \<Longrightarrow> rd m a sz = Inr (load_le (bytes m) a (unat sz), m)"
    and wr_ok: "ok m a sz \<Longrightarrow>
      \<exists>r m'. wr m a v sz = Inr (r, m') \<and> bytes m' = store_le (bytes m) a v (unat sz) \<and>
        (\<forall>b t. ok m' b t = ok m b t)"
begin

lemma rd_after_wr:
  assumes "ok m a sz" "wr m a v sz = Inr (r, m')"
  shows "rd m' a sz = Inr (take_bit (8 * unat sz) v, m')"
proof -
  from wr_ok [OF assms(1), of v] assms(2)
  have m': "bytes m' = store_le (bytes m) a v (unat sz)" "\<forall>b t. ok m' b t = ok m b t"
    by auto
  then have "rd m' a sz = Inr (load_le (bytes m') a (unat sz), m')"
    using assms(1) by (intro rd_ok) simp
  then show ?thesis
    using ok_size [OF assms(1)] by (simp add: m'(1) load_store_le)
qed

lemma rd_after_other_wr:
  assumes "ok m a sz" "ok m b t" "disjoint_access a (unat sz) b (unat t)"
    and "wr m b v t = Inr (r, m')" "rd m a sz = Inr (w, m)"
  shows "rd m' a sz = Inr (w, m')"
proof -
  from wr_ok [OF assms(2), of v] assms(4)
  have m': "bytes m' = store_le (bytes m) b v (unat t)" "\<forall>b t. ok m' b t = ok m b t"
    by auto
  then have "rd m' a sz = Inr (load_le (bytes m') a (unat sz), m')"
    using assms(1) by (intro rd_ok) simp
  moreover have "w = load_le (bytes m) a (unat sz)"
    using rd_ok [OF assms(1)] assms(5) by simp
  ultimately show ?thesis
    using assms(3) by (simp add: m'(1) load_store_le_disjoint)
qed

lemma wr_succeeds: "ok m a sz \<Longrightarrow> \<exists>r m'. wr m a v sz = Inr (r, m')"
  using wr_ok [of m a sz v] by auto

end

end
