(* ===== verification/Ram.thy ===== *)
theory Ram
  imports Bytes
begin

text \<open>
  \<open>ram.c\<close>: main memory, and the kinds of access (\<open>params_t\<close> of \<open>address_space.h\<close>) that make a
  store an atomic read-modify-write.  An access past the end of the buffer is undefined
  behaviour: the source does not check.
\<close>

datatype params_t =
    PARAMS_NONE
  | PARAMS_LR_SC
  | PARAMS_AMO_MIN
  | PARAMS_AMO_MAX
  | PARAMS_AMO_MINU
  | PARAMS_AMO_MAXU
  | PARAMS_AMO_ADD
  | PARAMS_AMO_XOR
  | PARAMS_AMO_OR
  | PARAMS_AMO_AND
  | PARAMS_AMO_SWAP
  | PARAMS_LAST

abbreviation (input) RAM_ADDRESS_SPACE_START :: u64 where "RAM_ADDRESS_SPACE_START \<equiv> 0x80000000"
abbreviation (input) RAM_ADDRESS_SPACE_END :: u64 where "RAM_ADDRESS_SPACE_END \<equiv> 0xFFFFFFFF"

record ram_t =
  ram_mem :: "u64 \<Rightarrow> u8"
  ram_size :: u64

section \<open>Operations\<close>

definition ram_read :: "ram_t \<Rightarrow> u64 \<Rightarrow> u64 \<Rightarrow> u64 result" where
  "ram_read ram addr sz =
    (if unat sz \<le> 8 \<and> unat addr + unat sz \<le> unat (ram_size ram)
     then Inr (load_le (ram_mem ram) addr (unat sz))
     else Inl (UB ''ram_read''))"

definition amo32 :: "u32 \<Rightarrow> u32 \<Rightarrow> params_t \<Rightarrow> u32" where
  "amo32 orig data params = (case params of
      PARAMS_LR_SC \<Rightarrow> data
    | PARAMS_AMO_MIN \<Rightarrow> if data <s orig then data else orig
    | PARAMS_AMO_MAX \<Rightarrow> if orig <s data then data else orig
    | PARAMS_AMO_MINU \<Rightarrow> if data < orig then data else orig
    | PARAMS_AMO_MAXU \<Rightarrow> if orig < data then data else orig
    | PARAMS_AMO_ADD \<Rightarrow> orig + data
    | PARAMS_AMO_XOR \<Rightarrow> orig XOR data
    | PARAMS_AMO_OR \<Rightarrow> orig OR data
    | PARAMS_AMO_AND \<Rightarrow> orig AND data
    | PARAMS_AMO_SWAP \<Rightarrow> data
    | PARAMS_NONE \<Rightarrow> data
    | PARAMS_LAST \<Rightarrow> orig)"

definition amo64 :: "u64 \<Rightarrow> u64 \<Rightarrow> params_t \<Rightarrow> u64" where
  "amo64 orig data params = (case params of
      PARAMS_LR_SC \<Rightarrow> data
    | PARAMS_AMO_MIN \<Rightarrow> if data <s orig then data else orig
    | PARAMS_AMO_MAX \<Rightarrow> if orig <s data then data else orig
    | PARAMS_AMO_MINU \<Rightarrow> if data < orig then data else orig
    | PARAMS_AMO_MAXU \<Rightarrow> if orig < data then data else orig
    | PARAMS_AMO_ADD \<Rightarrow> orig + data
    | PARAMS_AMO_XOR \<Rightarrow> orig XOR data
    | PARAMS_AMO_OR \<Rightarrow> orig OR data
    | PARAMS_AMO_AND \<Rightarrow> orig AND data
    | PARAMS_AMO_SWAP \<Rightarrow> data
    | PARAMS_NONE \<Rightarrow> data
    | PARAMS_LAST \<Rightarrow> orig)"

definition ram_write :: "ram_t \<Rightarrow> u64 \<Rightarrow> u64 \<Rightarrow> u64 \<Rightarrow> params_t \<Rightarrow> (u64 \<times> ram_t) result" where
  "ram_write ram addr data sz params =
    and_then (if params \<noteq> PARAMS_LR_SC then ram_read ram addr sz else Inr 0) (\<lambda>ret.
      let data = (if sz = 8 then amo64 ret data params
                  else if sz = 4 then ucast (amo32 (ucast ret) (ucast data) params)
                  else data) in
      if unat sz \<le> 8 \<and> unat addr + unat sz \<le> unat (ram_size ram)
      then Inr (ret, ram\<lparr>ram_mem := store_le (ram_mem ram) addr data (unat sz)\<rparr>)
      else Inl (UB ''ram_write''))"

definition ram_init :: ram_t where
  "ram_init = \<lparr>ram_mem = (\<lambda>_. 0),
     ram_size = (RAM_ADDRESS_SPACE_END - RAM_ADDRESS_SPACE_START) + 1\<rparr>"

section \<open>RAM is memory\<close>

definition ram_ok :: "ram_t \<Rightarrow> u64 \<Rightarrow> u64 \<Rightarrow> bool" where
  "ram_ok ram addr sz \<longleftrightarrow> access_size sz \<and> unat addr + unat sz \<le> unat (ram_size ram)"

lemma ram_read_ok:
  "ram_ok ram addr sz \<Longrightarrow> ram_read ram addr sz = Inr (load_le (ram_mem ram) addr (unat sz))"
  by (simp add: ram_read_def ram_ok_def access_size_le_8)

lemma store_le_cong:
  "take_bit (8 * n) v = take_bit (8 * n) w \<Longrightarrow> store_le mem a v n = store_le mem a w n"
proof (induction n arbitrary: a v w)
  case (Suc n)
  have "take_bit (8 * n) (drop_bit 8 v) = take_bit (8 * n) (drop_bit 8 w)"
    using arg_cong [OF Suc.prems, of "drop_bit 8"]
    by (simp add: drop_bit_take_bit add.commute)
  then have "store_le mem (a + 1) (drop_bit 8 v) n = store_le mem (a + 1) (drop_bit 8 w) n"
    by (rule Suc.IH)
  moreover have "(ucast v :: u8) = ucast w"
  proof (rule bit_word_eqI)
    fix k
    assume "k < LENGTH(8)"
    then show "bit (ucast v :: u8) k \<longleftrightarrow> bit (ucast w :: u8) k"
      using arg_cong [OF Suc.prems, of "\<lambda>x. bit x k"] by (simp add: bit_simps)
  qed
  ultimately show ?case by simp
qed simp

text \<open>Every store that succeeds writes \<open>new\<close> over the old value, and returns the old one
  unless it is a store-conditional.\<close>

definition amo_new :: "u64 \<Rightarrow> u64 \<Rightarrow> u64 \<Rightarrow> params_t \<Rightarrow> u64" where
  "amo_new sz old data params =
    (if sz = 8 then amo64 old data params
     else if sz = 4 then ucast (amo32 (ucast old) (ucast data) params) else data)"

definition amo_old :: "ram_t \<Rightarrow> u64 \<Rightarrow> u64 \<Rightarrow> params_t \<Rightarrow> u64" where
  "amo_old ram addr sz params =
    (if params = PARAMS_LR_SC then 0 else load_le (ram_mem ram) addr (unat sz))"

lemma ram_write_ok:
  "ram_ok ram addr sz \<Longrightarrow>
   ram_write ram addr data sz params =
     Inr (amo_old ram addr sz params,
       ram\<lparr>ram_mem := store_le (ram_mem ram) addr
         (amo_new sz (amo_old ram addr sz params) data params) (unat sz)\<rparr>)"
  by (simp add: ram_write_def ram_read_ok ram_ok_def access_size_le_8 amo_new_def amo_old_def
      Let_def)

lemma amo_new_None:
  "access_size sz \<Longrightarrow>
   store_le mem a (amo_new sz old data PARAMS_NONE) (unat sz) = store_le mem a data (unat sz)"
  by (rule store_le_cong)
     (auto simp: access_size_def amo_new_def amo32_def amo64_def intro!: bit_word_eqI
       simp: bit_simps)

interpretation ram: byte_memory
  "\<lambda>ram addr sz. and_then (ram_read ram addr sz) (\<lambda>v. Inr (v, ram))"
  "\<lambda>ram addr data sz. ram_write ram addr data sz PARAMS_NONE"
  ram_ok ram_mem
  by unfold_locales
     (auto simp: ram_ok_def access_size_le_8 ram_read_ok ram_write_ok amo_new_None)

end
