(* ===== verification/Rom.thy ===== *)
theory Rom
  imports Bytes
begin

text \<open>
  \<open>rom.c\<close>: the boot ROM.  Files are placed one after the other at rising offsets, and the length
  of each is recorded in the 8 bytes before it.  A file of the host is its contents, or
  \<open>None\<close> when it cannot be opened.
\<close>

abbreviation (input) ROM_ADDRESS_SPACE_START :: u64 where "ROM_ADDRESS_SPACE_START \<equiv> 0x1000"
abbreviation (input) ROM_ADDRESS_SPACE_END :: u64 where "ROM_ADDRESS_SPACE_END \<equiv> 0xFFFFF"
abbreviation (input) ROM_ADDRESS_SPACE_SIZE :: u64 where
  "ROM_ADDRESS_SPACE_SIZE \<equiv> ROM_ADDRESS_SPACE_END - ROM_ADDRESS_SPACE_START + 1"

record rom_t =
  rom_mem :: "u64 \<Rightarrow> u8"
  rom_size :: u64

text \<open>The bytes \<open>[addr, addr + n)\<close> lie inside a buffer of \<open>size\<close> bytes.\<close>

definition in_buffer :: "u64 \<Rightarrow> nat \<Rightarrow> u64 \<Rightarrow> bool" where
  "in_buffer addr n bufsize \<longleftrightarrow> unat addr + n \<le> unat bufsize"

definition rom_ptr :: "rom_t \<Rightarrow> u64 \<Rightarrow> u64 \<Rightarrow> u64 result" where
  "rom_ptr rom addr sz =
    (if rom_size rom < addr + sz then Inl (Panic ''_rom_ptr'') else Inr addr)"

definition rom_read :: "rom_t \<Rightarrow> u64 \<Rightarrow> u64 \<Rightarrow> u64 result" where
  "rom_read rom addr sz =
    and_then (rom_ptr rom addr sz) (\<lambda>ptr.
      if sz = 8 \<or> sz = 4 \<or> sz = 2 \<or> sz = 1 then
        (if in_buffer ptr (unat sz) (rom_size rom)
         then Inr (load_le (rom_mem rom) ptr (unat sz))
         else Inl (UB ''rom_read''))
      else Inl (Panic ''rom_read''))"

definition rom_init :: rom_t where
  "rom_init = \<lparr>rom_mem = (\<lambda>_. 0), rom_size = 0\<rparr>"

definition rom_add_file :: "rom_t \<Rightarrow> u8 list option \<Rightarrow> u64 \<Rightarrow> rom_t result" where
  "rom_add_file rom file base =
    (case file of
       None \<Rightarrow> Inl (Panic ''rom_add_file'')
     | Some bs \<Rightarrow>
         if base < rom_size rom then Inl (Panic ''rom_add_file'')
         else
           let st_size = of_nat (length bs) :: u64;
               sz = ROUND_UP (base + st_size) 8 in
           if ROM_ADDRESS_SPACE_SIZE < sz then Inl (Panic ''rom_add_file'')
           else if \<not> in_buffer base (length bs) sz then Inl (UB ''rom_add_file'')
           else
             let ptr = (\<lambda>b. if b < rom_size rom then rom_mem rom b else 0);
                 ptr = store_bytes ptr base bs in
             if base = 0 then Inr \<lparr>rom_mem = ptr, rom_size = sz\<rparr>
             else if base < 8 then Inl (UB ''rom_add_file'')
             else Inr \<lparr>rom_mem = store_le ptr (base - 8) st_size 8, rom_size = sz\<rparr>)"

section \<open>Sizes\<close>

lemma rom_add_file_size:
  "succeeds (\<lambda>rom'. rom_size rom' \<le> ROM_ADDRESS_SPACE_SIZE) (rom_add_file rom file base)"
  by (auto simp: rom_add_file_def Let_def not_less split: option.split)

lemma rom_read_no_UB:
  assumes "rom_size rom \<le> ROM_ADDRESS_SPACE_SIZE" "addr \<le> ROM_ADDRESS_SPACE_END"
    and "rom_read rom addr sz = Inl e"
  shows "e \<noteq> UB s"
proof
  assume e: "e = UB s"
  then have sz: "unat sz \<le> 8" "\<not> rom_size rom < addr + sz"
    "\<not> in_buffer addr (unat sz) (rom_size rom)"
    using assms(3) by (auto simp: rom_read_def rom_ptr_def split: if_splits)
  have "unat addr \<le> 0xFFFFF"
    using assms(2) by (simp add: word_le_nat_alt)
  with sz(1) have "unat (addr + sz) = unat addr + unat sz"
    by (simp add: unat_word_ariths)
  with sz show False
    by (simp add: in_buffer_def word_less_nat_alt)
qed

end
