(* ===== verification/Flash.thy ===== *)
theory Flash
  imports Rom Util
begin

text \<open>
  \<open>flash.c\<close> and \<open>elf.h\<close>: the flash memory that holds the startup image and the kernel modules.
  The buffer grows with each file added; reads past its end return 0, writes there panic,
  and no access may cross a page.
\<close>

abbreviation (input) FLASH_HEAD_SIZE :: u64 where "FLASH_HEAD_SIZE \<equiv> 0x100"
abbreviation (input) FLASH_ADDRESS_SPACE_START :: u64 where "FLASH_ADDRESS_SPACE_START \<equiv> 0x20000000"
abbreviation (input) FLASH_ADDRESS_SPACE_END :: u64 where "FLASH_ADDRESS_SPACE_END \<equiv> 0x23FFFFFF"
abbreviation (input) FLASH_ADDRESS_SPACE_SIZE :: u64 where
  "FLASH_ADDRESS_SPACE_SIZE \<equiv> FLASH_ADDRESS_SPACE_END - FLASH_ADDRESS_SPACE_START + 1"

record flash_t =
  flash_mem :: "u64 \<Rightarrow> u8"
  flash_size :: u64

section \<open>Accesses\<close>

text \<open>The pointer the C function computes, as an offset; \<open>None\<close> is its \<open>NULL\<close>.\<close>

definition flash_ptr :: "flash_t \<Rightarrow> u64 \<Rightarrow> u64 \<Rightarrow> u64 option result" where
  "flash_ptr flash addr sz =
    (if FLASH_ADDRESS_SPACE_SIZE < addr + sz then Inl (Panic ''_flash_ptr'')
     else if flash_size flash < addr + sz then Inr None
     else Inr (Some addr))"

definition flash_read :: "flash_t \<Rightarrow> u64 \<Rightarrow> u64 \<Rightarrow> u64 result" where
  "flash_read flash addr sz =
    and_then (flash_ptr flash addr sz) (\<lambda>p. case p of
      None \<Rightarrow> Inr 0
    | Some ptr \<Rightarrow>
        if \<not> IN_SAME_PAGE addr sz then Inl (Panic ''flash_read'')
        else if sz = 8 \<or> sz = 4 \<or> sz = 2 \<or> sz = 1 then
          (if in_buffer ptr (unat sz) (flash_size flash)
           then Inr (load_le (flash_mem flash) ptr (unat sz))
           else Inl (UB ''flash_read''))
        else Inl (Panic ''flash_read''))"

definition flash_write :: "flash_t \<Rightarrow> u64 \<Rightarrow> u64 \<Rightarrow> u64 \<Rightarrow> (u64 \<times> flash_t) result" where
  "flash_write flash addr data sz =
    and_then (flash_ptr flash addr sz) (\<lambda>p. case p of
      None \<Rightarrow> Inl (Panic ''flash_write'')
    | Some ptr \<Rightarrow>
        if \<not> IN_SAME_PAGE addr sz then Inl (Panic ''flash_write'')
        else if sz = 8 \<or> sz = 4 \<or> sz = 2 \<or> sz = 1 then
          (if in_buffer ptr (unat sz) (flash_size flash)
           then Inr (load_le (flash_mem flash) ptr (unat sz),
                     flash\<lparr>flash_mem := store_le (flash_mem flash) ptr data (unat sz)\<rparr>)
           else Inl (UB ''flash_write''))
        else Inl (Panic ''flash_write''))"

definition flash_init :: flash_t where
  "flash_init = \<lparr>flash_mem = (\<lambda>_. 0), flash_size = FLASH_HEAD_SIZE\<rparr>"

section \<open>Adding files\<close>

definition ELFMAG :: "u8 list" where
  "ELFMAG = [0x7F, 0x45, 0x4C, 0x46]"

definition elf64_hdr_check :: "(u64 \<Rightarrow> u8) \<Rightarrow> u64 \<Rightarrow> bool" where
  "elf64_hdr_check mem ptr = (map (\<lambda>i. mem (ptr + of_nat i)) [0..<4] = ELFMAG)"

text \<open>\<open>e_phoff\<close> is at offset 32 of the header.\<close>

definition elf64_hdr_set_length :: "(u64 \<Rightarrow> u8) \<Rightarrow> u64 \<Rightarrow> u64 \<Rightarrow> (u64 \<Rightarrow> u8)" where
  "elf64_hdr_set_length mem ptr len = store_le mem (ptr + 32) len 8"

definition flash_add_file :: "flash_t \<Rightarrow> u8 list option \<Rightarrow> flash_t result" where
  "flash_add_file flash file =
    (case file of
       None \<Rightarrow> Inl (Panic ''flash_add_file'')
     | Some bs \<Rightarrow>
         let st_size = of_nat (length bs) :: u64;
             sz = ROUND_UP (flash_size flash + st_size) 8 in
         if FLASH_ADDRESS_SPACE_SIZE < sz then Inl (Panic ''flash_add_file'')
         else if \<not> in_buffer (flash_size flash) (max 4 (length bs)) sz
           then Inl (UB ''flash_add_file'')
         else
           let ptr = (\<lambda>b. if b < flash_size flash then flash_mem flash b else 0);
               ptr = store_bytes ptr (flash_size flash) bs in
           if elf64_hdr_check ptr (flash_size flash) then
             (if in_buffer (flash_size flash) 40 sz
              then Inr \<lparr>flash_mem = elf64_hdr_set_length ptr (flash_size flash) st_size,
                        flash_size = sz\<rparr>
              else Inl (UB ''flash_add_file''))
           else Inr \<lparr>flash_mem = ptr, flash_size = sz\<rparr>)"

text \<open>
  \<open>flash_load_modules\<close>: the startup image, then each module in the order in which
  \<open>sort_modules\<close> calls back (\<open>sort_func\<close>, which forms the file name and adds that file).
\<close>

fun flash_add_files :: "flash_t \<Rightarrow> u8 list option list \<Rightarrow> flash_t result" where
  "flash_add_files flash [] = Inr flash"
| "flash_add_files flash (f # fs) =
     and_then (flash_add_file flash f) (\<lambda>flash. flash_add_files flash fs)"

definition flash_load_modules :: "flash_t \<Rightarrow> u8 list option \<Rightarrow> u8 list option list \<Rightarrow> flash_t result" where
  "flash_load_modules flash startup mods =
     and_then (flash_add_file flash startup) (\<lambda>flash. flash_add_files flash mods)"

section \<open>Flash is memory\<close>

definition flash_ok :: "flash_t \<Rightarrow> u64 \<Rightarrow> u64 \<Rightarrow> bool" where
  "flash_ok flash addr sz \<longleftrightarrow>
     access_size sz \<and> unat addr + unat sz \<le> unat (flash_size flash) \<and>
     flash_size flash \<le> FLASH_ADDRESS_SPACE_SIZE \<and> IN_SAME_PAGE addr sz"

lemma flash_ptr_ok: "flash_ok flash addr sz \<Longrightarrow> flash_ptr flash addr sz = Inr (Some addr)"
proof -
  assume ok: "flash_ok flash addr sz"
  then have sum: "unat addr + unat sz \<le> unat (flash_size flash)"
    and size: "unat (flash_size flash) \<le> 0x4000000"
    by (auto simp: flash_ok_def word_le_nat_alt)
  then have "unat (addr + sz) = unat addr + unat sz"
    by (simp add: unat_word_ariths)
  with sum size show ?thesis
    by (simp add: flash_ptr_def word_less_nat_alt)
qed

lemma flash_read_ok:
  "flash_ok flash addr sz \<Longrightarrow>
   flash_read flash addr sz = Inr (load_le (flash_mem flash) addr (unat sz))"
  by (auto simp: flash_read_def flash_ptr_ok in_buffer_def) (auto simp: flash_ok_def access_size_def)

lemma flash_write_ok:
  "flash_ok flash addr sz \<Longrightarrow>
   flash_write flash addr data sz =
     Inr (load_le (flash_mem flash) addr (unat sz),
       flash\<lparr>flash_mem := store_le (flash_mem flash) addr data (unat sz)\<rparr>)"
  by (auto simp: flash_write_def flash_ptr_ok in_buffer_def) (auto simp: flash_ok_def access_size_def)

interpretation flash: byte_memory
  "\<lambda>flash addr sz. and_then (flash_read flash addr sz) (\<lambda>v. Inr (v, flash))"
  flash_write flash_ok flash_mem
proof unfold_locales
  fix m a sz
  assume ok: "flash_ok m a sz"
  then show "unat sz \<le> 8"
    by (simp add: flash_ok_def access_size_le_8)
  show "and_then (flash_read m a sz) (\<lambda>v. Inr (v, m)) =
      Inr (load_le (flash_mem m) a (unat sz), m)"
    using ok by (simp add: flash_read_ok)
  show "\<exists>r m'. flash_write m a v sz = Inr (r, m') \<and>
      flash_mem m' = store_le (flash_mem m) a v (unat sz) \<and> (\<forall>b t. flash_ok m' b t = flash_ok m b t)"
    for v
    using ok by (simp add: flash_write_ok) (simp add: flash_ok_def)
qed

lemma flash_add_file_size:
  "succeeds (\<lambda>flash'. flash_size flash' \<le> FLASH_ADDRESS_SPACE_SIZE) (flash_add_file flash file)"
  by (auto simp: flash_add_file_def Let_def not_less split: option.split)

lemma flash_write_size: "succeeds (\<lambda>(v, flash'). flash_size flash' = flash_size flash) (flash_write flash a d sz)"
  by (auto simp: flash_write_def split: option.split)

end
