(* ===== verification/AddressSpace.thy ===== *)
theory AddressSpace
  imports Ram
begin

text \<open>
  \<open>address_space.h\<close> and \<open>address_space.c\<close>: the tree of address ranges and the bus accesses that
  walk it.  A node's children hang on a singly linked list; here they are a list in the same
  order.  The function pointers \<open>read_op\<close> and \<open>write_op\<close> and the \<open>device\<close> pointer they are
  called with are one name for each device, resolved by the function the accesses take as
  argument.  \<open>NULL\<close>, which the source reads as the root, is the root itself here.  No
  \<open>read_op\<close> looks at its \<open>params\<close>, so reads do not carry it.
\<close>

datatype bus_op =
    as_dummy
  | rtc_op
  | pci_host_op
  | plic_op
  | clint_op
  | rom_op
  | flash_op
  | ram_op
  | uart_op
  | virtio_mmio_op nat

datatype address_space =
  AddressSpace (as_start: u64) (as_end: u64) (as_read_op: bus_op) (as_write_op: bus_op)
    (as_children: "address_space list")

definition init_address_space :: "u64 \<Rightarrow> u64 \<Rightarrow> address_space" where
  "init_address_space start_addr end_addr = AddressSpace start_addr end_addr as_dummy as_dummy []"

definition set_ops :: "bus_op \<Rightarrow> bus_op \<Rightarrow> address_space \<Rightarrow> address_space" where
  "set_ops r w a = AddressSpace (as_start a) (as_end a) r w (as_children a)"

definition register_address_space :: "address_space \<Rightarrow> address_space \<Rightarrow> address_space" where
  "register_address_space parent child =
     AddressSpace (as_start parent) (as_end parent) (as_read_op parent) (as_write_op parent)
       (child # as_children parent)"

definition ROOT_ADDRESS_SPACE_END :: u64 where
  "ROOT_ADDRESS_SPACE_END = 0x0000007FFFFFFFFF"

section \<open>Accesses\<close>

definition in_space :: "u64 \<Rightarrow> address_space \<Rightarrow> bool" where
  "in_space addr child \<longleftrightarrow> as_start child \<le> addr \<and> addr \<le> as_end child"

lemma find_child_size:
  "find P (as_children a) = Some c \<Longrightarrow> size c < size a"
proof -
  assume "find P (as_children a) = Some c"
  then have "c \<in> set (as_children a)"
    by (auto simp: find_Some_iff in_set_conv_nth)
  then have "size c \<le> size_list size (as_children a)"
    by (intro size_list_estimation') auto
  then show ?thesis by (cases a) simp
qed

function as_read_nommu ::
  "(bus_op \<Rightarrow> u64 \<Rightarrow> u64 \<Rightarrow> 'm \<Rightarrow> (u64 \<times> 'm) result) \<Rightarrow> address_space \<Rightarrow> u64 \<Rightarrow> u64 \<Rightarrow> 'm \<Rightarrow>
   (u64 \<times> 'm) result" where
  "as_read_nommu ops a addr sz m =
    (if \<not> (sz = 1 \<or> sz = 2 \<or> sz = 4 \<or> sz = 8) then Inl (Panic ''as_read_nommu'')
     else case find (in_space addr) (as_children a) of
       Some child \<Rightarrow> as_read_nommu ops child (addr - as_start child) sz m
     | None \<Rightarrow> ops (as_read_op a) addr sz m)"
  by pat_completeness auto
termination
  by (relation "measure (\<lambda>(ops, a, addr, sz, m). size a)") (auto dest: find_child_size)

function as_write_nommu ::
  "(bus_op \<Rightarrow> u64 \<Rightarrow> u64 \<Rightarrow> u64 \<Rightarrow> params_t \<Rightarrow> 'm \<Rightarrow> (u64 \<times> 'm) result) \<Rightarrow> address_space \<Rightarrow>
   u64 \<Rightarrow> u64 \<Rightarrow> u64 \<Rightarrow> params_t \<Rightarrow> 'm \<Rightarrow> (u64 \<times> 'm) result" where
  "as_write_nommu ops a addr sz data params m =
    (if \<not> (sz = 1 \<or> sz = 2 \<or> sz = 4 \<or> sz = 8) then Inl (Panic ''as_write_nommu'')
     else case find (in_space addr) (as_children a) of
       Some child \<Rightarrow> as_write_nommu ops child (addr - as_start child) sz data params m
     | None \<Rightarrow> ops (as_write_op a) addr data sz params m)"
  by pat_completeness auto
termination
  by (relation "measure (\<lambda>(ops, a, addr, sz, data, params, m). size a)")
     (auto dest: find_child_size)

declare as_read_nommu.simps [simp del] as_write_nommu.simps [simp del]

text \<open>What one walk reaches: the operations of the node, and the offset from its start.\<close>

function as_resolve :: "address_space \<Rightarrow> u64 \<Rightarrow> address_space \<times> u64" where
  "as_resolve a addr =
    (case find (in_space addr) (as_children a) of
       Some child \<Rightarrow> as_resolve child (addr - as_start child)
     | None \<Rightarrow> (a, addr))"
  by pat_completeness auto
termination
  by (relation "measure (\<lambda>(a, addr). size a)") (auto dest: find_child_size)

declare as_resolve.simps [simp del]

lemma as_read_nommu_resolve:
  "access_size sz \<Longrightarrow>
   as_read_nommu ops a addr sz m =
     (case as_resolve a addr of (leaf, off) \<Rightarrow> ops (as_read_op leaf) off sz m)"
proof (induction ops a addr sz m rule: as_read_nommu.induct)
  case (1 ops a addr sz m)
  then show ?case
    by (subst as_read_nommu.simps, subst as_resolve.simps)
       (auto simp: access_size_def split: option.split)
qed

lemma as_write_nommu_resolve:
  "access_size sz \<Longrightarrow>
   as_write_nommu ops a addr sz data params m =
     (case as_resolve a addr of (leaf, off) \<Rightarrow> ops (as_write_op leaf) off data sz params m)"
proof (induction ops a addr sz data params m rule: as_write_nommu.induct)
  case (1 ops a addr sz data params m)
  then show ?case
    by (subst as_write_nommu.simps, subst as_resolve.simps)
       (auto simp: access_size_def split: option.split)
qed

lemma as_read_nommu_bad_size:
  "\<not> access_size sz \<Longrightarrow> as_read_nommu ops a addr sz m = Inl (Panic ''as_read_nommu'')"
  by (subst as_read_nommu.simps) (simp add: access_size_def)

lemma as_write_nommu_bad_size:
  "\<not> access_size sz \<Longrightarrow>
   as_write_nommu ops a addr sz data params m = Inl (Panic ''as_write_nommu'')"
  by (subst as_write_nommu.simps) (simp add: access_size_def)

lemma succeeds_as_read_nommu:
  "(\<And>off. succeeds P (ops (as_read_op (fst (as_resolve a addr))) off sz m)) \<Longrightarrow>
   succeeds P (as_read_nommu ops a addr sz m)"
  by (cases "access_size sz")
     (simp_all add: as_read_nommu_resolve as_read_nommu_bad_size split_def)

lemma succeeds_as_write_nommu:
  "(\<And>off. succeeds P (ops (as_write_op (fst (as_resolve a addr))) off data sz params m)) \<Longrightarrow>
   succeeds P (as_write_nommu ops a addr sz data params m)"
  by (cases "access_size sz")
     (simp_all add: as_write_nommu_resolve as_write_nommu_bad_size split_def)

section \<open>Blocks of bytes\<close>

text \<open>
  \<open>as_read_blob\<close> and \<open>as_write_blob\<close> for any pair of bus accesses.  The first loop moves 8 bytes
  at a time, the second the rest one by one; each is entered with the remaining length.
\<close>

definition le_bytes :: "u64 \<Rightarrow> nat \<Rightarrow> u8 list" where
  "le_bytes v n = map (\<lambda>i. ucast (drop_bit (8 * i) v)) [0..<n]"

fun le_word :: "u8 list \<Rightarrow> u64" where
  "le_word [] = 0"
| "le_word (b # bs) = ucast b OR push_bit 8 (le_word bs)"

fun read_blob_bytes ::
  "('m \<Rightarrow> u64 \<Rightarrow> u64 \<Rightarrow> (u64 \<times> 'm) result) \<Rightarrow> u64 \<Rightarrow> nat \<Rightarrow> 'm \<Rightarrow> (u8 list \<times> 'm) result" where
  "read_blob_bytes rd addr 0 m = Inr ([], m)"
| "read_blob_bytes rd addr (Suc n) m =
     and_then (rd m addr 1) (\<lambda>(b, m).
     and_then (read_blob_bytes rd (addr + 1) n m) (\<lambda>(bs, m). Inr (ucast b # bs, m)))"

function read_blob_dwords ::
  "('m \<Rightarrow> u64 \<Rightarrow> u64 \<Rightarrow> (u64 \<times> 'm) result) \<Rightarrow> u64 \<Rightarrow> nat \<Rightarrow> 'm \<Rightarrow> (u8 list \<times> 'm) result" where
  "read_blob_dwords rd addr n m =
    (if 8 \<le> n then
       and_then (rd m addr 8) (\<lambda>(w, m).
       and_then (read_blob_dwords rd (addr + 8) (n - 8) m) (\<lambda>(bs, m). Inr (le_bytes w 8 @ bs, m)))
     else read_blob_bytes rd addr n m)"
  by pat_completeness auto
termination
  by (relation "measure (\<lambda>(rd, addr, n, m). n)") auto

definition as_read_blob ::
  "('m \<Rightarrow> u64 \<Rightarrow> u64 \<Rightarrow> (u64 \<times> 'm) result) \<Rightarrow> u64 \<Rightarrow> nat \<Rightarrow> 'm \<Rightarrow> (u8 list \<times> 'm) result" where
  "as_read_blob rd addr n m =
    (if addr mod 8 \<noteq> 0 then Inl (Panic ''as_read_blob'') else read_blob_dwords rd addr n m)"

fun write_blob_bytes ::
  "('m \<Rightarrow> u64 \<Rightarrow> u64 \<Rightarrow> u64 \<Rightarrow> (u64 \<times> 'm) result) \<Rightarrow> u64 \<Rightarrow> u8 list \<Rightarrow> 'm \<Rightarrow> 'm result" where
  "write_blob_bytes wr addr [] m = Inr m"
| "write_blob_bytes wr addr (b # bs) m =
     and_then (wr m addr (ucast b) 1) (\<lambda>(_, m). write_blob_bytes wr (addr + 1) bs m)"

function write_blob_dwords ::
  "('m \<Rightarrow> u64 \<Rightarrow> u64 \<Rightarrow> u64 \<Rightarrow> (u64 \<times> 'm) result) \<Rightarrow> u64 \<Rightarrow> u8 list \<Rightarrow> 'm \<Rightarrow> 'm result" where
  "write_blob_dwords wr addr bs m =
    (if 8 \<le> length bs then
       and_then (wr m addr (le_word (take 8 bs)) 8) (\<lambda>(_, m).
         write_blob_dwords wr (addr + 8) (drop 8 bs) m)
     else write_blob_bytes wr addr bs m)"
  by pat_completeness auto
termination
  by (relation "measure (\<lambda>(wr, addr, bs, m). length bs)") auto

definition as_write_blob ::
  "('m \<Rightarrow> u64 \<Rightarrow> u64 \<Rightarrow> u64 \<Rightarrow> (u64 \<times> 'm) result) \<Rightarrow> u64 \<Rightarrow> u8 list \<Rightarrow> 'm \<Rightarrow> 'm result" where
  "as_write_blob wr addr bs m =
    (if addr mod 8 \<noteq> 0 then Inl (Panic ''as_write_blob'') else write_blob_dwords wr addr bs m)"

declare read_blob_dwords.simps [simp del] write_blob_dwords.simps [simp del]

section \<open>A block written is the block read back\<close>

lemma bit_le_word:
  "bit (le_word bs) k \<longleftrightarrow> k < 64 \<and> k < 8 * length bs \<and> bit (bs ! (k div 8)) (k mod 8)"
proof (induction bs arbitrary: k)
  case (Cons b bs)
  show ?case
  proof (cases "k < 8")
    case True
    then show ?thesis by (simp add: bit_simps)
  next
    case False
    then obtain j where k: "k = j + 8"
      by (metis add.commute le_Suc_ex not_less)
    have "\<not> bit b k"
      using False by (auto dest: bit_imp_le_length)
    then show ?thesis
      by (auto simp: k bit_simps Cons.IH div_add_self2)
  qed
qed simp

lemma le_bytes_nth: "i < n \<Longrightarrow> le_bytes v n ! i = ucast (drop_bit (8 * i) v)"
  by (simp add: le_bytes_def)

lemma le_bytes_load_le:
  assumes "n \<le> 8"
  shows "le_bytes (load_le mem a n) n = map (\<lambda>i. mem (a + of_nat i)) [0..<n]"
proof (rule nth_equalityI)
  fix i
  assume "i < length (le_bytes (load_le mem a n) n)"
  then have i: "i < n" by (simp add: le_bytes_def)
  have "ucast (drop_bit (8 * i) (load_le mem a n)) = mem (a + of_nat i)"
  proof (rule bit_word_eqI)
    fix k
    assume "k < LENGTH(8)"
    with i assms have k: "k < 8" "8 * i + k < 64" "8 * i + k < 8 * n"
      by simp_all
    then show "bit (ucast (drop_bit (8 * i) (load_le mem a n)) :: u8) k \<longleftrightarrow> bit (mem (a + of_nat i)) k"
      by (simp add: bit_simps bit_load_le)
  qed
  with i show "le_bytes (load_le mem a n) n ! i = map (\<lambda>i. mem (a + of_nat i)) [0..<n] ! i"
    by (simp add: le_bytes_nth)
qed (simp add: le_bytes_def)

lemma store_le_le_word:
  assumes "length bs \<le> 8"
  shows "store_le mem a (le_word bs) (length bs) = store_bytes mem a bs"
proof
  fix b
  show "store_le mem a (le_word bs) (length bs) b = store_bytes mem a bs b"
  proof (cases "unat (b - a) < length bs")
    case True
    define i where "i = unat (b - a)"
    then have b: "b = a + of_nat i" and i: "i < length bs"
      using True by simp_all
    then have "store_le mem a (le_word bs) (length bs) b = ucast (drop_bit (8 * i) (le_word bs))"
      using assms by (simp add: store_le_inside)
    also have "\<dots> = bs ! i"
    proof (rule bit_word_eqI)
      fix k
      assume "k < LENGTH(8)"
      with i assms have "k < 8" "8 * i + k < 64" "8 * i + k < 8 * length bs"
        by simp_all
      then show "bit (ucast (drop_bit (8 * i) (le_word bs)) :: u8) k \<longleftrightarrow> bit (bs ! i) k"
        by (simp add: bit_simps bit_le_word)
    qed
    finally show ?thesis
      using True by (simp add: store_bytes_def i_def)
  next
    case False
    have "store_le mem a (le_word bs) (length bs) b = mem b"
    proof (rule store_le_outside)
      fix i
      assume "i < length bs"
      with assms have "unat (of_nat i :: u64) = i"
        by (simp add: unat_of_nat take_bit_nat_eq_self)
      with \<open>i < length bs\<close> False show "b \<noteq> a + of_nat i"
        by auto
    qed
    with False show ?thesis by (simp add: store_bytes_def)
  qed
qed

lemma store_bytes_append:
  assumes "length bs + length cs \<le> 2 ^ 64"
  shows "store_bytes (store_bytes mem a bs) (a + of_nat (length bs)) cs = store_bytes mem a (bs @ cs)"
proof (cases "cs = []")
  case True
  then show ?thesis by (simp add: store_bytes_def)
next
  case False
  show ?thesis
  proof
    fix b
    define i where "i = unat (b - a)"
    have "length bs < 2 ^ 64"
      using assms False by (cases cs) auto
    then have len: "unat (of_nat (length bs) :: u64) = length bs"
      by (simp add: unat_of_nat take_bit_nat_eq_self)
    have off: "b - (a + of_nat (length bs)) = (b - a) - of_nat (length bs)"
      by simp
    have "unat (b - (a + of_nat (length bs))) =
        (if length bs \<le> i then i - length bs else i + 2 ^ 64 - length bs)"
      unfolding off using len unsigned_less [of "b - a"]
      by (simp add: unat_sub_if' i_def word_le_nat_alt)
    with assms show "store_bytes (store_bytes mem a bs) (a + of_nat (length bs)) cs b =
        store_bytes mem a (bs @ cs) b"
      by (auto simp: store_bytes_def i_def nth_append)
  qed
qed

text \<open>Every access inside the block is to memory.\<close>

definition blob_ok :: "('m \<Rightarrow> u64 \<Rightarrow> u64 \<Rightarrow> bool) \<Rightarrow> 'm \<Rightarrow> u64 \<Rightarrow> nat \<Rightarrow> bool" where
  "blob_ok ok m addr n \<longleftrightarrow> unat addr + n \<le> 2 ^ 64 \<and>
     (\<forall>a sz. access_size sz \<longrightarrow> unat addr \<le> unat a \<longrightarrow> unat a + unat sz \<le> unat addr + n \<longrightarrow> ok m a sz)"

lemma blob_ok_first:
  "blob_ok ok m addr n \<Longrightarrow> access_size sz \<Longrightarrow> unat sz \<le> n \<Longrightarrow> ok m addr sz"
  by (simp add: blob_ok_def)

lemma blob_ok_rest:
  assumes "blob_ok ok m addr n" "k \<le> n" "k < n"
  shows "blob_ok ok m (addr + of_nat k) (n - k)"
proof -
  from assms have "unat addr + k < 2 ^ 64"
    by (simp add: blob_ok_def)
  then have "unat (addr + of_nat k) = unat addr + k"
    by (simp add: unat_word_ariths take_bit_nat_eq_self unat_of_nat)
  with assms show ?thesis
    by (simp add: blob_ok_def)
qed

lemma blob_ok_zero: "unat a \<le> unat b \<Longrightarrow> unat b + 0 \<le> 2 ^ 64 \<Longrightarrow> blob_ok ok m b 0"
  by (auto simp: blob_ok_def access_size_def)

lemma blob_ok_next:
  assumes "blob_ok ok m addr n" "k \<le> n"
  shows "blob_ok ok m (addr + of_nat k) (n - k)"
proof (cases "k < n")
  case True
  with assms show ?thesis by (intro blob_ok_rest) simp_all
next
  case False
  with assms have "k = n" by simp
  moreover have "unat (addr + of_nat k) < 2 ^ 64"
    using unsigned_less [of "addr + of_nat k"] by simp
  ultimately show ?thesis
    by (auto simp: blob_ok_def access_size_def)
qed

lemma blob_ok_cong:
  "\<forall>a sz. ok m' a sz = ok m a sz \<Longrightarrow> blob_ok ok m' addr n = blob_ok ok m addr n"
  by (simp add: blob_ok_def)

lemma blob_ok_less: "blob_ok ok m addr n \<Longrightarrow> n \<le> 2 ^ 64"
  by (simp add: blob_ok_def)

context byte_memory
begin

lemma wr_okE:
  assumes "ok m a sz"
  obtains r m' where "wr m a v sz = Inr (r, m')" "bytes m' = store_le (bytes m) a v (unat sz)"
    "\<And>b t. ok m' b t = ok m b t"
  using wr_ok [OF assms, of v] by auto

lemma write_blob_bytes_ok:
  "blob_ok ok m addr (length bs) \<Longrightarrow>
   \<exists>m'. write_blob_bytes wr addr bs m = Inr m' \<and> bytes m' = store_bytes (bytes m) addr bs \<and>
     (\<forall>b t. ok m' b t = ok m b t)"
proof (induction bs arbitrary: addr m)
  case Nil
  then show ?case by (simp add: store_bytes_def)
next
  case (Cons c cs)
  have "ok m addr 1"
    using Cons.prems by (rule blob_ok_first) (simp_all add: access_size_def)
  then obtain r m1 where m1: "wr m addr (ucast c) 1 = Inr (r, m1)"
    "bytes m1 = store_le (bytes m) addr (ucast c) (unat (1::u64))" "\<And>b t. ok m1 b t = ok m b t"
    by (rule wr_okE [where v = "ucast c"]) blast
  have "blob_ok ok m (addr + of_nat 1) (length (c # cs) - 1)"
    using Cons.prems by (rule blob_ok_next) simp
  then have "blob_ok ok m1 (addr + 1) (length cs)"
    using blob_ok_cong [of ok m1 m] m1(3) by simp
  from Cons.IH [OF this] obtain m2 where m2: "write_blob_bytes wr (addr + 1) cs m1 = Inr m2"
    "bytes m2 = store_bytes (bytes m1) (addr + 1) cs" "\<forall>b t. ok m2 b t = ok m1 b t"
    by auto
  have "bytes m1 = store_bytes (bytes m) addr [c]"
    by (auto simp: m1(2) store_bytes_def fun_eq_iff unsigned_eq_0_iff ucast_up_ucast_id is_up.rep_eq)
  then have "bytes m2 = store_bytes (bytes m) addr (c # cs)"
    using store_bytes_append [of "[c]" cs "bytes m" addr] blob_ok_less [OF Cons.prems]
    by (simp add: m2(2))
  with m1(1) m1(3) m2 show ?case by simp
qed

lemma write_blob_dwords_ok:
  "blob_ok ok m addr (length bs) \<Longrightarrow>
   \<exists>m'. write_blob_dwords wr addr bs m = Inr m' \<and> bytes m' = store_bytes (bytes m) addr bs \<and>
     (\<forall>b t. ok m' b t = ok m b t)"
proof (induction "length bs" arbitrary: addr m bs rule: less_induct)
  case less
  show ?case
  proof (cases "8 \<le> length bs")
    case False
    with less.prems show ?thesis
      by (subst write_blob_dwords.simps) (simp add: write_blob_bytes_ok)
  next
    case True
    have "ok m addr 8"
      using less.prems by (rule blob_ok_first) (use True in \<open>simp_all add: access_size_def\<close>)
    then obtain r m1 where m1: "wr m addr (le_word (take 8 bs)) 8 = Inr (r, m1)"
      "bytes m1 = store_le (bytes m) addr (le_word (take 8 bs)) (unat (8::u64))"
      "\<And>b t. ok m1 b t = ok m b t"
      by (rule wr_okE [where v = "le_word (take 8 bs)"]) blast
    have "blob_ok ok m (addr + of_nat 8) (length bs - 8)"
      using less.prems True by (rule blob_ok_next)
    then have "blob_ok ok m1 (addr + 8) (length (drop 8 bs))"
      using blob_ok_cong [of ok m1 m] m1(3) by simp
    moreover have "length (drop 8 bs) < length bs"
      using True by simp
    ultimately have "\<exists>m'. write_blob_dwords wr (addr + 8) (drop 8 bs) m1 = Inr m' \<and>
        bytes m' = store_bytes (bytes m1) (addr + 8) (drop 8 bs) \<and> (\<forall>b t. ok m' b t = ok m1 b t)"
      using less.hyps by blast
    then obtain m2 where m2: "write_blob_dwords wr (addr + 8) (drop 8 bs) m1 = Inr m2"
      "bytes m2 = store_bytes (bytes m1) (addr + 8) (drop 8 bs)" "\<forall>b t. ok m2 b t = ok m1 b t"
      by blast
    have "bytes m1 = store_bytes (bytes m) addr (take 8 bs)"
      using store_le_le_word [of "take 8 bs" "bytes m" addr] True by (simp add: m1(2) min_absorb2)
    then have "bytes m2 = store_bytes (bytes m) addr bs"
      using store_bytes_append [of "take 8 bs" "drop 8 bs" "bytes m" addr]
        blob_ok_less [OF less.prems] True by (simp add: m2(2) min_absorb2)
    with m1(1) m1(3) m2 True show ?thesis
      by (subst write_blob_dwords.simps) simp
  qed
qed

lemma read_blob_bytes_ok:
  "blob_ok ok m addr n \<Longrightarrow>
   read_blob_bytes rd addr n m = Inr (map (\<lambda>i. bytes m (addr + of_nat i)) [0..<n], m)"
proof (induction n arbitrary: addr)
  case (Suc n)
  have "ok m addr 1"
    using Suc.prems by (rule blob_ok_first) (simp_all add: access_size_def)
  moreover have "blob_ok ok m (addr + of_nat 1) (Suc n - 1)"
    using Suc.prems by (rule blob_ok_next) simp
  then have "read_blob_bytes rd (addr + 1) n m = Inr (map (\<lambda>i. bytes m (addr + 1 + of_nat i)) [0..<n], m)"
    by (intro Suc.IH) simp
  ultimately show ?case
    by (simp add: rd_ok map_upt_Suc add.assoc ucast_up_ucast_id is_up.rep_eq del: upt_Suc)
qed simp

lemma read_blob_dwords_ok:
  "blob_ok ok m addr n \<Longrightarrow>
   read_blob_dwords rd addr n m = Inr (map (\<lambda>i. bytes m (addr + of_nat i)) [0..<n], m)"
proof (induction n arbitrary: addr rule: less_induct)
  case (less n)
  show ?case
  proof (cases "8 \<le> n")
    case False
    with less.prems show ?thesis
      by (subst read_blob_dwords.simps) (simp add: read_blob_bytes_ok)
  next
    case True
    have "ok m addr 8"
      using less.prems by (rule blob_ok_first) (use True in \<open>simp_all add: access_size_def\<close>)
    moreover have "blob_ok ok m (addr + of_nat 8) (n - 8)"
      using less.prems True by (rule blob_ok_next)
    with True have "read_blob_dwords rd (addr + 8) (n - 8) m =
        Inr (map (\<lambda>i. bytes m (addr + 8 + of_nat i)) [0..<n - 8], m)"
      by (intro less.IH) simp_all
    moreover have "map (\<lambda>i. bytes m (addr + of_nat i)) [0..<8] @
        map (\<lambda>i. bytes m (addr + 8 + of_nat i)) [0..<n - 8] =
      map (\<lambda>i. bytes m (addr + of_nat i)) [0..<n]"
      using True by (auto intro!: nth_equalityI simp: nth_append algebra_simps)
    ultimately show ?thesis
      using True by (subst read_blob_dwords.simps) (simp add: rd_ok le_bytes_load_le)
  qed
qed

lemma blob_round_trip:
  assumes "blob_ok ok m addr (length bs)" "addr mod 8 = 0"
  shows "\<exists>m'. as_write_blob wr addr bs m = Inr m' \<and>
    as_read_blob rd addr (length bs) m' = Inr (bs, m')"
proof -
  from write_blob_dwords_ok [OF assms(1)] obtain m'
    where m': "write_blob_dwords wr addr bs m = Inr m'"
      "bytes m' = store_bytes (bytes m) addr bs" "\<forall>b t. ok m' b t = ok m b t"
    by auto
  have "map (\<lambda>i. bytes m' (addr + of_nat i)) [0..<length bs] = bs"
  proof (rule nth_equalityI)
    fix i
    assume "i < length (map (\<lambda>i. bytes m' (addr + of_nat i)) [0..<length bs])"
    moreover from this have "i < 2 ^ 64"
      using blob_ok_less [OF assms(1)] by simp
    ultimately show "map (\<lambda>i. bytes m' (addr + of_nat i)) [0..<length bs] ! i = bs ! i"
      by (simp add: m'(2) store_bytes_def unat_of_nat take_bit_nat_eq_self)
  qed simp
  moreover have "blob_ok ok m' addr (length bs)"
    using assms(1) using blob_ok_cong [of ok m' m] m'(3) by simp
  ultimately show ?thesis
    using assms(2) m'(1) read_blob_dwords_ok
    by (auto simp: as_write_blob_def as_read_blob_def)
qed

end

end
