(* ===== verification/Machine.thy ===== *)
theory Machine
  imports Csr Plic Clint Uart Rtc PciHost Ram Rom Flash AddressSpace
begin

text \<open>
  The state of the whole emulator: the registers of \<open>regfile.c\<close>, the program counter of
  \<open>xemu.c\<close>, the bus and every device.  The record extends the CSR state, so the operations on
  CSRs and host clocks act on it as they are.  The structures of \<open>virtio.h\<close>,
  \<open>virtio_mmio.c\<close> and \<open>virtio_blk.c\<close> are here too, since the state holds one block device.
\<close>

section \<open>Virtio structures\<close>

record iovec_t =
  iov_base :: u64
  iov_len :: u64
  iov_flags :: u32

record vring_desc_t =
  desc_addr :: u64
  desc_len :: u32
  desc_flags :: u16
  desc_next :: u16

record vring_t =
  vring_num :: u32
  vring_num_default :: u32
  vring_align_field :: u32
  vring_desc :: u64
  vring_avail :: u64
  vring_used :: u64

record vqueue_t =
  vq_vring :: vring_t
  last_avail_idx :: u16
  used_idx :: u16

record vq_request_t =
  req_index :: u32
  req_in_len :: u32
  req_num :: u32
  req_iov :: "iovec_t list"

text \<open>
  \<open>virtio_dev_t\<close> and its extension \<open>virtio_blk_t\<close>.  The callbacks of the structure are constant
  (\<open>virtio_blk_init\<close> sets them) and are called by name.  \<open>blk_req\<close> is the one-place mailbox
  \<open>_req\<close>, \<open>blk_cur\<close> the request the worker thread has taken out of it and not finished,
  \<open>blk_busy\<close> says that the worker is inside \<open>_do_request\<close>, and \<open>blk_file\<close> is the contents of the
  disk image, \<open>None\<close> when it cannot be opened.
\<close>

record virtio_blk_t =
  vdev_id :: u32
  vdev_irq_num :: u32
  vdev_isr :: u8
  host_features_sel :: bool
  guest_features :: u64
  guest_features_sel :: bool
  guest_page_shift :: u32
  queue_sel :: u16
  vdev_status :: u8
  vdev_vq :: vqueue_t
  num_queues :: u16
  vdev_config :: "u8 list"
  blk_req :: "vq_request_t option"
  blk_cur :: "vq_request_t option"
  blk_busy :: bool
  blk_file :: "u8 list option"

text \<open>The \<open>backend\<close> pointer of a transport: \<open>NULL\<close>, or the block device.\<close>

datatype backend_t = NO_BACKEND | BLK_BACKEND

section \<open>The machine\<close>

record machine = csr_t +
  m_reg :: "u32 \<Rightarrow> u64"
  m_freg :: "u32 \<Rightarrow> u64"
  m_pc :: u64
  m_as :: address_space
  m_plic :: plic_t
  m_clint :: clint_t
  m_uart :: uart_t
  m_rtc :: rtc_t
  m_pci :: pci_host_t
  m_ram :: ram_t
  m_rom :: rom_t
  m_flash :: flash_t
  m_vmmio :: "backend_t list"
  m_blk :: virtio_blk_t

type_synonym bus_rd = "machine \<Rightarrow> u64 \<Rightarrow> u64 \<Rightarrow> (u64 \<times> machine) result"
type_synonym bus_wr = "machine \<Rightarrow> u64 \<Rightarrow> u64 \<Rightarrow> u64 \<Rightarrow> (u64 \<times> machine) result"

definition abi_names :: "string list" where
  "abi_names =
    [''zero'', ''ra'', ''sp'', ''gp'', ''tp'', ''t0'', ''t1'', ''t2'', ''s0'', ''s1'',
     ''a0'', ''a1'', ''a2'', ''a3'', ''a4'', ''a5'', ''a6'', ''a7'',
     ''s2'', ''s3'', ''s4'', ''s5'', ''s6'', ''s7'', ''s8'', ''s9'',
     ''s10'', ''s11'', ''t3'', ''t4'', ''t5'', ''t6'']"

definition reg_name :: "u32 \<Rightarrow> string result" where
  "reg_name index = array_get ''reg_name'' abi_names (unat index)"

text \<open>The enumeration \<open>REG_NAME\<close> and its values.\<close>

datatype REG_NAME =
    REG_ZERO | REG_RA | REG_SP | REG_GP | REG_TP | REG_T0 | REG_T1 | REG_T2 | REG_S0
  | REG_S1 | REG_A0 | REG_A1 | REG_A2 | REG_A3 | REG_A4 | REG_A5 | REG_A6 | REG_A7
  | REG_S2 | REG_S3 | REG_S4 | REG_S5 | REG_S6 | REG_S7 | REG_S8 | REG_S9 | REG_S10
  | REG_S11 | REG_T3 | REG_T4 | REG_T5 | REG_T6 | REG_LIMIT

primrec reg_no :: "REG_NAME \<Rightarrow> u32" where
  "reg_no REG_ZERO = 0"
| "reg_no REG_RA = 1"
| "reg_no REG_SP = 2"
| "reg_no REG_GP = 3"
| "reg_no REG_TP = 4"
| "reg_no REG_T0 = 5"
| "reg_no REG_T1 = 6"
| "reg_no REG_T2 = 7"
| "reg_no REG_S0 = 8"
| "reg_no REG_S1 = 9"
| "reg_no REG_A0 = 10"
| "reg_no REG_A1 = 11"
| "reg_no REG_A2 = 12"
| "reg_no REG_A3 = 13"
| "reg_no REG_A4 = 14"
| "reg_no REG_A5 = 15"
| "reg_no REG_A6 = 16"
| "reg_no REG_A7 = 17"
| "reg_no REG_S2 = 18"
| "reg_no REG_S3 = 19"
| "reg_no REG_S4 = 20"
| "reg_no REG_S5 = 21"
| "reg_no REG_S6 = 22"
| "reg_no REG_S7 = 23"
| "reg_no REG_S8 = 24"
| "reg_no REG_S9 = 25"
| "reg_no REG_S10 = 26"
| "reg_no REG_S11 = 27"
| "reg_no REG_T3 = 28"
| "reg_no REG_T4 = 29"
| "reg_no REG_T5 = 30"
| "reg_no REG_T6 = 31"
| "reg_no REG_LIMIT = 32"

lemma distinct_abi_names: "distinct abi_names \<and> length abi_names = 32"
  by (simp add: abi_names_def)

section \<open>More fuel, same answer\<close>

text \<open>
  \<open>approx r r'\<close>: \<open>r\<close> either was cut off by the bound on nested stores or is \<open>r'\<close>.  Everything
  below the bus is monotone in the store function it is given.
\<close>

definition approx :: "'a result \<Rightarrow> 'a result \<Rightarrow> bool" where
  "approx r r' \<longleftrightarrow> (\<exists>f. r = Inl (Nested f)) \<or> r = r'"

named_theorems mono_intros \<open>monotonicity in the store function\<close>

lemma approx_refl [simp, mono_intros]: "approx r r"
  by (simp add: approx_def)

lemma approx_Nested [simp]: "approx (Inl (Nested f)) r"
  by (simp add: approx_def)

lemma approx_trans: "approx r s \<Longrightarrow> approx s t \<Longrightarrow> approx r t"
  by (auto simp: approx_def)

lemma approx_and_then [mono_intros]:
  "approx r r' \<Longrightarrow> (\<And>x. approx (f x) (f' x)) \<Longrightarrow> approx (and_then r f) (and_then r' f')"
  by (cases r; cases r') (auto simp: approx_def)

lemma approx_if [mono_intros]:
  "(b \<Longrightarrow> approx r r') \<Longrightarrow> (\<not> b \<Longrightarrow> approx s s') \<Longrightarrow>
   approx (if b then r else s) (if b then r' else s')"
  by simp

lemma approx_case_prod [mono_intros]:
  "(\<And>x y. approx (f x y) (f' x y)) \<Longrightarrow> approx (case p of (x, y) \<Rightarrow> f x y) (case p of (x, y) \<Rightarrow> f' x y)"
  by (simp add: split_def)

lemma approx_case_option [mono_intros]:
  "approx r r' \<Longrightarrow> (\<And>x. approx (f x) (f' x)) \<Longrightarrow>
   approx (case p of None \<Rightarrow> r | Some x \<Rightarrow> f x) (case p of None \<Rightarrow> r' | Some x \<Rightarrow> f' x)"
  by (cases p) simp_all

lemma approx_Let [mono_intros]:
  "(\<And>x. approx (f x) (f' x)) \<Longrightarrow> approx (let x = v in f x) (let x = v in f' x)"
  by (simp add: Let_def)

definition approx_wr :: "bus_wr \<Rightarrow> bus_wr \<Rightarrow> bool" where
  "approx_wr wr wr' \<longleftrightarrow> (\<forall>m a v sz. approx (wr m a v sz) (wr' m a v sz))"

lemma approx_wrD [mono_intros]: "approx_wr wr wr' \<Longrightarrow> approx (wr m a v sz) (wr' m a v sz)"
  by (simp add: approx_wr_def)

end
