(* ===== verification/Virtio.thy ===== *)
theory Virtio
  imports Machine Util
begin

text \<open>
  \<open>virtio.h\<close> and \<open>virtio.c\<close>: the virtqueue of the block device.  The rings are in guest memory, so
  each operation takes the bus accesses it makes (\<open>as_read_nommu\<close> and \<open>as_write_nommu\<close> with a
  \<open>NULL\<close> space) as arguments, and reads the queue's own fields from the machine at the
  moment the C code does: a store to the bus may reach the device and change them.
\<close>

abbreviation (input) VRING_DESC_F_NEXT :: u16 where "VRING_DESC_F_NEXT \<equiv> 0x1"
abbreviation (input) VRING_DESC_F_WRITE :: u16 where "VRING_DESC_F_WRITE \<equiv> 0x2"
abbreviation (input) VRING_DESC_F_INDIRECT :: u16 where "VRING_DESC_F_INDIRECT \<equiv> 0x4"
abbreviation (input) IO_VEC_F_READ :: u32 where "IO_VEC_F_READ \<equiv> 1"
abbreviation (input) IO_VEC_F_WRITE :: u32 where "IO_VEC_F_WRITE \<equiv> 2"
abbreviation (input) VIRTIO_RING_F_EVENT_IDX :: u32 where "VIRTIO_RING_F_EVENT_IDX \<equiv> 0x20000000"
abbreviation (input) VIRTQUEUE_MAX_SIZE :: nat where "VIRTQUEUE_MAX_SIZE \<equiv> 1024"

section \<open>The queue in the machine\<close>

definition the_vq :: "machine \<Rightarrow> vqueue_t" where
  "the_vq m = vdev_vq (m_blk m)"

definition the_vring :: "machine \<Rightarrow> vring_t" where
  "the_vring m = vq_vring (the_vq m)"

definition map_vq :: "(vqueue_t \<Rightarrow> vqueue_t) \<Rightarrow> machine \<Rightarrow> machine" where
  "map_vq f m = m\<lparr>m_blk := (m_blk m)\<lparr>vdev_vq := f (vdev_vq (m_blk m))\<rparr>\<rparr>"

definition map_vring :: "(vring_t \<Rightarrow> vring_t) \<Rightarrow> machine \<Rightarrow> machine" where
  "map_vring f = map_vq (\<lambda>q. q\<lparr>vq_vring := f (vq_vring q)\<rparr>)"

section \<open>The available ring\<close>

definition vring_avail_idx :: "bus_rd \<Rightarrow> machine \<Rightarrow> (u16 \<times> machine) result" where
  "vring_avail_idx rd m =
     and_then (rd m (vring_avail (the_vring m) + 2) 2) (\<lambda>(v, m). Inr (ucast v, m))"

definition virtio_queue_empty :: "bus_rd \<Rightarrow> machine \<Rightarrow> (bool \<times> machine) result" where
  "virtio_queue_empty rd m =
     and_then (vring_avail_idx rd m) (\<lambda>(v, m). Inr (v = last_avail_idx (the_vq m), m))"

definition vring_avail_ring :: "bus_rd \<Rightarrow> u32 \<Rightarrow> machine \<Rightarrow> (u16 \<times> machine) result" where
  "vring_avail_ring rd i m =
     and_then (rd m (vring_avail (the_vring m) + (4 + 2 * ucast i)) 2) (\<lambda>(v, m). Inr (ucast v, m))"

definition vqueue_get_head :: "bus_rd \<Rightarrow> u32 \<Rightarrow> machine \<Rightarrow> (u32 \<times> machine) result" where
  "vqueue_get_head rd idx m =
    (if vring_num (the_vring m) = 0 then Inl (UB ''vqueue_get_head'')
     else and_then (vring_avail_ring rd (idx mod vring_num (the_vring m)) m) (\<lambda>(v, m).
       let head = ucast v in
       if vring_num (the_vring m) \<le> head then Inl (Panic ''vqueue_get_head'')
       else Inr (head, m)))"

section \<open>Descriptors\<close>

definition parse_desc :: "u8 list \<Rightarrow> vring_desc_t" where
  "parse_desc bs =
     \<lparr>desc_addr = le_word (take 8 bs),
      desc_len = ucast (le_word (take 4 (drop 8 bs))),
      desc_flags = ucast (le_word (take 2 (drop 12 bs))),
      desc_next = ucast (le_word (take 2 (drop 14 bs)))\<rparr>"

definition vring_desc_read :: "bus_rd \<Rightarrow> u32 \<Rightarrow> machine \<Rightarrow> (vring_desc_t \<times> machine) result" where
  "vring_desc_read rd idx m =
     and_then (as_read_blob rd (vring_desc (the_vring m) + ucast idx * 16) 16 m)
       (\<lambda>(bs, m). Inr (parse_desc bs, m))"

definition desc_iov :: "vring_desc_t \<Rightarrow> iovec_t" where
  "desc_iov d =
     \<lparr>iov_base = desc_addr d, iov_len = ucast (desc_len d),
      iov_flags = (if desc_flags d AND VRING_DESC_F_WRITE \<noteq> 0 then IO_VEC_F_WRITE else IO_VEC_F_READ)\<rparr>"

text \<open>
  The loop over the chain of an indirect table.  The C array \<open>iov\<close> has 1024 entries; a chain
  that is longer, or that loops, writes past its end.
\<close>

function read_chain ::
  "bus_rd \<Rightarrow> u64 \<Rightarrow> u64 \<Rightarrow> iovec_t list \<Rightarrow> u32 \<Rightarrow> machine \<Rightarrow> ((iovec_t list \<times> u32) \<times> machine) result" where
  "read_chain rd addr offset iov in_len m =
    (if VIRTQUEUE_MAX_SIZE \<le> length iov then Inl (UB ''vring_desc_read_indirect'')
     else and_then (as_read_blob rd (addr + offset) 16 m) (\<lambda>(bs, m).
       let desc = parse_desc bs;
           iov = iov @ [desc_iov desc];
           in_len = (if desc_flags desc AND VRING_DESC_F_WRITE \<noteq> 0 then in_len + desc_len desc
                     else in_len) in
       if desc_flags desc AND VRING_DESC_F_NEXT = 0 then Inr ((iov, in_len), m)
       else read_chain rd addr (ucast (desc_next desc) * 16) iov in_len m))"
  by pat_completeness auto
termination
  by (relation "measure (\<lambda>(rd, addr, offset, iov, in_len, m). VIRTQUEUE_MAX_SIZE - length iov)") auto

declare read_chain.simps [simp del]

definition vring_desc_read_indirect ::
  "bus_rd \<Rightarrow> u32 \<Rightarrow> u64 \<Rightarrow> u32 \<Rightarrow> machine \<Rightarrow> (vq_request_t \<times> machine) result" where
  "vring_desc_read_indirect rd head addr len m =
    (if len = 0 \<or> len mod 16 \<noteq> 0 then Inl (Panic ''vring_desc_read_indirect'')
     else and_then (read_chain rd addr 0 [] 0 m) (\<lambda>((iov, in_len), m).
       Inr (\<lparr>req_index = head, req_in_len = in_len, req_num = of_nat (length iov), req_iov = iov\<rparr>, m)))"

section \<open>Popping a request\<close>

definition virtio_has_feature :: "u64 \<Rightarrow> u32 \<Rightarrow> bool" where
  "virtio_has_feature features fbit \<longleftrightarrow> features AND ucast fbit \<noteq> 0"

definition virtio_dev_has_feature :: "u32 \<Rightarrow> machine \<Rightarrow> bool" where
  "virtio_dev_has_feature fbit m = virtio_has_feature (guest_features (m_blk m)) fbit"

definition vring_set_avail_event :: "bus_wr \<Rightarrow> u16 \<Rightarrow> machine \<Rightarrow> machine result" where
  "vring_set_avail_event wr val m =
     and_then (wr m (vring_used (the_vring m) + (4 + 8 * ucast (vring_num (the_vring m)))) (ucast val) 2)
       (\<lambda>(_, m). Inr m)"

definition vqueue_pop :: "bus_rd \<Rightarrow> bus_wr \<Rightarrow> machine \<Rightarrow> (vq_request_t option \<times> machine) result" where
  "vqueue_pop rd wr m =
    and_then (virtio_queue_empty rd m) (\<lambda>(is_empty, m).
    if is_empty then Inr (None, m)
    else
      let idx = ucast (last_avail_idx (the_vq m));
          m = map_vq (\<lambda>q. q\<lparr>last_avail_idx := last_avail_idx q + 1\<rparr>) m in
      and_then (vqueue_get_head rd idx m) (\<lambda>(head, m).
      and_then (if virtio_dev_has_feature VIRTIO_RING_F_EVENT_IDX m
                then vring_set_avail_event wr (last_avail_idx (the_vq m)) m else Inr m) (\<lambda>m.
      and_then (vring_desc_read rd head m) (\<lambda>(desc, m).
      if desc_flags desc AND VRING_DESC_F_INDIRECT \<noteq> 0 then
        and_then (vring_desc_read_indirect rd head (desc_addr desc) (desc_len desc) m)
          (\<lambda>(req, m). Inr (Some req, m))
      else Inl (Panic ''vqueue_pop'')))))"

section \<open>Setting up and the used ring\<close>

definition vring_align :: "u64 \<Rightarrow> u64 \<Rightarrow> u64" where
  "vring_align addr align = ALIGN_UP addr align"

definition vring_init :: "vring_t \<Rightarrow> u64 \<Rightarrow> u32 \<Rightarrow> vring_t result" where
  "vring_init vring pfn page_shift =
    (if 64 \<le> page_shift then Inl (UB ''vring_init'')
     else
       let vring = vring\<lparr>vring_desc := push_bit (unat page_shift) pfn\<rparr> in
       if vring_num vring = 0 \<or> vring_desc vring = 0 \<or> vring_align_field vring = 0
       then Inl (Panic ''vring_init'')
       else
         let vring = vring\<lparr>vring_avail := vring_desc vring + ucast (vring_num vring) * 16\<rparr>;
             vring = vring\<lparr>vring_used :=
               vring_align (vring_avail vring + (4 + 2 * ucast (vring_num vring)))
                 (ucast (vring_align_field vring))\<rparr>
         in Inr vring)"

definition vring_used_idx_set :: "bus_wr \<Rightarrow> u16 \<Rightarrow> machine \<Rightarrow> machine result" where
  "vring_used_idx_set wr val m =
     and_then (wr m (vring_used (the_vring m) + 2) (ucast val) 2) (\<lambda>(_, m). Inr m)"

definition vring_used_write :: "bus_wr \<Rightarrow> vq_request_t \<Rightarrow> machine \<Rightarrow> machine result" where
  "vring_used_write wr req m =
    (if vring_num (the_vring m) = 0 then Inl (UB ''vring_used_write'')
     else
       let idx = ucast (used_idx (the_vq m)) mod vring_num (the_vring m);
           pa = vring_used (the_vring m) + (4 + 8 * ucast idx) in
       and_then (wr m pa (ucast (req_index req)) 4) (\<lambda>(_, m).
       and_then (wr m (pa + 4) (ucast (req_in_len req)) 4) (\<lambda>(_, m).
       let m = map_vq (\<lambda>q. q\<lparr>used_idx := used_idx q + 1\<rparr>) m in
       vring_used_idx_set wr (used_idx (the_vq m)) m)))"

section \<open>Monotonicity\<close>

lemma vring_set_avail_event_mono [mono_intros]:
  "approx_wr wr wr' \<Longrightarrow> approx (vring_set_avail_event wr v m) (vring_set_avail_event wr' v m)"
  unfolding vring_set_avail_event_def by (intro mono_intros)

lemma vqueue_pop_mono [mono_intros]:
  "approx_wr wr wr' \<Longrightarrow> approx (vqueue_pop rd wr m) (vqueue_pop rd wr' m)"
  unfolding vqueue_pop_def by (intro mono_intros)

lemma vring_used_write_mono [mono_intros]:
  "approx_wr wr wr' \<Longrightarrow> approx (vring_used_write wr req m) (vring_used_write wr' req m)"
  unfolding vring_used_write_def vring_used_idx_set_def by (intro mono_intros)

end
