(* ===== verification/VirtioBlk.thy ===== *)
theory VirtioBlk
  imports Virtio
begin

text \<open>
  \<open>virtio_blk.c\<close>: the block device.  A request popped by the transport goes through the mailbox
  \<open>_req\<close> to a worker thread, which reads or writes the disk image and completes the request.
  The two halves of the worker's loop, taking a request and carrying it out, are two
  operations.  When the mailbox is full the transport waits; it can go on only after the
  worker has finished what it has and taken the mailbox, which is what \<open>handle_request\<close> does
  here.  If the waiting thread is the worker itself, it waits for ever (\<open>Hang\<close>).
\<close>

abbreviation (input) VIRTIO_BLK_T_OUT :: u32 where "VIRTIO_BLK_T_OUT \<equiv> 1"
abbreviation (input) VIRTIO_BLK_T_FLUSH :: u32 where "VIRTIO_BLK_T_FLUSH \<equiv> 4"
abbreviation (input) VIRTIO_BLK_T_BARRIER :: u32 where "VIRTIO_BLK_T_BARRIER \<equiv> 0x80000000"
abbreviation (input) VIRTIO_ID_BLOCK :: u32 where "VIRTIO_ID_BLOCK \<equiv> 2"

section \<open>Configuration and features\<close>

record virtio_blk_geometry =
  geo_cylinders :: u16
  geo_heads :: u8
  geo_sectors :: u8

record virtio_blk_config_t =
  bc_capacity :: u64
  bc_size_max :: u32
  bc_seg_max :: u32
  bc_geometry :: virtio_blk_geometry
  bc_blk_size :: u32
  bc_physical_block_exp :: u8
  bc_alignment_offset :: u8
  bc_min_io_size :: u16
  bc_opt_io_size :: u32
  bc_wce :: u8
  bc_unused :: u8
  bc_num_queues :: u16
  bc_max_discard_sectors :: u32
  bc_max_discard_seg :: u32
  bc_discard_sector_alignment :: u32
  bc_max_write_zeroes_sectors :: u32
  bc_max_write_zeroes_seg :: u32
  bc_write_zeroes_may_unmap :: u8

text \<open>The structure is packed; its last three bytes are unused.\<close>

definition config_bytes :: "virtio_blk_config_t \<Rightarrow> u8 list" where
  "config_bytes c =
    le_bytes (bc_capacity c) 8 @ le_bytes (ucast (bc_size_max c)) 4 @ le_bytes (ucast (bc_seg_max c)) 4 @
    le_bytes (ucast (geo_cylinders (bc_geometry c))) 2 @ [geo_heads (bc_geometry c), geo_sectors (bc_geometry c)] @
    le_bytes (ucast (bc_blk_size c)) 4 @ [bc_physical_block_exp c, bc_alignment_offset c] @
    le_bytes (ucast (bc_min_io_size c)) 2 @ le_bytes (ucast (bc_opt_io_size c)) 4 @ [bc_wce c, bc_unused c] @
    le_bytes (ucast (bc_num_queues c)) 2 @ le_bytes (ucast (bc_max_discard_sectors c)) 4 @
    le_bytes (ucast (bc_max_discard_seg c)) 4 @ le_bytes (ucast (bc_discard_sector_alignment c)) 4 @
    le_bytes (ucast (bc_max_write_zeroes_sectors c)) 4 @ le_bytes (ucast (bc_max_write_zeroes_seg c)) 4 @
    [bc_write_zeroes_may_unmap c, 0, 0, 0]"

text \<open>
  The structure is built on the stack, cleared and filled, then copied into the device's space
  of 256 zero bytes.
\<close>

definition blk_config :: "u64 \<Rightarrow> virtio_blk_config_t" where
  "blk_config n =
    \<lparr>bc_capacity = drop_bit 9 n, bc_size_max = 0, bc_seg_max = 256 - 2,
     bc_geometry = \<lparr>geo_cylinders = 0, geo_heads = 0, geo_sectors = 0\<rparr>,
     bc_blk_size = 512, bc_physical_block_exp = 0, bc_alignment_offset = 0,
     bc_min_io_size = 0, bc_opt_io_size = 0, bc_wce = 1, bc_unused = 0,
     bc_num_queues = 0, bc_max_discard_sectors = 0x3FFFFF, bc_max_discard_seg = 1,
     bc_discard_sector_alignment = 1, bc_max_write_zeroes_sectors = 0x3FFFFF,
     bc_max_write_zeroes_seg = 0, bc_write_zeroes_may_unmap = 0\<rparr>"

definition virtio_blk_init_config :: "u8 list option \<Rightarrow> u8 list result" where
  "virtio_blk_init_config file =
    (case get_file_size file of
       None \<Rightarrow> Inl (Panic ''virtio_blk_init_config'')
     | Some n \<Rightarrow>
         let config = config_bytes (blk_config n)
         in Inr (config @ replicate (256 - length config) 0))"

lemma length_config_bytes: "length (config_bytes c) = 60"
  by (simp add: config_bytes_def le_bytes_def)

lemma init_config_length: "virtio_blk_init_config file = Inr config \<Longrightarrow> length config = 256"
  by (auto simp: virtio_blk_init_config_def length_config_bytes Let_def split: option.splits)

lemma virtio_blk_init_config_succeeds [simp]:
  "length bs < 2 ^ 63 \<Longrightarrow> \<exists>config. virtio_blk_init_config (Some bs) = Inr config"
  by (simp add: virtio_blk_init_config_def get_file_size_def Let_def)

text \<open>
  The common features are 32-bit constants, so the complement in \<open>features &= ~ANY_LAYOUT\<close> is
  taken in 32 bits and widened with zeros.
\<close>

definition virtio_blk_get_features :: u64 where
  "virtio_blk_get_features =
    (let common = 0x01000000 OR 0x08000000 OR 0x10000000 OR 0x20000000 :: u64;
         common = (if common AND 0x100000000 = 0
                   then (common AND ucast (NOT (0x08000000 :: u32))) OR 0x80 else common)
     in common OR (0x4 OR 0x10 OR 0x40 OR 0x200 OR 0x400 OR 0x800 OR 0x2000 OR 0x4000))"

section \<open>The disk image\<close>

text \<open>\<open>fseek(fp, (long)sector * 512, SEEK_SET)\<close>: a negative offset fails.\<close>

definition file_seek :: "string \<Rightarrow> u64 \<Rightarrow> nat result" where
  "file_seek f sector =
    (let off = sint sector * 512 in
     if off < - (2 ^ 63) \<or> 2 ^ 63 \<le> off then Inl (UB f)
     else if off < 0 then Inl (Panic f)
     else Inr (nat off))"

definition file_read :: "u8 list \<Rightarrow> nat \<Rightarrow> nat \<Rightarrow> u8 list" where
  "file_read bs pos n = take n (drop pos bs)"

text \<open>Writing past the end fills the gap with zeros.\<close>

definition file_write :: "u8 list \<Rightarrow> nat \<Rightarrow> u8 list \<Rightarrow> u8 list" where
  "file_write bs pos data =
    (if data = [] then bs
     else take pos (bs @ replicate (pos - length bs) 0) @ data @ drop (pos + length data) bs)"

section \<open>Carrying out a request\<close>

definition complete :: "bus_wr \<Rightarrow> vq_request_t \<Rightarrow> machine \<Rightarrow> machine result" where
  "complete wr req m =
    and_then (array_get ''_complete'' (req_iov req) (unat (req_num req - 1))) (\<lambda>iov.
    and_then (wr m (iov_base iov) 0 1) (\<lambda>(_, m).
    and_then (vring_used_write wr req m) (\<lambda>m.
    let m = m\<lparr>m_blk := (m_blk m)\<lparr>vdev_isr := vdev_isr (m_blk m) OR 0x1\<rparr>\<rparr> in
    and_then (plic_signal (vdev_irq_num (m_blk m)) (m_plic m)) (\<lambda>p.
    Inr (m\<lparr>m_plic := p\<rparr>)))))"

fun read_segments ::
  "bus_wr \<Rightarrow> u8 list \<Rightarrow> nat \<Rightarrow> iovec_t list \<Rightarrow> machine \<Rightarrow> machine result" where
  "read_segments wr bs pos [] m = Inr m"
| "read_segments wr bs pos (iov # iovs) m =
    (let len = unat (iov_len iov); data = file_read bs pos len in
     if length data \<noteq> len then Inl (Panic ''_handle_read'')
     else and_then (as_write_blob wr (iov_base iov) data m) (\<lambda>m.
       read_segments wr bs (pos + len) iovs m))"

definition handle_read :: "bus_wr \<Rightarrow> vq_request_t \<Rightarrow> u64 \<Rightarrow> machine \<Rightarrow> machine result" where
  "handle_read wr req sector m =
    (if req_num req < 3 then Inl (Panic ''_handle_read'')
     else case blk_file (m_blk m) of
       None \<Rightarrow> Inl (Panic ''_handle_read'')
     | Some bs \<Rightarrow>
         and_then (file_seek ''_handle_read'' sector) (\<lambda>pos.
         and_then (read_segments wr bs pos
                     (take (unat (req_num req) - 2) (drop 1 (req_iov req))) m) (\<lambda>m.
         complete wr req m)))"

definition handle_write :: "bus_rd \<Rightarrow> bus_wr \<Rightarrow> vq_request_t \<Rightarrow> u64 \<Rightarrow> machine \<Rightarrow> machine result" where
  "handle_write rd wr req sector m =
    (if req_num req \<noteq> 3 then Inl (Panic ''_handle_write'')
     else
       and_then (array_get ''_handle_write'' (req_iov req) 1) (\<lambda>iov.
       and_then (as_read_blob rd (iov_base iov) (unat (iov_len iov)) m) (\<lambda>(data, m).
       case blk_file (m_blk m) of
         None \<Rightarrow> Inl (Panic ''_handle_write'')
       | Some bs \<Rightarrow>
           and_then (file_seek ''_handle_write'' sector) (\<lambda>pos.
             complete wr req
               (m\<lparr>m_blk := (m_blk m)\<lparr>blk_file := Some (file_write bs pos data)\<rparr>\<rparr>)))))"

definition handle_flush :: "bus_wr \<Rightarrow> vq_request_t \<Rightarrow> machine \<Rightarrow> machine result" where
  "handle_flush wr req m =
    (if req_num req \<noteq> 2 then Inl (Panic ''_handle_flush'') else complete wr req m)"

definition do_request :: "bus_rd \<Rightarrow> bus_wr \<Rightarrow> vq_request_t \<Rightarrow> machine \<Rightarrow> machine result" where
  "do_request rd wr req m =
    and_then (array_get ''_do_request'' (req_iov req) 0) (\<lambda>iov.
    if iov_len iov \<noteq> 16 \<or> iov_flags iov AND IO_VEC_F_READ = 0 then Inl (Panic ''_do_request'')
    else
      and_then (as_read_blob rd (iov_base iov) 16 m) (\<lambda>(bs, m).
      let type = ucast (le_word (take 4 bs)) :: u32;
          sector = le_word (take 8 (drop 8 bs));
          kind = type AND NOT (VIRTIO_BLK_T_OUT OR VIRTIO_BLK_T_BARRIER) in
      if kind = 0 then
        (if type AND VIRTIO_BLK_T_OUT \<noteq> 0 then handle_write rd wr req sector m
         else handle_read wr req sector m)
      else if kind = VIRTIO_BLK_T_FLUSH then handle_flush wr req m
      else Inl (Panic ''_do_request'')))"

section \<open>The worker and the mailbox\<close>

definition map_blk :: "(virtio_blk_t \<Rightarrow> virtio_blk_t) \<Rightarrow> machine \<Rightarrow> machine" where
  "map_blk f m = m\<lparr>m_blk := f (m_blk m)\<rparr>"

definition blk_take :: "machine \<Rightarrow> machine" where
  "blk_take m =
    (if blk_cur (m_blk m) = None
     then map_blk (\<lambda>b. b\<lparr>blk_cur := blk_req b, blk_req := None\<rparr>) m else m)"

definition blk_work :: "bus_rd \<Rightarrow> bus_wr \<Rightarrow> machine \<Rightarrow> machine result" where
  "blk_work rd wr m =
    (case blk_cur (m_blk m) of
       None \<Rightarrow> Inr m
     | Some req \<Rightarrow>
         and_then (do_request rd wr req (map_blk (\<lambda>b. b\<lparr>blk_busy := True\<rparr>) m)) (\<lambda>m.
           Inr (map_blk (\<lambda>b. b\<lparr>blk_busy := False, blk_cur := None\<rparr>) m)))"

definition virtio_blk_handle_request ::
  "bus_rd \<Rightarrow> bus_wr \<Rightarrow> vq_request_t \<Rightarrow> machine \<Rightarrow> machine result" where
  "virtio_blk_handle_request rd wr req m =
    and_then
      (if blk_req (m_blk m) = None then Inr m
       else if blk_busy (m_blk m) then Inl (Hang ''virtio_blk_handle_request'')
       else and_then (blk_work rd wr m) (\<lambda>m. Inr (blk_take m)))
      (\<lambda>m. Inr (map_blk (\<lambda>b. b\<lparr>blk_req := Some req\<rparr>) m))"

definition virtio_blk_init :: "u8 list option \<Rightarrow> u32 \<Rightarrow> virtio_blk_t result" where
  "virtio_blk_init file irq_num =
    and_then (virtio_blk_init_config file) (\<lambda>config.
      Inr \<lparr>vdev_id = VIRTIO_ID_BLOCK, vdev_irq_num = irq_num, vdev_isr = 0,
           host_features_sel = False, guest_features = 0, guest_features_sel = False,
           guest_page_shift = 0, queue_sel = 0, vdev_status = 0,
           vdev_vq = \<lparr>vq_vring = \<lparr>vring_num = 0, vring_num_default = 0, vring_align_field = 0,
                                vring_desc = 0, vring_avail = 0, vring_used = 0\<rparr>,
                     last_avail_idx = 0, used_idx = 0\<rparr>,
           num_queues = 1, vdev_config = config, blk_req = None, blk_cur = None,
           blk_busy = False, blk_file = file\<rparr>)"

section \<open>Monotonicity\<close>

lemma write_blob_bytes_mono:
  "approx_wr wr wr' \<Longrightarrow> approx (write_blob_bytes wr a bs m) (write_blob_bytes wr' a bs m)"
  by (induction bs arbitrary: a m) (auto intro!: mono_intros)

lemma write_blob_dwords_mono:
  "approx_wr wr wr' \<Longrightarrow> approx (write_blob_dwords wr a bs m) (write_blob_dwords wr' a bs m)"
proof (induction "length bs" arbitrary: a bs m rule: less_induct)
  case less
  have "approx (write_blob_dwords wr (a + 8) (drop 8 bs) m1) (write_blob_dwords wr' (a + 8) (drop 8 bs) m1)"
    if "8 \<le> length bs" for m1
    using less that by simp
  then show ?case
    using less.prems
    by (subst (1 2) write_blob_dwords.simps) (auto intro!: mono_intros write_blob_bytes_mono)
qed

lemma as_write_blob_mono [mono_intros]:
  "approx_wr wr wr' \<Longrightarrow> approx (as_write_blob wr a bs m) (as_write_blob wr' a bs m)"
  unfolding as_write_blob_def by (intro mono_intros write_blob_dwords_mono)

lemma complete_mono [mono_intros]:
  "approx_wr wr wr' \<Longrightarrow> approx (complete wr req m) (complete wr' req m)"
  unfolding complete_def by (intro mono_intros)

lemma read_segments_mono [mono_intros]:
  "approx_wr wr wr' \<Longrightarrow> approx (read_segments wr bs pos iovs m) (read_segments wr' bs pos iovs m)"
  by (induction iovs arbitrary: pos m) (auto simp: Let_def intro!: mono_intros)

lemma blk_work_mono [mono_intros]:
  "approx_wr wr wr' \<Longrightarrow> approx (blk_work rd wr m) (blk_work rd wr' m)"
  unfolding blk_work_def do_request_def handle_read_def handle_write_def handle_flush_def
  by (intro mono_intros)

lemma handle_request_mono [mono_intros]:
  "approx_wr wr wr' \<Longrightarrow>
   approx (virtio_blk_handle_request rd wr req m) (virtio_blk_handle_request rd wr' req m)"
  unfolding virtio_blk_handle_request_def by (intro mono_intros)

end
