(* ===== verification/VirtioMmio.thy ===== *)
theory VirtioMmio
  imports VirtioBlk
begin

text \<open>
  \<open>virtio_mmio.c\<close>: the register window of a virtio transport.  Only the first of the eight
  transports has a backend; the registers that need one dereference a null pointer on the
  others.  The loop behind \<open>QUEUE_NOTIFY\<close> pops requests until the ring is empty; its bound is
  the fuel of the bus (theory \<open>Bus\<close>).
\<close>

abbreviation (input) VIRTIO_MMIO_CONFIG :: u64 where "VIRTIO_MMIO_CONFIG \<equiv> 0x100"
abbreviation (input) VIRTIO_MMIO_QUEUE_NOTIFY :: u64 where "VIRTIO_MMIO_QUEUE_NOTIFY \<equiv> 0x050"
abbreviation (input) VIRT_MAGIC :: u64 where "VIRT_MAGIC \<equiv> 0x74726976"
abbreviation (input) VIRT_VENDOR :: u64 where "VIRT_VENDOR \<equiv> 0x554D4558"
abbreviation (input) VIRTIO_QUEUE_MAX :: u64 where "VIRTIO_QUEUE_MAX \<equiv> 1024"

text \<open>\<open>vdev\<close> of the source: the backend of transport \<open>i\<close>, or \<open>NULL\<close>.\<close>

definition vmmio_vdev :: "machine \<Rightarrow> nat \<Rightarrow> virtio_blk_t option" where
  "vmmio_vdev m i =
    (if i < length (m_vmmio m) \<and> m_vmmio m ! i = BLK_BACKEND then Some (m_blk m) else None)"

definition deref :: "string \<Rightarrow> 'a option \<Rightarrow> 'a result" where
  "deref f p = (case p of None \<Rightarrow> Inl (UB f) | Some x \<Rightarrow> Inr x)"

section \<open>Registers\<close>

definition virtio_mmio_read :: "nat \<Rightarrow> u64 \<Rightarrow> u64 \<Rightarrow> machine \<Rightarrow> u64 result" where
  "virtio_mmio_read i addr sz m =
    (let f = ''virtio_mmio_read''; vdev = vmmio_vdev m i in
     if VIRTIO_MMIO_CONFIG \<le> addr then
       (if sz \<noteq> 1 then Inl (Panic f)
        else case vdev of
          None \<Rightarrow> Inl (Panic f)
        | Some d \<Rightarrow> and_then (array_get f (vdev_config d) (unat (addr - VIRTIO_MMIO_CONFIG)))
                     (\<lambda>b. Inr (ucast b)))
     else if sz \<noteq> 4 then Inl (Panic f)
     else if addr = 0x000 then Inr VIRT_MAGIC
     else if addr = 0x004 then Inr 1
     else if addr = 0x008 then Inr (case vdev of None \<Rightarrow> 0 | Some d \<Rightarrow> ucast (vdev_id d))
     else if addr = 0x00c then Inr VIRT_VENDOR
     else if addr = 0x010 then
       (let host_features = (case vdev of None \<Rightarrow> 0 | Some d \<Rightarrow> virtio_blk_get_features)
        in and_then (deref f vdev) (\<lambda>d. Inr (if host_features_sel d then 0 else host_features)))
     else if addr = 0x034 then Inr 1024
     else if addr = 0x040 then
       and_then (deref f vdev) (\<lambda>d.
         if 64 \<le> guest_page_shift d then Inl (UB f)
         else Inr (drop_bit (unat (guest_page_shift d)) (vring_desc (vq_vring (vdev_vq d)))))
     else if addr = 0x060 then and_then (deref f vdev) (\<lambda>d. Inr (ucast (vdev_isr d)))
     else if addr = 0x070 then and_then (deref f vdev) (\<lambda>d. Inr (ucast (vdev_status d)))
     else Inl (Panic f))"

fun notify_loop :: "nat \<Rightarrow> bus_rd \<Rightarrow> bus_wr \<Rightarrow> machine \<Rightarrow> machine result" where
  "notify_loop 0 rd wr m = Inl (Nested ''virtio_mmio_write'')"
| "notify_loop (Suc n) rd wr m =
     and_then (vqueue_pop rd wr m) (\<lambda>(req, m).
       case req of
         None \<Rightarrow> Inr m
       | Some r \<Rightarrow> and_then (virtio_blk_handle_request rd wr r m) (\<lambda>m. notify_loop n rd wr m))"

definition set_page_size :: "u64 \<Rightarrow> virtio_blk_t \<Rightarrow> virtio_blk_t" where
  "set_page_size data d =
    (let d = d\<lparr>guest_page_shift := of_nat (ctz32 (ucast data))\<rparr>
     in if 31 < guest_page_shift d then d\<lparr>guest_page_shift := 0\<rparr> else d)"

text \<open>The registers whose write only changes the device.\<close>

definition virtio_reg_write :: "u64 \<Rightarrow> u64 \<Rightarrow> virtio_blk_t \<Rightarrow> virtio_blk_t result" where
  "virtio_reg_write addr data d =
    (let map_ring = (\<lambda>f. d\<lparr>vdev_vq := (vdev_vq d)\<lparr>vq_vring := f (vq_vring (vdev_vq d))\<rparr>\<rparr>) in
     if addr = 0x014 then Inr (d\<lparr>host_features_sel := (data \<noteq> 0)\<rparr>)
     else if addr = 0x020 then
       Inr (if \<not> guest_features_sel d then d\<lparr>guest_features := data\<rparr> else d)
     else if addr = 0x024 then Inr (d\<lparr>guest_features_sel := (data \<noteq> 0)\<rparr>)
     else if addr = 0x028 then Inr (set_page_size data d)
     else if addr = 0x030 then
       Inr (if data < VIRTIO_QUEUE_MAX then d\<lparr>queue_sel := ucast data\<rparr> else d)
     else if addr = 0x040 then
       (if data \<noteq> 0
        then and_then (vring_init (vq_vring (vdev_vq d)) data (guest_page_shift d)) (\<lambda>r. Inr (map_ring (\<lambda>_. r)))
        else Inr (map_ring (\<lambda>r. r\<lparr>vring_desc := 0\<rparr>)))
     else if addr = 0x038 then Inr (map_ring (\<lambda>r. r\<lparr>vring_num := ucast data\<rparr>))
     else if addr = 0x03c then Inr (map_ring (\<lambda>r. r\<lparr>vring_align_field := ucast data\<rparr>))
     else if addr = 0x064 then Inr (d\<lparr>vdev_isr := vdev_isr d AND ucast (NOT data)\<rparr>)
     else if addr = 0x070 then Inr (d\<lparr>vdev_status := ucast (data AND 0xFF)\<rparr>)
     else Inl (Panic ''virtio_mmio_write''))"

definition virtio_writable :: "u64 \<Rightarrow> bool" where
  "virtio_writable addr \<longleftrightarrow>
     addr \<in> {0x014, 0x020, 0x024, 0x028, 0x030, 0x040, 0x038, 0x03c, 0x064, 0x070}"

definition virtio_mmio_write ::
  "nat \<Rightarrow> bus_rd \<Rightarrow> bus_wr \<Rightarrow> nat \<Rightarrow> u64 \<Rightarrow> u64 \<Rightarrow> u64 \<Rightarrow> machine \<Rightarrow> (u64 \<times> machine) result" where
  "virtio_mmio_write fuel rd wr i addr data sz m =
    (let f = ''virtio_mmio_write''; vdev = vmmio_vdev m i in
     if sz \<noteq> 4 then Inl (Panic f)
     else if addr = VIRTIO_MMIO_QUEUE_NOTIFY then
       and_then (deref f vdev) (\<lambda>_. and_then (notify_loop fuel rd wr m) (\<lambda>m. Inr (0, m)))
     else if \<not> virtio_writable addr then Inl (Panic f)
     else if addr = 0x030 \<and> \<not> data < VIRTIO_QUEUE_MAX then Inr (0, m)
     else
       and_then (deref f vdev) (\<lambda>d.
       and_then (virtio_reg_write addr data d) (\<lambda>d. Inr (0, m\<lparr>m_blk := d\<rparr>))))"

section \<open>Monotonicity\<close>

lemma notify_loop_mono:
  "approx_wr wr wr' \<Longrightarrow> n \<le> n' \<Longrightarrow> approx (notify_loop n rd wr m) (notify_loop n' rd wr' m)"
proof (induction n arbitrary: n' m)
  case (Suc n)
  then obtain k where k: "n' = Suc k" "n \<le> k"
    by (cases n') auto
  with Suc show ?case
    unfolding k(1) notify_loop.simps by (intro mono_intros) auto
qed simp

lemma virtio_mmio_write_mono:
  "approx_wr wr wr' \<Longrightarrow> n \<le> n' \<Longrightarrow>
   approx (virtio_mmio_write n rd wr i a v sz m) (virtio_mmio_write n' rd wr' i a v sz m)"
  unfolding virtio_mmio_write_def by (intro mono_intros notify_loop_mono)

end
