(* ===== verification/Bus.thy ===== *)
theory Bus
  imports VirtioMmio
begin

text \<open>
  The bus of the emulator as \<open>main\<close> builds it: the address space tree with every device
  registered (the \<open>*_init\<close> functions called by \<open>main\<close>, \<open>xemu.c\<close>), the dispatch of an access to
  the \<open>read_op\<close> or \<open>write_op\<close> of the device it reaches, and the bus accesses themselves.

  A store to \<open>QUEUE_NOTIFY\<close> makes the transport store to the bus again, so the bus is
  recursive.  \<open>bus_write\<close> carries fuel: it bounds how deep stores nest and how many requests
  one notification takes.  A store that does not reach a transport needs fuel 1.
\<close>

section \<open>The tree\<close>

definition device_space :: "u64 \<Rightarrow> u64 \<Rightarrow> bus_op \<Rightarrow> bus_op \<Rightarrow> address_space" where
  "device_space start_addr end_addr r w = set_ops r w (init_address_space start_addr end_addr)"

definition virtio_space :: "nat \<Rightarrow> address_space" where
  "virtio_space i =
     device_space (0x10001000 + of_nat i * 0x1000) (0x10001FFF + of_nat i * 0x1000)
       (virtio_mmio_op i) (virtio_mmio_op i)"

definition root_children :: "address_space list" where
  "root_children =
    [device_space 0x101000 0x101FFF rtc_op rtc_op,
     device_space 0x30000000 0x3FFFFFFF pci_host_op pci_host_op,
     device_space 0xC000000 0xC20FFFF plic_op plic_op,
     device_space 0x2000000 0x200FFFF clint_op clint_op,
     device_space ROM_ADDRESS_SPACE_START ROM_ADDRESS_SPACE_END rom_op as_dummy,
     device_space FLASH_ADDRESS_SPACE_START FLASH_ADDRESS_SPACE_END flash_op flash_op,
     device_space RAM_ADDRESS_SPACE_START RAM_ADDRESS_SPACE_END ram_op ram_op,
     device_space 0x10000000 0x100000FF uart_op uart_op] @
    map virtio_space [0..<8]"

definition root_as :: address_space where
  "root_as =
     fold (\<lambda>child parent. register_address_space parent child) root_children
       (init_address_space 0 ROOT_ADDRESS_SPACE_END)"

section \<open>Dispatch\<close>

definition with_snd :: "('s \<Rightarrow> 'm) \<Rightarrow> (u64 \<times> 's) result \<Rightarrow> (u64 \<times> 'm) result" where
  "with_snd put r = and_then r (\<lambda>(v, s). Inr (v, put s))"

fun bus_read_op :: "bus_op \<Rightarrow> u64 \<Rightarrow> u64 \<Rightarrow> machine \<Rightarrow> (u64 \<times> machine) result" where
  "bus_read_op as_dummy addr sz m = Inl (Panic ''as_read_dummy'')"
| "bus_read_op rtc_op addr sz m =
     and_then (rtc_read (m_rtc m) addr sz m) (\<lambda>(v, r, m). Inr (v, m\<lparr>m_rtc := r\<rparr>))"
| "bus_read_op pci_host_op addr sz m =
     and_then (pci_host_read (m_pci m) addr sz) (\<lambda>v. Inr (v, m))"
| "bus_read_op plic_op addr sz m = with_snd (\<lambda>p. m\<lparr>m_plic := p\<rparr>) (plic_read (m_plic m) addr sz)"
| "bus_read_op clint_op addr sz m = with_snd (\<lambda>c. m\<lparr>m_clint := c\<rparr>) (clint_read (m_clint m) addr sz)"
| "bus_read_op rom_op addr sz m = and_then (rom_read (m_rom m) addr sz) (\<lambda>v. Inr (v, m))"
| "bus_read_op flash_op addr sz m = and_then (flash_read (m_flash m) addr sz) (\<lambda>v. Inr (v, m))"
| "bus_read_op ram_op addr sz m = and_then (ram_read (m_ram m) addr sz) (\<lambda>v. Inr (v, m))"
| "bus_read_op uart_op addr sz m =
     and_then (uart_read (m_uart m) (m_plic m) addr sz) (\<lambda>(v, u, p). Inr (v, m\<lparr>m_uart := u, m_plic := p\<rparr>))"
| "bus_read_op (virtio_mmio_op i) addr sz m =
     and_then (virtio_mmio_read i addr sz m) (\<lambda>v. Inr (v, m))"

fun bus_write_op ::
  "nat \<Rightarrow> bus_rd \<Rightarrow> bus_wr \<Rightarrow> bus_op \<Rightarrow> u64 \<Rightarrow> u64 \<Rightarrow> u64 \<Rightarrow> params_t \<Rightarrow> machine \<Rightarrow>
   (u64 \<times> machine) result" where
  "bus_write_op fuel rd wr as_dummy addr data sz params m = Inl (Panic ''as_write_dummy'')"
| "bus_write_op fuel rd wr rom_op addr data sz params m = Inl (Panic ''as_write_dummy'')"
| "bus_write_op fuel rd wr rtc_op addr data sz params m =
     with_snd (\<lambda>r. m\<lparr>m_rtc := r\<rparr>) (rtc_write (m_rtc m) addr data sz)"
| "bus_write_op fuel rd wr pci_host_op addr data sz params m =
     with_snd (\<lambda>d. m\<lparr>m_pci := d\<rparr>) (pci_host_write (m_pci m) addr data sz)"
| "bus_write_op fuel rd wr plic_op addr data sz params m =
     with_snd (\<lambda>p. m\<lparr>m_plic := p\<rparr>) (plic_write (m_plic m) addr data sz)"
| "bus_write_op fuel rd wr clint_op addr data sz params m =
     and_then (clint_write (m_clint m) addr data sz m) (\<lambda>(v, c, m). Inr (v, m\<lparr>m_clint := c\<rparr>))"
| "bus_write_op fuel rd wr flash_op addr data sz params m =
     with_snd (\<lambda>d. m\<lparr>m_flash := d\<rparr>) (flash_write (m_flash m) addr data sz)"
| "bus_write_op fuel rd wr ram_op addr data sz params m =
     with_snd (\<lambda>r. m\<lparr>m_ram := r\<rparr>) (ram_write (m_ram m) addr data sz params)"
| "bus_write_op fuel rd wr uart_op addr data sz params m =
     and_then (uart_write (m_uart m) (m_plic m) addr data sz)
       (\<lambda>(v, u, p). Inr (v, m\<lparr>m_uart := u, m_plic := p\<rparr>))"
| "bus_write_op fuel rd wr (virtio_mmio_op i) addr data sz params m =
     virtio_mmio_write fuel rd wr i addr data sz m"

definition bus_read :: bus_rd where
  "bus_read m addr sz = as_read_nommu bus_read_op (m_as m) addr sz m"

fun bus_write :: "nat \<Rightarrow> params_t \<Rightarrow> bus_wr" where
  "bus_write 0 params m addr data sz = Inl (Nested ''as_write_nommu'')"
| "bus_write (Suc n) params m addr data sz =
     as_write_nommu (bus_write_op n bus_read (bus_write n PARAMS_NONE)) (m_as m) addr sz data params m"

section \<open>Fuel\<close>

lemma bus_write_op_mono:
  "approx_wr wr wr' \<Longrightarrow> n \<le> n' \<Longrightarrow>
   approx (bus_write_op n rd wr bop a v sz params m) (bus_write_op n' rd wr' bop a v sz params m)"
  by (cases bop) (simp_all add: virtio_mmio_write_mono)

lemma bus_write_mono: "n \<le> n' \<Longrightarrow> approx (bus_write n params m a v sz) (bus_write n' params m a v sz)"
proof (induction n arbitrary: n' params m a v sz)
  case (Suc n)
  then obtain k where k: "n' = Suc k" "n \<le> k"
    by (cases n') auto
  have "approx_wr (bus_write n PARAMS_NONE) (bus_write k PARAMS_NONE)"
    unfolding approx_wr_def using Suc.IH k(2) by blast
  then show ?case
    unfolding k(1) using bus_write_op_mono k(2)
    by (cases "access_size sz")
       (simp_all add: as_write_nommu_resolve as_write_nommu_bad_size split_def)
qed simp

section \<open>The address map\<close>

lemma fold_register:
  "fold (\<lambda>child parent. register_address_space parent child) cs a =
     AddressSpace (as_start a) (as_end a) (as_read_op a) (as_write_op a) (rev cs @ as_children a)"
  by (induction cs arbitrary: a) (simp_all add: register_address_space_def)

lemma root_as_children: "as_children root_as = rev root_children"
  by (simp add: root_as_def fold_register init_address_space_def)

lemma device_space_sel [simp]:
  "as_start (device_space s e r w) = s" "as_end (device_space s e r w) = e"
  "as_read_op (device_space s e r w) = r" "as_write_op (device_space s e r w) = w"
  "as_children (device_space s e r w) = []"
  by (simp_all add: device_space_def set_ops_def init_address_space_def)

lemma root_children_leaf: "c \<in> set root_children \<Longrightarrow> as_children c = []"
  by (auto simp: root_children_def virtio_space_def)

lemma as_resolve_leaf: "as_children c = [] \<Longrightarrow> as_resolve c addr = (c, addr)"
  by (subst as_resolve.simps) simp

text \<open>The ranges, in the order of registration.\<close>

definition root_ranges :: "(u64 \<times> u64) list" where
  "root_ranges = map (\<lambda>c. (as_start c, as_end c)) root_children"

lemma root_ranges_eq:
  "root_ranges =
    [(0x101000, 0x101FFF), (0x30000000, 0x3FFFFFFF), (0xC000000, 0xC20FFFF),
     (0x2000000, 0x200FFFF), (0x1000, 0xFFFFF), (0x20000000, 0x23FFFFFF),
     (0x80000000, 0xFFFFFFFF), (0x10000000, 0x100000FF),
     (0x10001000, 0x10001FFF), (0x10002000, 0x10002FFF), (0x10003000, 0x10003FFF),
     (0x10004000, 0x10004FFF), (0x10005000, 0x10005FFF), (0x10006000, 0x10006FFF),
     (0x10007000, 0x10007FFF), (0x10008000, 0x10008FFF)]"
  by (simp add: root_ranges_def root_children_def virtio_space_def upt_rec)

definition apart :: "u64 \<times> u64 \<Rightarrow> u64 \<times> u64 \<Rightarrow> bool" where
  "apart r s \<longleftrightarrow> snd r < fst s \<or> snd s < fst r"

lemma root_ranges_apart: "sorted_wrt apart root_ranges"
  unfolding root_ranges_eq by (simp add: apart_def)

lemma in_space_unique:
  assumes "c \<in> set root_children" "d \<in> set root_children" "in_space addr c" "in_space addr d"
  shows "c = d"
proof (rule ccontr)
  assume "c \<noteq> d"
  obtain i j where ij: "i < length root_children" "j < length root_children"
    "c = root_children ! i" "d = root_children ! j"
    using assms(1, 2) by (auto simp: in_set_conv_nth)
  with \<open>c \<noteq> d\<close> have "i < j \<or> j < i"
    by (metis linorder_neqE_nat)
  then have "apart (as_start c, as_end c) (as_start d, as_end d) \<or>
      apart (as_start d, as_end d) (as_start c, as_end c)"
    using sorted_wrt_nth_less [OF root_ranges_apart, of i j]
      sorted_wrt_nth_less [OF root_ranges_apart, of j i] ij
    by (auto simp: root_ranges_def)
  with assms(3, 4) show False
    by (auto simp: apart_def in_space_def)
qed

lemma as_resolve_root:
  assumes "c \<in> set root_children" "in_space addr c"
  shows "as_resolve root_as addr = (c, addr - as_start c)"
proof -
  have "find (in_space addr) (as_children root_as) = Some c"
  proof (cases "find (in_space addr) (as_children root_as)")
    case None
    with assms show ?thesis
      by (auto simp: find_None_iff root_as_children)
  next
    case (Some d)
    then have "d \<in> set (rev root_children)" "in_space addr d"
      unfolding find_Some_iff root_as_children by (metis nth_mem)+
    then have "d \<in> set root_children" "in_space addr d"
      by simp_all
    with assms in_space_unique Some show ?thesis
      by metis
  qed
  with assms(1) show ?thesis
    by (subst as_resolve.simps) (simp add: as_resolve_leaf root_children_leaf)
qed

lemma as_resolve_hole:
  assumes "\<And>c. c \<in> set root_children \<Longrightarrow> \<not> in_space addr c"
  shows "as_resolve root_as addr = (root_as, addr)"
proof -
  have "find (in_space addr) (as_children root_as) = None"
    using assms by (auto simp: find_None_iff root_as_children)
  then show ?thesis by (subst as_resolve.simps) simp
qed

lemma root_as_ops [simp]: "as_read_op root_as = as_dummy" "as_write_op root_as = as_dummy"
  by (simp_all add: root_as_def fold_register init_address_space_def)

section \<open>The bus is memory in the RAM window\<close>

abbreviation (input) ram_space :: address_space where
  "ram_space \<equiv> device_space RAM_ADDRESS_SPACE_START RAM_ADDRESS_SPACE_END ram_op ram_op"

text \<open>The machine has the bus of \<open>main\<close> and its 2 GiB of RAM, and the access is inside them.\<close>

definition bus_ok :: "machine \<Rightarrow> u64 \<Rightarrow> u64 \<Rightarrow> bool" where
  "bus_ok m a sz \<longleftrightarrow>
     m_as m = root_as \<and> ram_size (m_ram m) = 0x80000000 \<and> access_size sz \<and>
     0x80000000 \<le> unat a \<and> unat a + unat sz \<le> 0x100000000"

definition bus_bytes :: "machine \<Rightarrow> u64 \<Rightarrow> u8" where
  "bus_bytes m = (\<lambda>a. ram_mem (m_ram m) (a - RAM_ADDRESS_SPACE_START))"

lemma bus_ok_resolve:
  assumes "bus_ok m a sz"
  shows "as_resolve (m_as m) a = (ram_space, a - RAM_ADDRESS_SPACE_START)"
    and "access_size sz" and "ram_ok (m_ram m) (a - RAM_ADDRESS_SPACE_START) sz"
proof -
  from assms have a: "0x80000000 \<le> unat a" "unat a + unat sz \<le> 0x100000000"
    and sz: "access_size sz" and m: "m_as m = root_as" "ram_size (m_ram m) = 0x80000000"
    by (simp_all add: bus_ok_def)
  show "access_size sz" by (rule sz)
  have "0 < unat sz"
    using sz by (auto simp: access_size_def)
  with a have "in_space a ram_space"
    by (simp add: in_space_def word_le_nat_alt)
  moreover have "ram_space \<in> set root_children"
    by (simp add: root_children_def)
  ultimately show "as_resolve (m_as m) a = (ram_space, a - RAM_ADDRESS_SPACE_START)"
    using as_resolve_root [of ram_space a] by (simp add: m(1))
  have "unat (a - RAM_ADDRESS_SPACE_START) = unat a - 0x80000000"
    using a by (simp add: unat_sub word_le_nat_alt)
  with a show "ram_ok (m_ram m) (a - RAM_ADDRESS_SPACE_START) sz"
    by (simp add: ram_ok_def sz m(2))
qed

lemma bus_read_ok:
  assumes "bus_ok m a sz"
  shows "bus_read m a sz = Inr (load_le (bus_bytes m) a (unat sz), m)"
  using bus_ok_resolve [OF assms]
  by (simp add: bus_read_def as_read_nommu_resolve ram_read_ok bus_bytes_def load_le_shift)

lemma bus_write_ok:
  assumes "bus_ok m a sz"
  defines "off \<equiv> a - RAM_ADDRESS_SPACE_START"
  shows "bus_write (Suc n) params m a v sz =
    Inr (amo_old (m_ram m) off sz params,
      m\<lparr>m_ram := (m_ram m)\<lparr>ram_mem := store_le (ram_mem (m_ram m)) off
        (amo_new sz (amo_old (m_ram m) off sz params) v params) (unat sz)\<rparr>\<rparr>)"
  using bus_ok_resolve [OF assms(1)]
  by (simp add: as_write_nommu_resolve ram_write_ok with_snd_def off_def)

interpretation bus_ram: byte_memory bus_read "bus_write (Suc n) PARAMS_NONE" bus_ok bus_bytes for n
proof unfold_locales
  fix m a sz
  assume ok: "bus_ok m a sz"
  then show "unat sz \<le> 8"
    by (simp add: bus_ok_def access_size_le_8)
  show "bus_read m a sz = Inr (load_le (bus_bytes m) a (unat sz), m)"
    using ok by (rule bus_read_ok)
  have sz: "access_size sz"
    using ok by (simp add: bus_ok_def)
  show "\<exists>r m'. bus_write (Suc n) PARAMS_NONE m a v sz = Inr (r, m') \<and>
      bus_bytes m' = store_le (bus_bytes m) a v (unat sz) \<and> (\<forall>b t. bus_ok m' b t = bus_ok m b t)"
    for v
    using bus_write_ok [OF ok, of n PARAMS_NONE v] ok
    by (simp add: bus_bytes_def store_le_shift amo_new_None [OF sz] del: bus_write.simps)
       (simp add: bus_ok_def)
qed

end
