(* ===== verification/Mmu.thy ===== *)
theory Mmu
  imports Bus
begin

text \<open>
  \<open>mmu.c\<close>: the Sv39 page walk, and \<open>as_read\<close> and \<open>as_write\<close> of \<open>address_space.c\<close>, which go
  through it.  A failing walk is \<open>None\<close>; the C function returns -1 and its callers do not look
  at the address then.
\<close>

definition PTE_V :: "u64 \<Rightarrow> u64" where "PTE_V pte = BIT pte 0"
definition PTE_R :: "u64 \<Rightarrow> u64" where "PTE_R pte = BIT pte 1"
definition PTE_W :: "u64 \<Rightarrow> u64" where "PTE_W pte = BIT pte 2"
definition PTE_X :: "u64 \<Rightarrow> u64" where "PTE_X pte = BIT pte 3"

definition pte_fault :: "u64 \<Rightarrow> bool" where
  "pte_fault pte \<longleftrightarrow> PTE_V pte = 0 \<or> (PTE_R pte = 0 \<and> PTE_W pte = 1)"

definition pte_leaf :: "u64 \<Rightarrow> bool" where
  "pte_leaf pte \<longleftrightarrow> PTE_R pte \<noteq> 0 \<or> PTE_X pte \<noteq> 0"

definition mmu :: "machine \<Rightarrow> u64 \<Rightarrow> (u64 option \<times> machine) result" where
  "mmu m vaddr =
    (if priv m = M_MODE then Inr (Some vaddr, m)
     else
       and_then (csr_read SATP m) (\<lambda>(satp, _, m).
       if BITS satp 63 60 = 0 then Inr (Some vaddr, m)
       else
         and_then (csr_read SATP m) (\<lambda>(satp, _, m).
         let root_ppn = BITS satp 43 0;
             paddr = push_bit 12 root_ppn OR push_bit 3 (BITS vaddr 38 30) in
         and_then (bus_read m paddr 8) (\<lambda>(pte, m).
         if pte_fault pte then Inr (None, m)
         else if pte_leaf pte then
           Inr (Some (push_bit 30 (BITS pte 53 28) OR BITS vaddr 29 0), m)
         else
           let paddr = push_bit 12 (BITS pte 53 10) OR push_bit 3 (BITS vaddr 29 21) in
           and_then (bus_read m paddr 8) (\<lambda>(pte, m).
           if pte_fault pte then Inr (None, m)
           else if pte_leaf pte then
             Inr (Some (push_bit 21 (BITS pte 53 19) OR BITS vaddr 20 0), m)
           else
             let paddr = push_bit 12 (BITS pte 53 10) OR push_bit 3 (BITS vaddr 20 12) in
             and_then (bus_read m paddr 8) (\<lambda>(pte, m).
             if pte_fault pte then Inr (None, m)
             else if pte_leaf pte then
               Inr (Some (push_bit 12 (BITS pte 53 10) OR BITS vaddr 11 0), m)
             else Inr (None, m)))))))"

text \<open>The flag that \<open>as_read\<close> and \<open>as_write\<close> set through their \<open>has_except\<close> pointer comes second.\<close>

definition as_read :: "machine \<Rightarrow> u64 \<Rightarrow> u64 \<Rightarrow> (u64 \<times> bool \<times> machine) result" where
  "as_read m vaddr sz =
    and_then (mmu m vaddr) (\<lambda>(paddr, m).
      case paddr of
        None \<Rightarrow> Inr (0, True, m)
      | Some pa \<Rightarrow> and_then (bus_read m pa sz) (\<lambda>(v, m). Inr (v, False, m)))"

definition as_write ::
  "nat \<Rightarrow> machine \<Rightarrow> u64 \<Rightarrow> u64 \<Rightarrow> u64 \<Rightarrow> params_t \<Rightarrow> (u64 \<times> bool \<times> machine) result" where
  "as_write fuel m vaddr sz data params =
    and_then (mmu m vaddr) (\<lambda>(paddr, m).
      case paddr of
        None \<Rightarrow> Inr (0, True, m)
      | Some pa \<Rightarrow> and_then (bus_write fuel params m pa data sz) (\<lambda>(v, m). Inr (v, False, m)))"

section \<open>The walk of the privileged architecture, without its checks\<close>

text \<open>
  The reference: a walk over the levels 2, 1, 0 with 9-bit indices, entries of 8 bytes and
  pages of 4096 bytes, in which a leaf at level \<open>i\<close> maps the low \<open>12 + 9 i\<close> bits of the
  address unchanged.  The checks of permissions and alignment, which \<open>mmu.c\<close> does not make, are in
  theory \<open>Sv39\<close>.
\<close>

definition vpn :: "u64 \<Rightarrow> nat \<Rightarrow> u64" where
  "vpn vaddr i = take_bit 9 (drop_bit (12 + 9 * i) vaddr)"

fun sv39_walk :: "nat \<Rightarrow> u64 \<Rightarrow> u64 \<Rightarrow> machine \<Rightarrow> (u64 option \<times> machine) result" where
  "sv39_walk i table vaddr m =
    and_then (bus_read m (table + vpn vaddr i * 8) 8) (\<lambda>(pte, m).
      if \<not> bit pte 0 \<or> \<not> bit pte 1 \<and> bit pte 2 then Inr (None, m)
      else if bit pte 1 \<or> bit pte 3 then
        Inr (Some (push_bit (12 + 9 * i) (take_bit (44 - 9 * i) (drop_bit (10 + 9 * i) pte)) +
                   take_bit (12 + 9 * i) vaddr), m)
      else case i of
        0 \<Rightarrow> Inr (None, m)
      | Suc j \<Rightarrow> sv39_walk j (take_bit 44 (drop_bit 10 pte) * 4096) vaddr m)"

declare sv39_walk.simps [simp del]

definition sv39 :: "machine \<Rightarrow> u64 \<Rightarrow> (u64 option \<times> machine) result" where
  "sv39 m vaddr =
    (if cur_priv m = M_MODE \<or> drop_bit 60 (csrs m SATP) = 0 then Inr (Some vaddr, m)
     else sv39_walk 2 (take_bit 44 (csrs m SATP) * 4096) vaddr m)"

lemma pte_fault_iff: "pte_fault pte \<longleftrightarrow> \<not> bit pte 0 \<or> \<not> bit pte 1 \<and> bit pte 2"
  by (simp add: pte_fault_def PTE_V_def PTE_R_def PTE_W_def BIT_eq)

lemma pte_leaf_iff: "pte_leaf pte \<longleftrightarrow> bit pte 1 \<or> bit pte 3"
  by (simp add: pte_leaf_def PTE_R_def PTE_X_def BIT_eq)

lemma or_is_plus: "(\<And>n. bit v n \<Longrightarrow> bit w n \<Longrightarrow> False) \<Longrightarrow> v OR w = v + w" for v w :: u64
  by (subst disjunctive_add) auto

lemma walk_index:
  assumes "l = 12 + 9 * i" "h = l + 8"
  shows "push_bit 12 p OR push_bit 3 (BITS vaddr h l) = p * 4096 + vpn vaddr i * 8"
proof -
  have "BITS vaddr h l = vpn vaddr i"
    using assms by (simp add: BITS_eq_take_bit vpn_def)
  moreover have "push_bit 12 p OR push_bit 3 (vpn vaddr i) = push_bit 12 p + push_bit 3 (vpn vaddr i)"
    by (rule or_is_plus) (auto simp: bit_simps vpn_def)
  ultimately show ?thesis
    by (simp add: push_bit_eq_mult)
qed

lemma walk_leaf:
  assumes "l = 10 + 9 * i" "s = 12 + 9 * i" "t = 11 + 9 * i" "i \<le> 2"
  shows "push_bit s (BITS pte 53 l) OR BITS vaddr t 0 =
   push_bit s (take_bit (44 - 9 * i) (drop_bit l pte)) + take_bit s vaddr"
proof -
  have "BITS pte 53 l = take_bit (44 - 9 * i) (drop_bit l pte)"
  proof -
    have "53 - l + 1 = 44 - 9 * i"
      using assms by simp
    then show ?thesis
      by (simp only: BITS_eq_take_bit) simp
  qed
  moreover have "BITS vaddr t 0 = take_bit s vaddr"
    using assms by (simp add: BITS_eq_take_bit)
  moreover have "push_bit s w OR take_bit s vaddr = push_bit s w + take_bit s vaddr" for w
    by (rule or_is_plus) (auto simp: bit_simps)
  ultimately show ?thesis by simp
qed

lemma sv39_walk_0:
  "sv39_walk 0 table vaddr m =
    and_then (bus_read m (table + vpn vaddr 0 * 8) 8) (\<lambda>(pte, m).
      if pte_fault pte then Inr (None, m)
      else if pte_leaf pte then Inr (Some (push_bit 12 (BITS pte 53 10) OR BITS vaddr 11 0), m)
      else Inr (None, m))"
  by (subst sv39_walk.simps)
     (simp add: pte_fault_iff pte_leaf_iff walk_leaf [of 10 0 12 11] cong: if_cong)

lemma sv39_walk_1:
  "sv39_walk (Suc 0) table vaddr m =
    and_then (bus_read m (table + vpn vaddr (Suc 0) * 8) 8) (\<lambda>(pte, m).
      if pte_fault pte then Inr (None, m)
      else if pte_leaf pte then Inr (Some (push_bit 21 (BITS pte 53 19) OR BITS vaddr 20 0), m)
      else sv39_walk 0 (BITS pte 53 10 * 4096) vaddr m)"
  by (subst sv39_walk.simps)
     (simp add: pte_fault_iff pte_leaf_iff walk_leaf [of 19 "Suc 0" 21 20] BITS_eq_take_bit [of _ 53 10]
       cong: if_cong)

lemma sv39_walk_2:
  "sv39_walk 2 table vaddr m =
    and_then (bus_read m (table + vpn vaddr 2 * 8) 8) (\<lambda>(pte, m).
      if pte_fault pte then Inr (None, m)
      else if pte_leaf pte then Inr (Some (push_bit 30 (BITS pte 53 28) OR BITS vaddr 29 0), m)
      else sv39_walk (Suc 0) (BITS pte 53 10 * 4096) vaddr m)"
  by (subst sv39_walk.simps)
     (simp add: pte_fault_iff pte_leaf_iff walk_leaf [of 28 2 30 29] BITS_eq_take_bit [of _ 53 10]
       numeral_2_eq_2 cong: if_cong)

lemma BITS_63_60: "BITS (x::u64) 63 60 = drop_bit 60 x"
  by (rule bit_word_eqI) (auto simp: word_bits bit_simps dest: bit_imp_le_length)

lemma mmu_sv39: "mmu m vaddr = sv39 m vaddr"
  by (simp add: mmu_def sv39_def priv_def Let_def sv39_walk_0 sv39_walk_1 sv39_walk_2
      walk_index [of 30 2] walk_index [of 21 "Suc 0"] walk_index [of 12 0]
      BITS_63_60 BITS_eq_take_bit [of _ 43 0] cong: if_cong)

end
