(* ===== verification/Execute.thy ===== *)
theory Execute
  imports Decode Trap Mmu "HOL-Library.Signed_Division"
begin

text \<open>
  \<open>execute.c\<close>: one function with a case for each operation.  Here each run of like cases is a
  definition, \<open>exec_op\<close> selects among them, and \<open>execute\<close> adds the write-back at the end of the
  C function.  The local variables \<open>rd_val\<close>, \<open>frd_val\<close>, \<open>is_frd\<close>, \<open>ret_pc\<close> and \<open>has_except\<close> are
  the result of a case.

  C semantics: a conversion to a narrower type keeps the low bits, a right shift of a signed
  value copies the sign, as GCC documents; a signed sum, difference or product that does not
  fit its type, a shift by the width or more, and a floating value out of the range of the
  integer type it is converted to are undefined.
\<close>

section \<open>The local variables at the end of a case\<close>

text \<open>
  \<open>Rd_none\<close>: \<open>rd_val\<close> was not assigned.  \<open>Frd v\<close>: \<open>is_frd\<close> is set and \<open>frd_val\<close> is \<open>v\<close>; every
  floating value here comes from a conversion of an unsigned integer, so it is a natural
  number.
\<close>

datatype dest = Rd_none | Rd u64 | Frd nat

type_synonym exec_result = "(dest \<times> u64 \<times> bool \<times> machine) result"

text \<open>The end shared by the cases that access memory: an exception replaces \<open>ret_pc\<close>.\<close>

definition after_access ::
  "dest \<Rightarrow> u64 \<Rightarrow> u64 \<Rightarrow> u64 \<Rightarrow> u64 \<Rightarrow> bool \<Rightarrow> machine \<Rightarrow> exec_result" where
  "after_access dst pc next_pc cause tval has_except m =
    (if has_except then
       and_then (raise_except pc cause tval m) (\<lambda>(ret_pc, m). Inr (dst, ret_pc, True, m))
     else Inr (dst, next_pc, False, m))"

section \<open>Jumps and branches\<close>

definition branch_taken :: "branch_op \<Rightarrow> u64 \<Rightarrow> u64 \<Rightarrow> bool" where
  "branch_taken op a b = (case op of
      BEQ \<Rightarrow> a = b
    | BNE \<Rightarrow> a \<noteq> b
    | BLT \<Rightarrow> a <s b
    | BGE \<Rightarrow> b \<le>s a
    | BLTU \<Rightarrow> a < b
    | BGEU \<Rightarrow> b \<le> a)"

definition exec_branch :: "branch_op \<Rightarrow> u64 \<Rightarrow> u64 \<Rightarrow> decoded \<Rightarrow> machine \<Rightarrow> exec_result" where
  "exec_branch op pc next_pc d m =
     Inr (Rd_none,
       if branch_taken op (m_reg m (d_rs1 d)) (m_reg m (d_rs2 d)) then pc + d_imm d else next_pc,
       False, m)"

section \<open>Loads and stores\<close>

definition load_size :: "load_op \<Rightarrow> u64" where
  "load_size op = (case op of LB \<Rightarrow> 1 | LH \<Rightarrow> 2 | LW \<Rightarrow> 4 | LD \<Rightarrow> 8 | LBU \<Rightarrow> 1 | LHU \<Rightarrow> 2 | LWU \<Rightarrow> 4)"

definition load_value :: "load_op \<Rightarrow> u64 \<Rightarrow> u64" where
  "load_value op v = (case op of
      LB \<Rightarrow> scast (ucast v :: u8)
    | LH \<Rightarrow> scast (ucast v :: u16)
    | LW \<Rightarrow> scast (ucast v :: u32)
    | LD \<Rightarrow> v
    | LBU \<Rightarrow> ucast (ucast v :: u8)
    | LHU \<Rightarrow> ucast (ucast v :: u16)
    | LWU \<Rightarrow> ucast (ucast v :: u32))"

definition exec_load :: "load_op \<Rightarrow> u64 \<Rightarrow> u64 \<Rightarrow> decoded \<Rightarrow> machine \<Rightarrow> exec_result" where
  "exec_load op pc next_pc d m =
    (let addr = m_reg m (d_rs1 d) + d_imm d in
     and_then (as_read m addr (load_size op)) (\<lambda>(v, has_except, m).
       after_access (Rd (load_value op v)) pc next_pc CAUSE_LOAD_PAGE_FAULT addr has_except m))"

definition store_size :: "store_op \<Rightarrow> u64" where
  "store_size op = (case op of SB \<Rightarrow> 1 | SH \<Rightarrow> 2 | SW \<Rightarrow> 4 | SD \<Rightarrow> 8)"

definition exec_store :: "nat \<Rightarrow> store_op \<Rightarrow> u64 \<Rightarrow> u64 \<Rightarrow> decoded \<Rightarrow> machine \<Rightarrow> exec_result" where
  "exec_store fuel op pc next_pc d m =
    (let addr = m_reg m (d_rs1 d) + d_imm d in
     and_then (as_write fuel m addr (store_size op) (m_reg m (d_rs2 d)) PARAMS_NONE)
       (\<lambda>(_, has_except, m).
         after_access Rd_none pc next_pc CAUSE_STORE_PAGE_FAULT addr has_except m))"

section \<open>Integer arithmetic\<close>

text \<open>A signed result of \<open>LENGTH('a)\<close> bits, undefined when it does not fit.\<close>

definition signed_result :: "int \<Rightarrow> 'a::len word result" where
  "signed_result i =
    (if - (2 ^ (LENGTH('a) - 1)) \<le> i \<and> i < 2 ^ (LENGTH('a) - 1) then Inr (word_of_int i)
     else Inl (UB ''execute''))"

definition int32 :: "u64 \<Rightarrow> int" where
  "int32 x = sint (ucast x :: u32)"

definition bool_u64 :: "bool \<Rightarrow> u64" where
  "bool_u64 b = (if b then 1 else 0)"

definition word_result :: "u32 result \<Rightarrow> u64 result" where
  "word_result r = and_then r (\<lambda>w. Inr (TO_WORD (scast w)))"

definition alu_imm :: "imm_op \<Rightarrow> u64 \<Rightarrow> u64 \<Rightarrow> u64 result" where
  "alu_imm op a imm = (case op of
      ADDI \<Rightarrow> Inr (a + imm)
    | ADDIW \<Rightarrow> word_result (signed_result (int32 a + int32 imm))
    | SLTI \<Rightarrow> Inr (bool_u64 (a <s imm))
    | SLTIU \<Rightarrow> Inr (bool_u64 (a < imm))
    | SLLI \<Rightarrow> Inr (push_bit (unat (BITS imm 5 0)) a)
    | SLLIW \<Rightarrow> Inr (TO_WORD (ucast (push_bit (unat (BITS imm 4 0)) (ucast a :: u32))))
    | XORI \<Rightarrow> Inr (a XOR imm)
    | SRLI \<Rightarrow> Inr (drop_bit (unat (BITS imm 5 0)) a)
    | SRLIW \<Rightarrow> Inr (TO_WORD (ucast (drop_bit (unat (BITS imm 4 0)) (ucast a :: u32))))
    | SRAI \<Rightarrow> Inr (signed_drop_bit (unat (BITS imm 5 0)) a)
    | SRAIW \<Rightarrow>
        if 32 \<le> BITS imm 5 0 then Inl (UB ''execute'')
        else Inr (scast (signed_drop_bit (unat (BITS imm 5 0)) (ucast a :: u32)))
    | ORI \<Rightarrow> Inr (a OR imm)
    | ANDI \<Rightarrow> Inr (a AND imm))"

definition alu_reg :: "reg_op \<Rightarrow> u64 \<Rightarrow> u64 \<Rightarrow> u64 result" where
  "alu_reg op a b = (case op of
      ADD \<Rightarrow> Inr (a + b)
    | SLT \<Rightarrow> Inr (bool_u64 (a <s b))
    | SLTU \<Rightarrow> Inr (bool_u64 (a < b))
    | ADDW \<Rightarrow> word_result (signed_result (int32 a + int32 b))
    | SUB \<Rightarrow> Inr (a - b)
    | SUBW \<Rightarrow> word_result (signed_result (int32 a - int32 b))
    | SLL \<Rightarrow> Inr (push_bit (unat (BITS b 5 0)) a)
    | SLLW \<Rightarrow> Inr (TO_WORD (ucast (push_bit (unat (BITS b 4 0)) (ucast a :: u32))))
    | XOR_R \<Rightarrow> Inr (a XOR b)
    | SRL \<Rightarrow> Inr (drop_bit (unat (BITS b 5 0)) a)
    | SRLW \<Rightarrow> Inr (TO_WORD (ucast (drop_bit (unat (BITS b 4 0)) (ucast a :: u32))))
    | SRA \<Rightarrow> Inr (signed_drop_bit (unat (BITS b 5 0)) a)
    | SRAW \<Rightarrow>
        if 32 \<le> BITS b 5 0 then Inl (UB ''execute'')
        else Inr (scast (signed_drop_bit (unat (BITS b 5 0)) (ucast a :: u32)))
    | OR_R \<Rightarrow> Inr (a OR b)
    | AND_R \<Rightarrow> Inr (a AND b))"

text \<open>
  \<open>MULH\<close> and \<open>MULHSU\<close> convert the unsigned registers to \<open>__int128\<close>, so both operands are
  non-negative there; their product is signed and may not fit.
\<close>

definition mul128 :: "u64 \<Rightarrow> u64 \<Rightarrow> u64 result" where
  "mul128 a b =
    (if uint a * uint b < 2 ^ 127 then Inr (word_of_int ((uint a * uint b) div 2 ^ 64))
     else Inl (UB ''execute''))"

definition muldiv :: "muldiv_op \<Rightarrow> u64 \<Rightarrow> u64 \<Rightarrow> u64 result" where
  "muldiv op a b =
    (let a32 = (ucast a :: u32); b32 = (ucast b :: u32) in
     case op of
      MUL \<Rightarrow> signed_result (sint a * sint b)
    | MULH \<Rightarrow> mul128 a b
    | MULHSU \<Rightarrow> mul128 a b
    | MULHU \<Rightarrow> Inr (word_of_int ((uint a * uint b) div 2 ^ 64))
    | DIV \<Rightarrow>
        if b = 0 then Inr (- 1)
        else if b = - 1 \<and> a = push_bit 63 1 then Inr (push_bit 63 1)
        else Inr (word_of_int (sint a sdiv sint b))
    | DIVU \<Rightarrow> Inr (if b = 0 then - 1 else a div b)
    | REM \<Rightarrow>
        if b = 0 then Inr a
        else if b = - 1 \<and> a = push_bit 63 1 then Inr 0
        else Inr (word_of_int (sint a smod sint b))
    | REMU \<Rightarrow> Inr (if b = 0 then a else a mod b)
    | MULW \<Rightarrow> word_result (signed_result (sint a32 * sint b32))
    | DIVW \<Rightarrow>
        if b32 = 0 then Inr (- 1)
        else if b32 = - 1 \<and> a32 = push_bit 31 1 then Inr (scast (push_bit 31 1 :: u32))
        else word_result (Inr (word_of_int (sint a32 sdiv sint b32)))
    | DIVUW \<Rightarrow> Inr (if b32 = 0 then ucast (- 1 :: u32) else TO_WORD (ucast (a32 div b32)))
    | REMW \<Rightarrow>
        if b32 = 0 then Inr (scast a32)
        else if b32 = - 1 \<and> a32 = push_bit 31 1 then Inr 0
        else word_result (Inr (word_of_int (sint a32 smod sint b32)))
    | REMUW \<Rightarrow> Inr (if b32 = 0 then ucast a32 else TO_WORD (ucast (a32 mod b32))))"

text \<open>A case that only computes \<open>rd_val\<close>.\<close>

definition exec_value :: "u64 result \<Rightarrow> u64 \<Rightarrow> machine \<Rightarrow> exec_result" where
  "exec_value r next_pc m = and_then r (\<lambda>v. Inr (Rd v, next_pc, False, m))"

section \<open>System instructions\<close>

definition exec_csr :: "csr_op \<Rightarrow> u64 \<Rightarrow> u64 \<Rightarrow> decoded \<Rightarrow> machine \<Rightarrow> exec_result" where
  "exec_csr op pc next_pc d m =
    (let operand = (if op \<in> {CSRRW, CSRRS, CSRRC} then m_reg m (d_rs1 d) else d_imm d);
         type = (if op \<in> {CSRRW, CSRRWI} then CSR_OP_WRITE
                 else if op \<in> {CSRRS, CSRRSI} then CSR_OP_SET else CSR_OP_CLEAR) in
     and_then (csr_update (d_csr_addr d) operand type m) (\<lambda>(v, has_except, m).
       after_access (Rd v) pc next_pc CAUSE_ILLEGAL_INST 0 has_except m))"

definition exec_ecall :: "u64 \<Rightarrow> machine \<Rightarrow> exec_result" where
  "exec_ecall pc m =
     and_then (raise_except pc (CAUSE_ECALL_FROM_U_MODE + ucast (priv m)) 0 m)
       (\<lambda>(ret_pc, m). Inr (Rd_none, ret_pc, False, m))"

definition exec_xret :: "op_t \<Rightarrow> machine \<Rightarrow> exec_result" where
  "exec_xret op m = and_then (trap_exit op m) (\<lambda>(ret_pc, m). Inr (Rd_none, ret_pc, False, m))"

section \<open>Atomic memory operations\<close>

definition amo_size :: "amo_op \<Rightarrow> u64" where
  "amo_size op =
    (if op \<in> {LR_D, SC_D, AMO_ADD_D, AMO_SWAP_D, AMO_XOR_D, AMO_OR_D, AMO_AND_D, AMO_MIN_D,
              AMO_MAX_D, AMO_MINU_D, AMO_MAXU_D} then 8 else 4)"

definition amo_params :: "amo_op \<Rightarrow> params_t" where
  "amo_params op = (case op of
      LR_D \<Rightarrow> PARAMS_LR_SC | SC_D \<Rightarrow> PARAMS_LR_SC | AMO_ADD_D \<Rightarrow> PARAMS_AMO_ADD
    | AMO_SWAP_D \<Rightarrow> PARAMS_AMO_SWAP | AMO_XOR_D \<Rightarrow> PARAMS_AMO_XOR | AMO_OR_D \<Rightarrow> PARAMS_AMO_OR
    | AMO_AND_D \<Rightarrow> PARAMS_AMO_AND | AMO_MIN_D \<Rightarrow> PARAMS_AMO_MIN | AMO_MAX_D \<Rightarrow> PARAMS_AMO_MAX
    | AMO_MINU_D \<Rightarrow> PARAMS_AMO_MINU | AMO_MAXU_D \<Rightarrow> PARAMS_AMO_MAXU
    | LR_W \<Rightarrow> PARAMS_LR_SC | SC_W \<Rightarrow> PARAMS_LR_SC | AMO_ADD_W \<Rightarrow> PARAMS_AMO_ADD
    | AMO_SWAP_W \<Rightarrow> PARAMS_AMO_SWAP | AMO_XOR_W \<Rightarrow> PARAMS_AMO_XOR | AMO_OR_W \<Rightarrow> PARAMS_AMO_OR
    | AMO_AND_W \<Rightarrow> PARAMS_AMO_AND | AMO_MIN_W \<Rightarrow> PARAMS_AMO_MIN | AMO_MAX_W \<Rightarrow> PARAMS_AMO_MAX
    | AMO_MINU_W \<Rightarrow> PARAMS_AMO_MINU | AMO_MAXU_W \<Rightarrow> PARAMS_AMO_MAXU)"

definition exec_amo :: "nat \<Rightarrow> amo_op \<Rightarrow> u64 \<Rightarrow> u64 \<Rightarrow> decoded \<Rightarrow> machine \<Rightarrow> exec_result" where
  "exec_amo fuel op pc next_pc d m =
    (let addr = m_reg m (d_rs1 d) in
     and_then
       (if op = LR_D then as_read m addr 8
        else if op = LR_W then
          and_then (as_read m addr 4) (\<lambda>(v, has_except, m). Inr (scast (ucast v :: u32), has_except, m))
        else as_write fuel m addr (amo_size op) (m_reg m (d_rs2 d)) (amo_params op))
       (\<lambda>(v, has_except, m).
          after_access (Rd v) pc next_pc CAUSE_STORE_PAGE_FAULT addr has_except m))"

section \<open>Floating-point moves\<close>

text \<open>
  The conversion of an unsigned integer to \<open>float\<close> (24 significant bits) or \<open>double\<close> (53):
  round to nearest, ties to even, the mode C programs start in.
\<close>

fun nat_length :: "nat \<Rightarrow> nat" where
  "nat_length n = (if n = 0 then 0 else Suc (nat_length (n div 2)))"

declare nat_length.simps [simp del]

definition round_sig :: "nat \<Rightarrow> nat \<Rightarrow> nat" where
  "round_sig p n =
    (let e = nat_length n - p in
     if e = 0 then n
     else
       let q = n div 2 ^ e; r = n mod 2 ^ e; half = 2 ^ (e - 1) in
       if half < r \<or> r = half \<and> odd q then (q + 1) * 2 ^ e else q * 2 ^ e)"

definition to_float :: "u64 \<Rightarrow> nat" where
  "to_float v = round_sig 24 (unat v)"

definition to_double :: "u64 \<Rightarrow> nat" where
  "to_double v = round_sig 53 (unat v)"

text \<open>A floating value converted to \<open>uint64_t\<close>.\<close>

definition to_u64 :: "nat \<Rightarrow> u64 result" where
  "to_u64 n = (if n < 2 ^ 64 then Inr (word_of_nat n) else Inl (UB ''execute''))"

definition exec_fp :: "nat \<Rightarrow> op_t \<Rightarrow> u64 \<Rightarrow> u64 \<Rightarrow> decoded \<Rightarrow> machine \<Rightarrow> exec_result" where
  "exec_fp fuel op pc next_pc d m =
    (let addr = m_reg m (d_rs1 d) + d_imm d in
     if op = FLW then
       and_then (as_read m addr 4) (\<lambda>(v, has_except, m).
         after_access (Frd (to_float v)) pc next_pc CAUSE_STORE_PAGE_FAULT addr has_except m)
     else if op = FSW then
       and_then (to_u64 (to_float (m_reg m (d_rs2 d)))) (\<lambda>data.
       and_then (as_write fuel m addr 4 data PARAMS_NONE) (\<lambda>(_, has_except, m).
         after_access Rd_none pc next_pc CAUSE_STORE_PAGE_FAULT addr has_except m))
     else if op = FMV_W_X then Inr (Frd (to_float (m_reg m (d_rs1 d))), next_pc, False, m)
     else if op = FLD then
       and_then (as_read m addr 8) (\<lambda>(v, has_except, m).
         after_access (Frd (to_double v)) pc next_pc CAUSE_STORE_PAGE_FAULT addr has_except m)
     else
       and_then (as_write fuel m addr 8 (m_freg m (d_rs2 d)) PARAMS_NONE) (\<lambda>(_, has_except, m).
         after_access Rd_none pc next_pc CAUSE_STORE_PAGE_FAULT addr has_except m))"

section \<open>One instruction\<close>

definition exec_op :: "nat \<Rightarrow> u64 \<Rightarrow> u64 \<Rightarrow> decoded \<Rightarrow> machine \<Rightarrow> exec_result" where
  "exec_op fuel pc next_pc d m =
    (let a = m_reg m (d_rs1 d); b = m_reg m (d_rs2 d); imm = d_imm d in
     case d_op d of
      NOP \<Rightarrow> Inr (Rd_none, next_pc, False, m)
    | LUI \<Rightarrow> Inr (Rd imm, next_pc, False, m)
    | AUIPC \<Rightarrow> Inr (Rd (pc + imm), next_pc, False, m)
    | JAL \<Rightarrow> Inr (Rd next_pc, pc + imm, False, m)
    | JALR \<Rightarrow> Inr (Rd next_pc, a + imm, False, m)
    | OpBranch op \<Rightarrow> exec_branch op pc next_pc d m
    | OpLoad op \<Rightarrow> exec_load op pc next_pc d m
    | OpStore op \<Rightarrow> exec_store fuel op pc next_pc d m
    | OpImm op \<Rightarrow> exec_value (alu_imm op a imm) next_pc m
    | OpReg op \<Rightarrow> exec_value (alu_reg op a b) next_pc m
    | FENCE \<Rightarrow> Inr (Rd_none, next_pc, False, m)
    | FENCE_I \<Rightarrow> Inr (Rd_none, next_pc, False, m)
    | ECALL \<Rightarrow> exec_ecall pc m
    | EBREAK \<Rightarrow> Inl (Panic ''execute'')
    | URET \<Rightarrow> exec_xret URET m
    | SRET \<Rightarrow> exec_xret SRET m
    | MRET \<Rightarrow> exec_xret MRET m
    | WFI \<Rightarrow> Inr (Rd_none, next_pc, False, m)
    | SFENCE_VMA \<Rightarrow> Inr (Rd_none, next_pc, False, m)
    | OpCsr op \<Rightarrow> exec_csr op pc next_pc d m
    | OpMulDiv op \<Rightarrow> exec_value (muldiv op a b) next_pc m
    | OpAmo op \<Rightarrow> exec_amo fuel op pc next_pc d m
    | FLW \<Rightarrow> exec_fp fuel FLW pc next_pc d m
    | FSW \<Rightarrow> exec_fp fuel FSW pc next_pc d m
    | FMV_W_X \<Rightarrow> exec_fp fuel FMV_W_X pc next_pc d m
    | FLD \<Rightarrow> exec_fp fuel FLD pc next_pc d m
    | FSD \<Rightarrow> exec_fp fuel FSD pc next_pc d m)"

text \<open>
  The write-back.  Without an exception a case that has not assigned \<open>rd_val\<close> must have
  \<open>rd = 0\<close>: otherwise an uninitialised variable is written to a register.
\<close>

definition write_back :: "u32 \<Rightarrow> dest \<Rightarrow> bool \<Rightarrow> machine \<Rightarrow> machine result" where
  "write_back rd dst has_except m =
    (if has_except then Inr m
     else case dst of
       Frd v \<Rightarrow> and_then (to_u64 v) (\<lambda>w. Inr (m\<lparr>m_freg := (m_freg m)(rd := w)\<rparr>))
     | Rd v \<Rightarrow> Inr (if rd \<noteq> 0 then m\<lparr>m_reg := (m_reg m)(rd := v)\<rparr> else m)
     | Rd_none \<Rightarrow> if rd \<noteq> 0 then Inl (UB ''execute'') else Inr m)"

definition execute :: "nat \<Rightarrow> u64 \<Rightarrow> u64 \<Rightarrow> decoded \<Rightarrow> machine \<Rightarrow> (u64 \<times> machine) result" where
  "execute fuel pc next_pc d m =
    and_then (exec_op fuel pc next_pc d m) (\<lambda>(dst, ret_pc, has_except, m).
    and_then (write_back (d_rd d) dst has_except m) (\<lambda>m. Inr (ret_pc, m)))"

end
