(* ===== verification/Invariant.thy ===== *)
theory Invariant
  imports Bus
begin

text \<open>
  What a bus access can change.  \<open>bus_keeps m m'\<close> says that the registers of the core, the
  privilege level, the CSRs and the bus are the same in both states, and that the devices
  keep their invariant \<open>devices_inv\<close>; every access, and the device threads, satisfy it.
\<close>

definition virtio_inv :: "virtio_blk_t \<Rightarrow> bool" where
  "virtio_inv d \<longleftrightarrow>
     vdev_irq_num d = 1 \<and> guest_page_shift d \<le> 31 \<and> length (vdev_config d) = 256"

definition devices_inv :: "machine \<Rightarrow> bool" where
  "devices_inv m \<longleftrightarrow>
     uart_inv (m_uart m, m_plic m) \<and> virtio_inv (m_blk m) \<and>
     ram_size (m_ram m) = 0x80000000 \<and>
     rom_size (m_rom m) \<le> ROM_ADDRESS_SPACE_SIZE \<and>
     flash_size (m_flash m) \<le> FLASH_ADDRESS_SPACE_SIZE \<and>
     m_vmmio m = BLK_BACKEND # replicate 7 NO_BACKEND"

definition same_core :: "machine \<Rightarrow> machine \<Rightarrow> bool" where
  "same_core m m' \<longleftrightarrow>
     m_reg m' = m_reg m \<and> m_freg m' = m_freg m \<and> m_pc m' = m_pc m \<and>
     cur_priv m' = cur_priv m \<and> csrs m' = csrs m \<and> m_as m' = m_as m"

definition bus_keeps :: "machine \<Rightarrow> machine \<Rightarrow> bool" where
  "bus_keeps m m' \<longleftrightarrow> same_core m m' \<and> (devices_inv m \<longrightarrow> devices_inv m')"

text \<open>The results that end in a state the step keeps, with and without a value.\<close>

definition keeps1 :: "machine \<Rightarrow> machine result \<Rightarrow> bool" where
  "keeps1 m r \<longleftrightarrow> succeeds (bus_keeps m) r"

definition keeps2 :: "machine \<Rightarrow> ('a \<times> machine) result \<Rightarrow> bool" where
  "keeps2 m r \<longleftrightarrow> succeeds (\<lambda>(v, m'). bus_keeps m m') r"

lemma bus_keeps_refl [simp, keeps]: "bus_keeps m m"
  by (simp add: bus_keeps_def same_core_def)

lemma bus_keeps_trans: "bus_keeps m m' \<Longrightarrow> bus_keeps m' m'' \<Longrightarrow> bus_keeps m m''"
  by (simp add: bus_keeps_def same_core_def)

lemma keeps_Inl [simp, keeps]: "keeps1 m (Inl e)" "keeps2 m (Inl e)"
  by (simp_all add: keeps1_def keeps2_def)

lemma keeps_Inr [simp]: "keeps1 m (Inr m') = bus_keeps m m'" "keeps2 m (Inr (v, m')) = bus_keeps m m'"
  by (simp_all add: keeps1_def keeps2_def)

lemma keeps_weaken:
  "bus_keeps m m' \<Longrightarrow> keeps2 m' r \<Longrightarrow> keeps2 m r"
  "bus_keeps m m' \<Longrightarrow> keeps1 m' r' \<Longrightarrow> keeps1 m r'"
  by (auto simp: keeps1_def keeps2_def elim!: succeeds_mono intro: bus_keeps_trans)

lemma keeps_and_then:
  "keeps2 m r \<Longrightarrow> (\<And>v m'. keeps2 m' (f (v, m'))) \<Longrightarrow> keeps2 m (and_then r f)"
  "keeps2 m r \<Longrightarrow> (\<And>v m'. keeps1 m' (g (v, m'))) \<Longrightarrow> keeps1 m (and_then r g)"
  "keeps1 m r' \<Longrightarrow> (\<And>m'. keeps2 m' (h m')) \<Longrightarrow> keeps2 m (and_then r' h)"
  "keeps1 m r' \<Longrightarrow> (\<And>m'. keeps1 m' (k m')) \<Longrightarrow> keeps1 m (and_then r' k)"
  by ((cases r; auto intro: keeps_weaken)+, (cases r'; auto intro: keeps_weaken)+)

text \<open>A step whose result does not carry the machine.\<close>

lemma keeps_and_then_pure:
  "(\<And>v. r = Inr v \<Longrightarrow> keeps2 m (f v)) \<Longrightarrow> keeps2 m (and_then r f)"
  "(\<And>v. r = Inr v \<Longrightarrow> keeps1 m (g v)) \<Longrightarrow> keeps1 m (and_then r g)"
  by (cases r; simp)+

lemma keeps_if:
  "(b \<Longrightarrow> keeps2 m r) \<Longrightarrow> (\<not> b \<Longrightarrow> keeps2 m s) \<Longrightarrow> keeps2 m (if b then r else s)"
  "(b \<Longrightarrow> keeps1 m r') \<Longrightarrow> (\<not> b \<Longrightarrow> keeps1 m s') \<Longrightarrow> keeps1 m (if b then r' else s')"
  by simp_all

section \<open>Reads\<close>

lemma bus_keeps_host: "same_but_reads m m' \<Longrightarrow> bus_keeps m m'"
  by (auto simp: same_but_reads_def bus_keeps_def same_core_def devices_inv_def)

lemma rtc_read_host: "succeeds (\<lambda>(v, r', h'). same_but_reads h h') (rtc_read r addr sz h)"
  by (simp add: rtc_read_def get_clock_realtime_def Let_def) (auto simp: same_but_reads_def)

lemma bus_read_op_keeps: "keeps2 m (bus_read_op bop addr sz m)"
proof (cases bop)
  case rtc_op
  have "bus_keeps m (m'\<lparr>m_rtc := r\<rparr>)" if "same_but_reads m m'" for m' r
    using bus_keeps_host [OF that] by (simp add: bus_keeps_def same_core_def devices_inv_def)
  then show ?thesis
    using rtc_read_host [of m "m_rtc m" addr sz]
    by (auto simp: rtc_op keeps2_def split_def elim!: succeeds_mono)
next
  case plic_op
  have "plic_inv (m_plic m) \<Longrightarrow> succeeds (\<lambda>(v, p'). plic_inv p') (plic_read (m_plic m) addr sz)"
    by (rule plic_read_keeps)
  then show ?thesis
    by (cases "plic_read (m_plic m) addr sz")
       (auto simp: plic_op with_snd_def bus_keeps_def same_core_def devices_inv_def uart_inv_def)
next
  case uart_op
  have "uart_inv (m_uart m, m_plic m) \<Longrightarrow>
      succeeds (\<lambda>(v, s'). uart_inv s') (uart_read (m_uart m) (m_plic m) addr sz)"
    by (rule uart_read_keeps)
  then show ?thesis
    by (cases "uart_read (m_uart m) (m_plic m) addr sz")
       (auto simp: uart_op bus_keeps_def same_core_def devices_inv_def)
qed (auto simp: with_snd_def clint_read_def intro!: keeps_and_then_pure)

lemma bus_read_keeps [keeps]: "keeps2 m (bus_read m addr sz)"
  unfolding bus_read_def keeps2_def
  by (rule succeeds_as_read_nommu) (rule bus_read_op_keeps [unfolded keeps2_def])

section \<open>The virtqueue and the block device\<close>

definition keeps_wr :: "bus_wr \<Rightarrow> bool" where
  "keeps_wr wr \<longleftrightarrow> (\<forall>m a v sz. keeps2 m (wr m a v sz))"

lemma keeps_wrD: "keeps_wr wr \<Longrightarrow> keeps2 m (wr m a v sz)"
  by (simp add: keeps_wr_def)

lemma map_vq_keeps [simp]: "bus_keeps m (map_vq f m)"
  by (simp add: map_vq_def bus_keeps_def same_core_def devices_inv_def virtio_inv_def)

lemma read_blob_bytes_keeps: "keeps2 m (read_blob_bytes bus_read addr n m)"
proof (induction n arbitrary: addr m)
  case (Suc n)
  then show ?case
    by (auto intro!: keeps_and_then bus_read_keeps simp: split_def)
qed simp

lemma read_blob_dwords_keeps: "keeps2 m (read_blob_dwords bus_read addr n m)"
proof (induction n arbitrary: addr m rule: less_induct)
  case (less n)
  show ?case
    by (subst read_blob_dwords.simps)
       (auto intro!: keeps_if keeps_and_then bus_read_keeps read_blob_bytes_keeps less)
qed

lemma as_read_blob_keeps [keeps]: "keeps2 m (as_read_blob bus_read addr n m)"
  by (simp add: as_read_blob_def read_blob_dwords_keeps)

lemma write_blob_bytes_keeps: "keeps_wr wr \<Longrightarrow> keeps1 m (write_blob_bytes wr addr bs m)"
proof (induction bs arbitrary: addr m)
  case (Cons b bs)
  then show ?case
    by (auto intro!: keeps_and_then keeps_wrD)
qed simp

lemma write_blob_dwords_keeps: "keeps_wr wr \<Longrightarrow> keeps1 m (write_blob_dwords wr addr bs m)"
proof (induction "length bs" arbitrary: addr m bs rule: less_induct)
  case less
  show ?case
  proof (cases "8 \<le> length bs")
    case True
    then have "keeps1 m' (write_blob_dwords wr (addr + 8) (drop 8 bs) m')" for m'
      using less by simp
    with less.prems show ?thesis
      by (subst write_blob_dwords.simps)
         (auto intro!: keeps_and_then keeps_wrD write_blob_bytes_keeps)
  next
    case False
    with less.prems show ?thesis
      by (subst write_blob_dwords.simps) (simp add: write_blob_bytes_keeps)
  qed
qed

lemma as_write_blob_keeps: "keeps_wr wr \<Longrightarrow> keeps1 m (as_write_blob wr addr bs m)"
  by (simp add: as_write_blob_def write_blob_dwords_keeps)

lemma vring_avail_idx_keeps [keeps]: "keeps2 m (vring_avail_idx bus_read m)"
  unfolding vring_avail_idx_def by (auto intro!: keeps_and_then keeps)

lemma queue_empty_keeps [keeps]: "keeps2 m (virtio_queue_empty bus_read m)"
  unfolding virtio_queue_empty_def by (auto intro!: keeps_and_then keeps)

lemma get_head_keeps [keeps]: "keeps2 m (vqueue_get_head bus_read idx m)"
  unfolding vqueue_get_head_def vring_avail_ring_def
  by (auto intro!: keeps_if keeps_and_then keeps simp: Let_def)

lemma desc_read_keeps [keeps]: "keeps2 m (vring_desc_read bus_read idx m)"
  unfolding vring_desc_read_def by (auto intro!: keeps_and_then keeps)

lemma read_chain_keeps: "keeps2 m (read_chain bus_read addr offset iov in_len m)"
proof (induction "VIRTQUEUE_MAX_SIZE - length iov" arbitrary: offset iov in_len m rule: less_induct)
  case less
  show ?case
  proof (cases "VIRTQUEUE_MAX_SIZE \<le> length iov")
    case True
    then show ?thesis by (subst read_chain.simps) simp
  next
    case False
    then have "keeps2 m' (read_chain bus_read addr off (iov @ [x]) n m')" for m' off x n
      by (intro less) simp
    with False show ?thesis
      by (subst read_chain.simps)
         (auto intro!: keeps_and_then keeps simp: Let_def)
  qed
qed

lemma read_indirect_keeps [keeps]:
  "keeps2 m (vring_desc_read_indirect bus_read head addr len m)"
  unfolding vring_desc_read_indirect_def
  by (auto intro!: keeps_if keeps_and_then read_chain_keeps simp: split_def)

lemma vqueue_pop_keeps:
  assumes "keeps_wr wr"
  shows "keeps2 m (vqueue_pop bus_read wr m)"
proof -
  have ev: "keeps1 m' (if virtio_dev_has_feature VIRTIO_RING_F_EVENT_IDX m'
      then vring_set_avail_event wr (last_avail_idx (the_vq m')) m' else Inr m')" for m'
    using assms by (auto simp: vring_set_avail_event_def intro!: keeps_and_then keeps_wrD)
  show ?thesis
    unfolding vqueue_pop_def Let_def
    by (rule keeps_and_then(1), rule queue_empty_keeps, simp only: prod.case, rule keeps_if(1),
        simp, rule keeps_weaken(1) [OF map_vq_keeps])
       (auto intro!: keeps_if keeps_and_then keeps ev)
qed

lemma used_write_keeps:
  assumes "keeps_wr wr"
  shows "keeps1 m (vring_used_write wr req m)"
proof -
  have "keeps1 m' (vring_used_idx_set wr v m')" for v m'
    unfolding vring_used_idx_set_def using assms by (auto intro!: keeps_and_then keeps_wrD)
  then have "keeps1 m' (vring_used_idx_set wr v (map_vq f m'))" for v f m'
    by (rule keeps_weaken(2) [OF map_vq_keeps])
  with assms show ?thesis
    unfolding vring_used_write_def Let_def by (auto intro!: keeps_if keeps_and_then keeps_wrD)
qed

lemma blk_update_keeps:
  "(virtio_inv (m_blk m) \<Longrightarrow> virtio_inv d) \<Longrightarrow> bus_keeps m (m\<lparr>m_blk := d\<rparr>)"
  by (simp add: bus_keeps_def same_core_def devices_inv_def)

lemma map_blk_keeps:
  "(\<And>d. virtio_inv d \<Longrightarrow> virtio_inv (f d)) \<Longrightarrow> bus_keeps m (map_blk f m)"
  by (simp add: map_blk_def blk_update_keeps)

lemma plic_signal_machine_keeps:
  "keeps1 m (and_then (plic_signal irq (m_plic m)) (\<lambda>p. Inr (m\<lparr>m_plic := p\<rparr>)))"
proof -
  have "plic_inv (m_plic m) \<Longrightarrow> succeeds plic_inv (plic_signal irq (m_plic m))"
    by (rule plic_signal_keeps)
  then show ?thesis
    by (cases "plic_signal irq (m_plic m)")
       (auto simp: bus_keeps_def same_core_def devices_inv_def uart_inv_def)
qed

lemma isr_signal_keeps:
  "keeps1 m (and_then (plic_signal irq (m_plic m)) (\<lambda>p. Inr (m\<lparr>m_blk := (m_blk m)\<lparr>vdev_isr := i\<rparr>, m_plic := p\<rparr>)))"
  using plic_signal_machine_keeps [of "m\<lparr>m_blk := (m_blk m)\<lparr>vdev_isr := i\<rparr>\<rparr>" irq]
  by - (rule keeps_weaken(2) [OF blk_update_keeps [of m "(m_blk m)\<lparr>vdev_isr := i\<rparr>"]],
      simp_all add: virtio_inv_def)

lemma complete_keeps:
  assumes "keeps_wr wr"
  shows "keeps1 m (complete wr req m)"
  unfolding complete_def Let_def
  apply (rule keeps_and_then_pure(2))
  apply (rule keeps_and_then(2))
   apply (rule keeps_wrD [OF assms])
  apply (simp only: prod.case)
  apply (rule keeps_and_then(4))
   apply (rule used_write_keeps [OF assms])
  apply (simp add: isr_signal_keeps)
  done

lemma read_segments_keeps: "keeps_wr wr \<Longrightarrow> keeps1 m (read_segments wr bs pos iovs m)"
proof (induction iovs arbitrary: pos m)
  case (Cons iov iovs)
  then show ?case
    by (auto simp: Let_def intro!: keeps_if keeps_and_then as_write_blob_keeps)
qed simp

lemma keeps_case_option:
  "keeps1 m r \<Longrightarrow> (\<And>x. keeps1 m (f x)) \<Longrightarrow> keeps1 m (case p of None \<Rightarrow> r | Some x \<Rightarrow> f x)"
  by (cases p) simp_all

lemma handle_read_keeps:
  assumes "keeps_wr wr"
  shows "keeps1 m (handle_read wr req sector m)"
  unfolding handle_read_def
  by (rule keeps_if(2), rule keeps_Inl, rule keeps_case_option, rule keeps_Inl,
      rule keeps_and_then_pure(2), rule keeps_and_then(4), rule read_segments_keeps [OF assms],
      rule complete_keeps [OF assms])

lemma complete_file_keeps:
  "keeps_wr wr \<Longrightarrow> keeps1 m (complete wr req (m\<lparr>m_blk := (m_blk m)\<lparr>blk_file := f\<rparr>\<rparr>))"
  by (rule keeps_weaken(2) [OF blk_update_keeps complete_keeps]) (simp_all add: virtio_inv_def)

lemma handle_write_keeps:
  assumes "keeps_wr wr"
  shows "keeps1 m (handle_write bus_read wr req sector m)"
  unfolding handle_write_def
  by (rule keeps_if(2), rule keeps_Inl, rule keeps_and_then_pure(2), rule keeps_and_then(2),
      rule as_read_blob_keeps, simp only: prod.case, rule keeps_case_option, rule keeps_Inl,
      rule keeps_and_then_pure(2), rule complete_file_keeps [OF assms])

lemma do_request_keeps:
  assumes "keeps_wr wr"
  shows "keeps1 m (do_request bus_read wr req m)"
proof -
  have "keeps1 m' (handle_flush wr req m')" for m'
    using complete_keeps [OF assms] by (simp add: handle_flush_def)
  with handle_read_keeps [OF assms] handle_write_keeps [OF assms] show ?thesis
    unfolding do_request_def Let_def
    by - (rule keeps_and_then_pure(2), rule keeps_if(2), rule keeps_Inl, rule keeps_and_then(2),
        rule as_read_blob_keeps, simp)
qed

lemma blk_work_keeps:
  assumes "keeps_wr wr"
  shows "keeps1 m (blk_work bus_read wr m)"
proof -
  have "keeps1 m (do_request bus_read wr req (map_blk (\<lambda>b. b\<lparr>blk_busy := True\<rparr>) m))" for req
    by (rule keeps_weaken(2) [OF map_blk_keeps do_request_keeps [OF assms]])
       (simp add: virtio_inv_def)
  then show ?thesis
    unfolding blk_work_def
    by (intro keeps_case_option keeps_and_then(4)) (auto simp: virtio_inv_def intro!: map_blk_keeps)
qed

lemma blk_take_keeps: "bus_keeps m (blk_take m)"
  by (auto simp: blk_take_def virtio_inv_def intro!: map_blk_keeps)

lemma handle_request_keeps:
  "keeps_wr wr \<Longrightarrow> keeps1 m (virtio_blk_handle_request bus_read wr req m)"
  unfolding virtio_blk_handle_request_def
  by (intro keeps_and_then(4) keeps_if)
     (auto intro!: keeps_and_then(4) blk_work_keeps blk_take_keeps map_blk_keeps simp: virtio_inv_def)

section \<open>Writes\<close>

lemma notify_loop_keeps: "keeps_wr wr \<Longrightarrow> keeps1 m (notify_loop n bus_read wr m)"
proof (induction n arbitrary: m)
  case (Suc n)
  then show ?case
    by (auto intro!: keeps_and_then(2,4) vqueue_pop_keeps keeps_case_option handle_request_keeps)
qed simp

lemma set_page_size_inv: "virtio_inv d \<Longrightarrow> virtio_inv (set_page_size data d)"
  by (auto simp: set_page_size_def virtio_inv_def Let_def not_less)

lemma vring_init_inv:
  "virtio_inv d \<Longrightarrow> virtio_reg_write addr data d = Inr d' \<Longrightarrow> virtio_inv d'"
  unfolding virtio_reg_write_def Let_def
  by (auto split: if_splits simp: and_then_eq_Inr set_page_size_inv)
     (auto simp: virtio_inv_def)

lemma virtio_mmio_write_keeps:
  assumes "keeps_wr wr"
  shows "keeps2 m (virtio_mmio_write fuel bus_read wr i addr data sz m)"
proof -
  have "bus_keeps m (m\<lparr>m_blk := d'\<rparr>)"
    if "deref f (vmmio_vdev m i) = Inr d" "virtio_reg_write addr data d = Inr d'" for f d d'
    using that vring_init_inv [of d addr data d']
    by (auto simp: deref_def vmmio_vdev_def split: option.splits if_splits intro!: blk_update_keeps)
  then have reg: "keeps2 m (and_then (deref f (vmmio_vdev m i)) (\<lambda>d.
      and_then (virtio_reg_write addr data d) (\<lambda>d. Inr (0, m\<lparr>m_blk := d\<rparr>))))" for f
    by - (rule keeps_and_then_pure(1), rule keeps_and_then_pure(1), simp)
  have notify: "keeps2 m (and_then (deref f (vmmio_vdev m i)) (\<lambda>_.
      and_then (notify_loop fuel bus_read wr m) (\<lambda>m. Inr (0, m))))" for f
    by (rule keeps_and_then_pure(1), rule keeps_and_then(3), rule notify_loop_keeps [OF assms]) simp
  show ?thesis
    unfolding virtio_mmio_write_def Let_def by (simp add: reg notify)
qed

lemma bus_write_op_keeps:
  assumes "keeps_wr wr"
  shows "keeps2 m (bus_write_op fuel bus_read wr bop addr data sz params m)"
proof (cases bop)
  case plic_op
  have "plic_inv (m_plic m) \<Longrightarrow> succeeds (\<lambda>(v, p'). plic_inv p') (plic_write (m_plic m) addr data sz)"
    by (rule plic_write_keeps)
  then show ?thesis
    by (cases "plic_write (m_plic m) addr data sz")
       (auto simp: plic_op with_snd_def bus_keeps_def same_core_def devices_inv_def uart_inv_def)
next
  case uart_op
  have "uart_inv (m_uart m, m_plic m) \<Longrightarrow>
      succeeds (\<lambda>(v, s'). uart_inv s') (uart_write (m_uart m) (m_plic m) addr data sz)"
    by (rule uart_write_keeps)
  then show ?thesis
    by (cases "uart_write (m_uart m) (m_plic m) addr data sz")
       (auto simp: uart_op bus_keeps_def same_core_def devices_inv_def)
next
  case clint_op
  have "bus_keeps m (m'\<lparr>m_clint := c\<rparr>)" if "same_but_reads m m'" for m' c
    using bus_keeps_host [OF that] by (simp add: bus_keeps_def same_core_def devices_inv_def)
  moreover have "succeeds (\<lambda>(v, c', h'). same_but_reads m h') (clint_write (m_clint m) addr data sz m)"
    using same_but_reads_clocks(1) [of m] by (auto simp: clint_write_def Let_def split_def)
  ultimately show ?thesis
    by (auto simp: clint_op keeps2_def split_def elim!: succeeds_mono)
next
  case flash_op
  have "succeeds (\<lambda>(v, d'). flash_size d' = flash_size (m_flash m)) (flash_write (m_flash m) addr data sz)"
    by (rule flash_write_size)
  then show ?thesis
    by (cases "flash_write (m_flash m) addr data sz")
       (auto simp: flash_op with_snd_def bus_keeps_def same_core_def devices_inv_def)
next
  case ram_op
  have "succeeds (\<lambda>(v, r'). ram_size r' = ram_size (m_ram m)) (ram_write (m_ram m) addr data sz params)"
    by (simp add: ram_write_def Let_def)
  then show ?thesis
    by (cases "ram_write (m_ram m) addr data sz params")
       (auto simp: ram_op with_snd_def bus_keeps_def same_core_def devices_inv_def)
next
  case pci_host_op
  then show ?thesis
    by (cases "pci_host_write (m_pci m) addr data sz")
       (auto simp: with_snd_def bus_keeps_def same_core_def devices_inv_def)
next
  case (virtio_mmio_op i)
  then show ?thesis by (simp add: virtio_mmio_write_keeps [OF assms])
qed (simp_all add: with_snd_def rtc_write_def)

lemma bus_write_keeps [keeps]: "keeps2 m (bus_write n params m addr data sz)"
proof (induction n arbitrary: m params addr data sz)
  case (Suc n)
  then have "keeps_wr (bus_write n PARAMS_NONE)"
    by (simp add: keeps_wr_def)
  then show ?case
    unfolding bus_write.simps keeps2_def
    by (intro succeeds_as_write_nommu bus_write_op_keeps [unfolded keeps2_def])
qed simp

end
