(* ===== verification/Xemu.thy ===== *)
theory Xemu
  imports Execute Invariant
begin

text \<open>
  \<open>xemu.c\<close>: fetching an instruction, building the machine, and the main loop.  One pass of the
  loop is \<open>cpu_step\<close>.  The emulator runs it beside the receiving thread of the UART, the timer
  thread of the CLINT and the worker of the block device; \<open>sys_step\<close> lets any of them move.
\<close>

section \<open>Fetch\<close>

text \<open>
  The result is the address \<open>fetch\<close> returns (0 when no exception occurred) and the instruction
  it stores through its pointer, which is 0 before the call.
\<close>

definition fetch :: "machine \<Rightarrow> (u64 \<times> u32 \<times> machine) result" where
  "fetch m =
    (let pc = m_pc m in
     if (pc + 2) AND (PAGE_SIZE - 1) \<noteq> 0 then
       and_then (as_read m pc 4) (\<lambda>(v, has_except, m).
         if has_except then
           and_then (raise_except pc CAUSE_INST_PAGE_FAULT pc m) (\<lambda>(r, m). Inr (r, ucast v, m))
         else Inr (0, ucast v, m))
     else
       and_then (as_read m pc 2) (\<lambda>(lo, has_except, m).
         if has_except then
           and_then (raise_except pc CAUSE_INST_PAGE_FAULT pc m) (\<lambda>(r, m). Inr (r, 0, m))
         else
           and_then (as_read m (pc + 2) 2) (\<lambda>(hi, has_except, m).
             if has_except then
               and_then (raise_except pc CAUSE_INST_PAGE_FAULT (pc + 2) m) (\<lambda>(r, m). Inr (r, 0, m))
             else Inr (0, push_bit 16 (ucast hi) OR ucast lo, m))))"

section \<open>The main loop\<close>

definition interrupt_step :: "machine \<Rightarrow> (u64 \<times> machine) result" where
  "interrupt_step m =
     and_then (handle_interrupt (m_pc m) (m_plic m) (m_clint m) m)
       (\<lambda>(r, p, m). Inr (r, m\<lparr>m_plic := p\<rparr>))"

definition cpu_step :: "nat \<Rightarrow> machine \<Rightarrow> machine result" where
  "cpu_step fuel m =
    (if m_pc m < 0x1000 then Inl (Panic ''main'')
     else
       and_then (interrupt_step m) (\<lambda>(next_pc, m).
       if next_pc \<noteq> 0 then Inr (m\<lparr>m_pc := next_pc\<rparr>)
       else
         and_then (fetch m) (\<lambda>(next_pc, inst, m).
         if next_pc \<noteq> 0 then Inr (m\<lparr>m_pc := next_pc\<rparr>)
         else
           and_then (decode (m_pc m) inst) (\<lambda>(next_pc, d).
           and_then (execute fuel (m_pc m) next_pc d m) (\<lambda>(next_pc, m).
             Inr (m\<lparr>m_pc := next_pc\<rparr>))))))"

section \<open>Starting the machine\<close>

text \<open>
  The files \<open>main\<close> loads, each by its contents; \<open>image_mods\<close> are the kernel modules in the order
  \<open>sort_modules\<close> visits them.
\<close>

record image =
  image_bios :: "u8 list option"
  image_dtb :: "u8 list option"
  image_fw :: "u8 list option"
  image_startup :: "u8 list option"
  image_mods :: "u8 list option list"
  image_disk :: "u8 list option"

definition machine_reset :: "host \<Rightarrow> rom_t \<Rightarrow> flash_t \<Rightarrow> virtio_blk_t \<Rightarrow> machine" where
  "machine_reset h rom flash blk =
     \<lparr>h_mono = h_mono h, h_wall = h_wall h, h_tsc = h_tsc h, h_reads = h_reads h,
      cpu_clock_offset = 0, cur_priv = M_MODE, csrs = (\<lambda>_. 0),
      m_reg = (\<lambda>_. 0), m_freg = (\<lambda>_. 0), m_pc = 0x1000, m_as = root_as,
      m_plic = plic_init, m_clint = clint_init, m_uart = uart_init 0xa, m_rtc = rtc_init,
      m_pci = pci_host_init, m_ram = ram_init, m_rom = rom, m_flash = flash,
      m_vmmio = BLK_BACKEND # replicate 7 NO_BACKEND, m_blk = blk\<rparr>"

definition machine_init :: "host \<Rightarrow> image \<Rightarrow> machine result" where
  "machine_init h im =
    and_then (rom_add_file rom_init (image_bios im) 0) (\<lambda>rom.
    and_then (rom_add_file rom (image_dtb im) 0x100) (\<lambda>rom.
    and_then (rom_add_file rom (image_fw im) 0x2000) (\<lambda>rom.
    and_then (flash_load_modules flash_init (image_startup im) (image_mods im)) (\<lambda>flash.
    and_then (virtio_blk_init (image_disk im) 1) (\<lambda>blk.
      Inr (cpu_enable_clock (csr_init (machine_reset h rom flash blk))))))))"

section \<open>The threads together\<close>

inductive sys_step :: "nat \<Rightarrow> machine \<Rightarrow> machine \<Rightarrow> bool" for fuel where
  cpu: "cpu_step fuel m = Inr m' \<Longrightarrow> sys_step fuel m m'"
| uart_rx: "uart_routine ch (m_uart m) (m_plic m) = Inr (u, p) \<Longrightarrow>
    sys_step fuel m (m\<lparr>m_uart := u, m_plic := p\<rparr>)"
| timer: "clint_routine (m_clint m) m = (c, m') \<Longrightarrow> sys_step fuel m (m'\<lparr>m_clint := c\<rparr>)"
| blk_take: "sys_step fuel m (blk_take m)"
| blk_work: "blk_work bus_read (bus_write fuel PARAMS_NONE) m = Inr m' \<Longrightarrow> sys_step fuel m m'"

inductive_cases sys_stepE: "sys_step fuel m m'"

inductive reachable :: "nat \<Rightarrow> host \<Rightarrow> image \<Rightarrow> machine \<Rightarrow> bool" for fuel h im where
  start: "machine_init h im = Inr m \<Longrightarrow> reachable fuel h im m"
| step: "reachable fuel h im m \<Longrightarrow> sys_step fuel m m' \<Longrightarrow> reachable fuel h im m'"

section \<open>The invariant\<close>

definition machine_inv :: "machine \<Rightarrow> bool" where
  "machine_inv m \<longleftrightarrow>
     m_reg m 0 = 0 \<and> cur_priv m < 4 \<and> m_as m = root_as \<and> devices_inv m"

lemma bus_keeps_inv: "bus_keeps m m' \<Longrightarrow> machine_inv m \<Longrightarrow> machine_inv m'"
  by (simp add: bus_keeps_def same_core_def machine_inv_def)

text \<open>
  \<open>exec_keeps m m'\<close>: an instruction, before its write-back, leaves the registers, the program
  counter and the bus as they are, the devices in their invariant, and the level valid.
\<close>

definition exec_keeps :: "machine \<Rightarrow> machine \<Rightarrow> bool" where
  "exec_keeps m m' \<longleftrightarrow>
     m_reg m' = m_reg m \<and> m_freg m' = m_freg m \<and> m_pc m' = m_pc m \<and> m_as m' = m_as m \<and>
     (devices_inv m \<longrightarrow> devices_inv m') \<and> (cur_priv m' = cur_priv m \<or> cur_priv m' < 4)"

lemma exec_keeps_refl [simp]: "exec_keeps m m"
  by (simp add: exec_keeps_def)

lemma exec_keeps_trans: "exec_keeps m m' \<Longrightarrow> exec_keeps m' m'' \<Longrightarrow> exec_keeps m m''"
  by (auto simp: exec_keeps_def)

lemma exec_keeps_bus: "bus_keeps m m' \<Longrightarrow> exec_keeps m m'"
  by (simp add: bus_keeps_def same_core_def exec_keeps_def)

lemma exec_keeps_priv_csrs:
  "p = cur_priv m \<or> p < 4 \<Longrightarrow> exec_keeps m (m\<lparr>h_reads := n, cur_priv := p, csrs := f\<rparr>)"
  by (auto simp: exec_keeps_def devices_inv_def)

lemma exec_keeps_trap:
  assumes "trap_change m m'"
  shows "exec_keeps m m'"
proof -
  from assms obtain p f where "m' = m\<lparr>cur_priv := p, csrs := f\<rparr>" "p = cur_priv m \<or> p < 4"
    unfolding trap_change_def by metis
  then show ?thesis by (auto simp: exec_keeps_def devices_inv_def)
qed

lemma exec_keeps_inv: "exec_keeps m m' \<Longrightarrow> machine_inv m \<Longrightarrow> machine_inv m'"
  by (auto simp: exec_keeps_def machine_inv_def)

lemma sv39_walk_keeps: "keeps2 m (sv39_walk i table vaddr m)"
proof (induction i arbitrary: table m)
  case 0
  show ?case
    by (subst sv39_walk.simps) (auto intro!: keeps_and_then(1) bus_read_keeps)
next
  case (Suc i)
  then show ?case
    by (subst sv39_walk.simps) (auto intro!: keeps_and_then(1) bus_read_keeps)
qed

lemma mmu_keeps: "keeps2 m (mmu m vaddr)"
  by (simp add: mmu_sv39 sv39_def sv39_walk_keeps)

lemma keeps2D: "keeps2 m r \<Longrightarrow> r = Inr (v, m') \<Longrightarrow> bus_keeps m m'"
  by (simp add: keeps2_def)

lemma as_read_keeps: "as_read m vaddr sz = Inr (v, ex, m') \<Longrightarrow> exec_keeps m m'"
  by (auto simp: as_read_def and_then_eq_Inr split: option.splits
      dest!: keeps2D [OF mmu_keeps] keeps2D [OF bus_read_keeps] intro: exec_keeps_bus bus_keeps_trans)

lemma as_write_keeps: "as_write fuel m vaddr sz data params = Inr (v, ex, m') \<Longrightarrow> exec_keeps m m'"
  by (auto simp: as_write_def and_then_eq_Inr split: option.splits
      dest!: keeps2D [OF mmu_keeps] keeps2D [OF bus_write_keeps] intro: exec_keeps_bus bus_keeps_trans)

lemma after_access_keeps:
  "after_access dst pc next_pc cause tval ex m = Inr (dst', r, ex', m') \<Longrightarrow> exec_keeps m m'"
  by (auto simp: after_access_def and_then_eq_Inr split: if_splits
      dest!: raise_except_change intro: exec_keeps_trap)

lemma csr_update_keeps:
  assumes "csr_update a v t m = Inr (w, e, m1)"
  shows "exec_keeps m m1"
proof -
  from succeedsD [OF csr_update_state assms] obtain n f where "m1 = m\<lparr>h_reads := n, csrs := f\<rparr>"
    by auto
  then show ?thesis by (simp add: exec_keeps_def devices_inv_def)
qed

lemma exec_csr_keeps: "exec_csr op pc next_pc d m = Inr (dst, r, ex, m') \<Longrightarrow> exec_keeps m m'"
  unfolding exec_csr_def Let_def and_then_eq_Inr
  by (auto dest!: after_access_keeps csr_update_keeps intro: exec_keeps_trans)

lemma exec_load_keeps: "exec_load op pc next_pc d m = Inr (dst, r, ex, m') \<Longrightarrow> exec_keeps m m'"
  unfolding exec_load_def Let_def and_then_eq_Inr
  by (auto dest!: after_access_keeps as_read_keeps intro: exec_keeps_trans)

lemma exec_store_keeps:
  "exec_store fuel op pc next_pc d m = Inr (dst, r, ex, m') \<Longrightarrow> exec_keeps m m'"
  unfolding exec_store_def Let_def and_then_eq_Inr
  by (auto dest!: after_access_keeps as_write_keeps intro: exec_keeps_trans)

lemma exec_amo_keeps:
  "exec_amo fuel op pc next_pc d m = Inr (dst, r, ex, m') \<Longrightarrow> exec_keeps m m'"
  unfolding exec_amo_def Let_def and_then_eq_Inr
  by (auto simp: and_then_eq_Inr split: if_splits
      dest!: after_access_keeps as_read_keeps as_write_keeps intro: exec_keeps_trans)

lemma exec_fp_keeps:
  "exec_fp fuel op pc next_pc d m = Inr (dst, r, ex, m') \<Longrightarrow> exec_keeps m m'"
  unfolding exec_fp_def Let_def
  by (auto simp: and_then_eq_Inr split: if_splits
      dest!: after_access_keeps as_read_keeps as_write_keeps intro: exec_keeps_trans)

lemma exec_ecall_keeps: "exec_ecall pc m = Inr (dst, r, ex, m') \<Longrightarrow> exec_keeps m m'"
  by (auto simp: exec_ecall_def and_then_eq_Inr dest!: raise_except_change intro: exec_keeps_trap)

lemma exec_xret_keeps: "exec_xret op m = Inr (dst, r, ex, m') \<Longrightarrow> exec_keeps m m'"
  by (auto simp: exec_xret_def and_then_eq_Inr dest!: trap_exit_change intro: exec_keeps_trap)

lemma exec_value_keeps: "exec_value v next_pc m = Inr (dst, r, ex, m') \<Longrightarrow> exec_keeps m m'"
  by (auto simp: exec_value_def and_then_eq_Inr)

lemmas exec_case_keeps =
  exec_csr_keeps exec_load_keeps exec_store_keeps exec_amo_keeps exec_fp_keeps
  exec_ecall_keeps exec_xret_keeps exec_value_keeps

lemma exec_op_keeps: "exec_op fuel pc next_pc d m = Inr (dst, r, ex, m') \<Longrightarrow> exec_keeps m m'"
  by (cases "d_op d") (auto simp: exec_op_def exec_branch_def dest: exec_case_keeps)

lemma write_back_inv: "machine_inv m \<Longrightarrow> write_back rd dst ex m = Inr m' \<Longrightarrow> machine_inv m'"
  by (auto simp: write_back_def and_then_eq_Inr machine_inv_def devices_inv_def
      split: if_splits dest.splits)

lemma execute_cases:
  assumes "execute fuel pc next_pc d m = Inr (r, m')"
  obtains dst ex m1 where "exec_op fuel pc next_pc d m = Inr (dst, r, ex, m1)"
    "write_back (d_rd d) dst ex m1 = Inr m'"
  using assms unfolding execute_def and_then_eq_Inr by (force simp: and_then_eq_Inr)

lemma execute_inv:
  assumes "machine_inv m" "execute fuel pc next_pc d m = Inr (r, m')"
  shows "machine_inv m'"
  using assms(2)
proof (cases rule: execute_cases)
  case (1 dst ex m1)
  show ?thesis
    using write_back_inv [OF exec_keeps_inv [OF exec_op_keeps [OF 1(1)] assms(1)] 1(2)] .
qed

text \<open>The relation as a property of a result, and its rules for sequencing.\<close>

definition exec_keeps3 :: "machine \<Rightarrow> ('a \<times> 'b \<times> machine) result \<Rightarrow> bool" where
  "exec_keeps3 m r \<longleftrightarrow> (\<forall>x y m'. r = Inr (x, y, m') \<longrightarrow> exec_keeps m m')"

lemma exec_keeps3_Inr [simp]: "exec_keeps3 m (Inr (x, y, m')) = exec_keeps m m'"
  by (simp add: exec_keeps3_def)

lemma exec_keeps3_and_then:
  assumes "exec_keeps3 m r" "\<And>x y m'. exec_keeps3 m' (f (x, y, m'))"
  shows "exec_keeps3 m (and_then r f)"
proof (cases r)
  case (Inr z)
  obtain x y m1 where "z = (x, y, m1)"
    by (cases z)
  with assms Inr show ?thesis
    by (auto simp: exec_keeps3_def intro: exec_keeps_trans)
qed (simp add: exec_keeps3_def)

lemma exec_keeps3_if:
  "exec_keeps3 m r \<Longrightarrow> exec_keeps3 m s \<Longrightarrow> exec_keeps3 m (if b then r else s)"
  by simp

lemma as_read_keeps3: "exec_keeps3 m (as_read m vaddr sz)"
  using as_read_keeps by (auto simp: exec_keeps3_def)

lemma raise_keeps3:
  "exec_keeps3 m (and_then (raise_except pc cause tval m) (\<lambda>(r, m). Inr (r, i, m)))"
  by (auto simp: exec_keeps3_def and_then_eq_Inr dest!: raise_except_change exec_keeps_trap)

lemma fetch_keeps3: "exec_keeps3 m (fetch m)"
  unfolding fetch_def Let_def
  by (intro exec_keeps3_if exec_keeps3_and_then as_read_keeps3)
     (simp_all add: raise_keeps3 exec_keeps3_and_then as_read_keeps3)

lemma fetch_keeps: "fetch m = Inr (r, inst, m') \<Longrightarrow> exec_keeps m m'"
  using fetch_keeps3 by (simp add: exec_keeps3_def)

lemma interrupt_step_inv:
  assumes "interrupt_step m = Inr (r, m')" "machine_inv m"
  shows "machine_inv m'"
proof -
  from assms(1) obtain p m1 where h: "handle_interrupt (m_pc m) (m_plic m) (m_clint m) m = Inr (r, p, m1)"
    and m': "m' = m1\<lparr>m_plic := p\<rparr>"
    by (auto simp: interrupt_step_def and_then_eq_Inr)
  from handle_interrupt_change [OF h] have tc: "trap_change m m1"
    and "\<exists>irq s1. plic_interrupt (m_plic m) m = Inr (irq, p, s1)"
    by blast+
  then obtain irq s1 where "plic_interrupt (m_plic m) m = Inr (irq, p, s1)"
    by blast
  moreover have "plic_inv (m_plic m)"
    using assms(2) by (simp add: machine_inv_def devices_inv_def uart_inv_def)
  ultimately have "plic_inv p"
    using plic_interrupt_keeps by blast
  have "machine_inv m1"
    using exec_keeps_inv [OF exec_keeps_trap [OF tc] assms(2)] .
  with \<open>plic_inv p\<close> show ?thesis
    by (simp add: m' machine_inv_def devices_inv_def uart_inv_def)
qed

lemma set_pc_inv [simp]: "machine_inv (m\<lparr>m_pc := pc\<rparr>) = machine_inv m"
  by (simp add: machine_inv_def devices_inv_def)

lemma cpu_step_inv:
  assumes "machine_inv m" "cpu_step fuel m = Inr m'"
  shows "machine_inv m'"
proof -
  from assms(2) obtain r1 m1 where m1: "interrupt_step m = Inr (r1, m1)"
    and rest: "(if r1 \<noteq> 0 then Inr (m1\<lparr>m_pc := r1\<rparr>)
       else and_then (fetch m1) (\<lambda>(next_pc, inst, m).
         if next_pc \<noteq> 0 then Inr (m\<lparr>m_pc := next_pc\<rparr>)
         else
           and_then (decode (m_pc m) inst) (\<lambda>(next_pc, d).
           and_then (execute fuel (m_pc m) next_pc d m) (\<lambda>(next_pc, m).
             Inr (m\<lparr>m_pc := next_pc\<rparr>))))) = Inr m'"
    unfolding cpu_step_def and_then_eq_Inr by (auto split: if_splits simp: and_then_eq_Inr)
  from interrupt_step_inv [OF m1 assms(1)] have inv1: "machine_inv m1" .
  show ?thesis
  proof (cases "r1 = 0")
    case False
    with rest inv1 show ?thesis by auto
  next
    case True
    with rest obtain r2 i m2 where m2: "fetch m1 = Inr (r2, i, m2)"
      and rest2: "(if r2 \<noteq> 0 then Inr (m2\<lparr>m_pc := r2\<rparr>)
         else
           and_then (decode (m_pc m2) i) (\<lambda>(next_pc, d).
           and_then (execute fuel (m_pc m2) next_pc d m2) (\<lambda>(next_pc, m).
             Inr (m\<lparr>m_pc := next_pc\<rparr>)))) = Inr m'"
      by (auto simp: and_then_eq_Inr)
    have "machine_inv m2"
      using exec_keeps_inv [OF fetch_keeps [OF m2] inv1] .
    with rest2 show ?thesis
      by (auto simp: and_then_eq_Inr split: if_splits dest: execute_inv)
  qed
qed

lemma sys_step_inv: "sys_step fuel m m' \<Longrightarrow> machine_inv m \<Longrightarrow> machine_inv m'"
proof (induction rule: sys_step.induct)
  case (cpu m m')
  then show ?case by (blast intro: cpu_step_inv)
next
  case (uart_rx ch m u p)
  then have "uart_inv (u, p)"
    using succeedsD [OF uart_routine_keeps, of "m_uart m" "m_plic m" ch]
    by (simp add: machine_inv_def devices_inv_def)
  with uart_rx show ?case by (simp add: machine_inv_def devices_inv_def)
next
  case (timer m c m')
  then have "same_but_reads m m'"
    using same_but_reads_clocks(1) [of m] by (auto simp: clint_routine_def Let_def split_def split: if_splits)
  with timer show ?case
    by (auto simp: same_but_reads_def machine_inv_def devices_inv_def)
next
  case (blk_take m)
  then show ?case using bus_keeps_inv [OF blk_take_keeps] by blast
next
  case (blk_work m m')
  have "keeps_wr (bus_write fuel PARAMS_NONE)"
    by (simp add: keeps_wr_def bus_write_keeps)
  from blk_work_keeps [OF this, of m] blk_work show ?case
    by (auto simp: keeps1_def intro: bus_keeps_inv)
qed

lemma rom_add_file_inv: "rom_add_file rom f base = Inr rom' \<Longrightarrow> rom_size rom' \<le> ROM_ADDRESS_SPACE_SIZE"
  using rom_add_file_size [of rom f base] by simp

lemma flash_add_files_inv:
  "flash_size flash \<le> FLASH_ADDRESS_SPACE_SIZE \<Longrightarrow> flash_add_files flash fs = Inr flash' \<Longrightarrow>
   flash_size flash' \<le> FLASH_ADDRESS_SPACE_SIZE"
proof (induction fs arbitrary: flash)
  case (Cons f fs)
  then show ?case
    using flash_add_file_size [of flash f] by (auto simp: and_then_eq_Inr)
qed simp

lemma flash_load_inv:
  "flash_load_modules flash_init st ms = Inr flash' \<Longrightarrow> flash_size flash' \<le> FLASH_ADDRESS_SPACE_SIZE"
  using flash_add_file_size [of flash_init st] flash_add_files_inv
  by (auto simp: flash_load_modules_def and_then_eq_Inr)

lemma virtio_blk_init_inv: "virtio_blk_init f 1 = Inr blk \<Longrightarrow> virtio_inv blk"
  by (auto simp: virtio_blk_init_def and_then_eq_Inr virtio_inv_def dest: init_config_length)

lemma machine_reset_inv:
  "rom_size rom \<le> ROM_ADDRESS_SPACE_SIZE \<Longrightarrow> flash_size flash \<le> FLASH_ADDRESS_SPACE_SIZE \<Longrightarrow>
   virtio_inv blk \<Longrightarrow> machine_inv (machine_reset h rom flash blk)"
  by (simp add: machine_reset_def machine_inv_def devices_inv_def uart_inv_def uart_init_def
      plic_init_inv ram_init_def)

lemma csr_init_inv: "machine_inv m \<Longrightarrow> machine_inv (cpu_enable_clock (csr_init m))"
  by (simp add: cpu_enable_clock_def get_clock_def csr_init_def machine_inv_def devices_inv_def Let_def)

lemma machine_init_inv: "machine_init h im = Inr m \<Longrightarrow> machine_inv m"
  unfolding machine_init_def and_then_eq_Inr
  by (auto intro!: csr_init_inv machine_reset_inv dest: rom_add_file_inv flash_load_inv virtio_blk_init_inv)

end
