(* ===== verification/Memory.thy ===== *)
theory Memory
  imports Xemu
begin

text \<open>
  What the guest sees of memory: the address map, reads after writes, atomics, blocks, the
  page walk and the fetch of an instruction, over the whole machine.  The RAM facts are the
  lemmas of \<open>byte_memory\<close> in its interpretation \<open>bus_ram\<close> on the bus.
\<close>

section \<open>A concrete machine\<close>

text \<open>The machine \<open>main\<close> starts from small files; the instances of the properties use it.\<close>

definition demo_host :: host where
  "demo_host = \<lparr>h_mono = (\<lambda>_. (0, 0)), h_wall = (\<lambda>_. (0, 0)), h_tsc = (\<lambda>_. (0, 0)),
     h_reads = 0, cpu_clock_offset = 0\<rparr>"

definition demo_image :: image where
  "demo_image = \<lparr>image_bios = Some [0x93, 0x00, 0x50, 0x00], image_dtb = Some [1],
     image_fw = Some [2], image_startup = Some [3], image_mods = [], image_disk = Some [4]\<rparr>"

lemma demo_init: "\<exists>m. machine_init demo_host demo_image = Inr m"
  by (simp add: machine_init_def demo_image_def rom_add_file_def rom_init_def ROUND_UP_def
      in_buffer_def flash_load_modules_def flash_add_file_def flash_init_def elf64_hdr_check_def
      ELFMAG_def upt_rec store_bytes_def virtio_blk_init_def virtio_blk_init_config_def get_file_size_def Let_def)

definition demo_machine :: machine where
  "demo_machine = projr (machine_init demo_host demo_image)"

lemma demo_machine_init: "machine_init demo_host demo_image = Inr demo_machine"
  using demo_init by (auto simp: demo_machine_def)

lemma machine_init_fields:
  "machine_init h im = Inr m \<Longrightarrow>
   m_as m = root_as \<and> m_ram m = ram_init \<and> cur_priv m = M_MODE \<and>
   csrs m = (\<lambda>_. 0)(MISA := MISA_INIT_VAL) \<and> m_reg m = (\<lambda>_. 0) \<and> m_pc m = 0x1000 \<and> m_plic m = plic_init"
  by (auto simp: machine_init_def and_then_eq_Inr cpu_enable_clock_def get_clock_def csr_init_def
      machine_reset_def Let_def)

lemmas demo_machine_fields = machine_init_fields [OF demo_machine_init]

lemma demo_bus_ok: "bus_ok demo_machine a sz" if "access_size sz" "0x80000000 \<le> unat a" "unat a + unat sz \<le> 0x100000000"
  using that by (simp add: bus_ok_def demo_machine_fields ram_init_def)

section \<open>The address map\<close>

text \<open>C35.  An access inside the window of a device reaches that device and no other, at the
  offset from the start of its window.\<close>

theorem bus_dispatch:
  assumes "m_as m = root_as" "c \<in> set root_children" "in_space a c" "access_size sz"
  shows "bus_read m a sz = bus_read_op (as_read_op c) (a - as_start c) sz m \<and>
    bus_write (Suc n) params m a v sz =
      bus_write_op n bus_read (bus_write n PARAMS_NONE) (as_write_op c) (a - as_start c) v sz params m \<and>
    (\<forall>d \<in> set root_children. in_space a d \<longrightarrow> d = c)"
proof (intro conjI ballI impI)
  show "bus_read m a sz = bus_read_op (as_read_op c) (a - as_start c) sz m"
    using assms(1, 4) as_resolve_root [OF assms(2, 3)]
    by (simp add: bus_read_def as_read_nommu_resolve)
  show "bus_write (Suc n) params m a v sz =
      bus_write_op n bus_read (bus_write n PARAMS_NONE) (as_write_op c) (a - as_start c) v sz params m"
    using assms(1, 4) as_resolve_root [OF assms(2, 3)]
    by (simp add: as_write_nommu_resolve)
  show "d = c" if "d \<in> set root_children" "in_space a d" for d
    using that assms(2, 3) by (intro in_space_unique)
qed

theorem bus_dispatch_witness:
  "bus_read demo_machine 0x10000005 1 = bus_read_op uart_op 5 1 demo_machine"
proof -
  have "device_space 0x10000000 0x100000FF uart_op uart_op \<in> set root_children"
    by (simp add: root_children_def)
  then show ?thesis
    using bus_dispatch [of demo_machine _ "0x10000005" 1]
    by (simp add: demo_machine_fields in_space_def access_size_def)
qed

text \<open>An access outside every window, or of a size that is not 1, 2, 4 or 8, panics.\<close>

theorem bus_unmapped:
  assumes "m_as m = root_as" "\<not> list_ex (in_space a) root_children \<or> \<not> access_size sz"
  shows "(\<exists>f. bus_read m a sz = Inl (Panic f)) \<and>
    (\<exists>f. bus_write (Suc n) params m a v sz = Inl (Panic f))"
proof (cases "access_size sz")
  case True
  with assms have "as_resolve root_as a = (root_as, a)"
    by (intro as_resolve_hole) (auto simp: list_ex_iff)
  with True assms(1) show ?thesis
    by (simp add: bus_read_def as_read_nommu_resolve as_write_nommu_resolve)
next
  case False
  then show ?thesis
    by (simp add: bus_read_def as_read_nommu_bad_size as_write_nommu_bad_size)
qed

theorem bus_unmapped_witness: "\<exists>f. bus_read demo_machine 0x40000000 4 = Inl (Panic f)"
  using bus_unmapped [of demo_machine "0x40000000" 4]
  by (simp add: demo_machine_fields root_children_def virtio_space_def in_space_def upt_rec)

section \<open>RAM\<close>

text \<open>A store to RAM succeeds, a load of the same place returns what was stored, and a load of
  any place that does not overlap it returns what it did before.\<close>

theorem ram_store_load:
  assumes "bus_ok m a sz"
  shows "\<exists>r m'. bus_write (Suc n) PARAMS_NONE m a v sz = Inr (r, m') \<and>
    bus_read m' a sz = Inr (take_bit (8 * unat sz) v, m') \<and>
    (\<forall>b t w. bus_ok m b t \<and> disjoint_access b (unat t) a (unat sz) \<and> bus_read m b t = Inr (w, m) \<longrightarrow>
       bus_read m' b t = Inr (w, m'))"
proof -
  obtain r m' where m': "bus_write (Suc n) PARAMS_NONE m a v sz = Inr (r, m')"
    using bus_ram.wr_succeeds [OF assms] by blast
  then show ?thesis
    using bus_ram.rd_after_wr [OF assms m'] bus_ram.rd_after_other_wr [OF _ assms _ m'] by blast
qed

theorem ram_store_load_witness:
  "\<exists>r m'. bus_write 1 PARAMS_NONE demo_machine 0x80000010 0x1234567 4 = Inr (r, m') \<and>
     bus_read m' 0x80000010 4 = Inr (0x1234567, m')"
  using ram_store_load [of demo_machine "0x80000010" 4 0 "0x1234567"]
  by (auto simp: demo_bus_ok access_size_def take_bit_eq_mod)

text \<open>C36.  Blocks: what \<open>as_write_blob\<close> puts in RAM at an aligned address, \<open>as_read_blob\<close> gets back,
  whatever the length.\<close>

theorem ram_blob_round_trip:
  assumes "m_as m = root_as" "ram_size (m_ram m) = 0x80000000" "addr mod 8 = 0"
    and "0x80000000 \<le> unat addr" "unat addr + length bs \<le> 0x100000000"
  shows "\<exists>m'. as_write_blob (bus_write (Suc n) PARAMS_NONE) addr bs m = Inr m' \<and>
    as_read_blob bus_read addr (length bs) m' = Inr (bs, m')"
proof (rule bus_ram.blob_round_trip)
  show "blob_ok bus_ok m addr (length bs)"
    using assms by (auto simp: blob_ok_def bus_ok_def)
qed (rule assms(3))

theorem ram_blob_round_trip_witness:
  "\<exists>m'. as_write_blob (bus_write 1 PARAMS_NONE) 0x80000008 [1, 2, 3] demo_machine = Inr m' \<and>
     as_read_blob bus_read 0x80000008 3 m' = Inr ([1, 2, 3], m')"
  using ram_blob_round_trip [of demo_machine "0x80000008" "[1, 2, 3]" 0]
  by (simp add: demo_machine_fields ram_init_def numeral_3_eq_3)

text \<open>The atomic operations of the ISA, at either width.\<close>

definition amo_result :: "params_t \<Rightarrow> 'a::len word \<Rightarrow> 'a word \<Rightarrow> 'a word" where
  "amo_result op old x = (case op of
      PARAMS_AMO_MIN \<Rightarrow> word_of_int (min (sint old) (sint x))
    | PARAMS_AMO_MAX \<Rightarrow> word_of_int (max (sint old) (sint x))
    | PARAMS_AMO_MINU \<Rightarrow> min old x
    | PARAMS_AMO_MAXU \<Rightarrow> max old x
    | PARAMS_AMO_ADD \<Rightarrow> old + x
    | PARAMS_AMO_XOR \<Rightarrow> old XOR x
    | PARAMS_AMO_OR \<Rightarrow> old OR x
    | PARAMS_AMO_AND \<Rightarrow> old AND x
    | PARAMS_LAST \<Rightarrow> old
    | _ \<Rightarrow> x)"

lemma amo32_result: "amo32 old x op = amo_result op old x"
  by (cases op) (auto simp: amo32_def amo_result_def min_def max_def word_sle_eq word_sless_alt)

lemma amo64_result: "amo64 old x op = amo_result op old x"
  by (cases op) (auto simp: amo64_def amo_result_def min_def max_def word_sle_eq word_sless_alt)

text \<open>An atomic operation on RAM returns the old value and leaves the ISA's result there.\<close>

theorem ram_amo:
  assumes "bus_ok m a sz" "sz = 4 \<or> sz = 8" "op \<noteq> PARAMS_LR_SC"
  shows "\<exists>old m'. bus_read m a sz = Inr (old, m) \<and> bus_write (Suc n) op m a v sz = Inr (old, m') \<and>
    bus_read m' a sz = Inr (if sz = 8 then amo_result op old v
      else ucast (amo_result op (ucast old :: u32) (ucast v)), m')"
proof -
  define off where "off = a - RAM_ADDRESS_SPACE_START"
  define old where "old = load_le (ram_mem (m_ram m)) off (unat sz)"
  define new where "new = amo_new sz old v op"
  define m' where "m' = m\<lparr>m_ram := (m_ram m)\<lparr>ram_mem := store_le (ram_mem (m_ram m)) off new (unat sz)\<rparr>\<rparr>"
  have rd: "bus_read m a sz = Inr (old, m)"
    using bus_read_ok [OF assms(1)] by (simp add: bus_bytes_def load_le_shift old_def off_def)
  moreover have "bus_write (Suc n) op m a v sz = Inr (old, m')"
    using bus_write_ok [OF assms(1), of n op v] assms(3)
    by (simp add: amo_old_def old_def off_def new_def m'_def)
  moreover have "bus_ok m' a sz"
    using assms(1) by (simp add: bus_ok_def m'_def)
  then have "bus_read m' a sz = Inr (take_bit (8 * unat sz) new, m')"
    using assms(2) bus_read_ok [of m' a sz]
    by (auto simp: bus_bytes_def load_le_shift off_def m'_def load_store_le)
  moreover have "take_bit 32 (ucast w) = (ucast w :: u64)" for w :: u32
    by (rule bit_word_eqI) (auto simp: bit_simps dest: bit_imp_le_length)
  ultimately show ?thesis
    using assms(2)
    by (auto simp: new_def amo_new_def amo32_result amo64_result take_bit_word_eq_self
        intro!: exI [of _ old] exI [of _ m'])
qed

theorem ram_amo_witness:
  "\<exists>old m'. bus_read demo_machine 0x80000000 4 = Inr (old, demo_machine) \<and>
     bus_write 1 PARAMS_AMO_ADD demo_machine 0x80000000 5 4 = Inr (old, m')"
  using ram_amo [of demo_machine "0x80000000" 4 PARAMS_AMO_ADD 0 5]
  by (auto simp: demo_bus_ok access_size_def)

section \<open>Fuel\<close>

text \<open>The fuel of a store only bounds how deep it nests: once it is enough, more changes nothing,
  and a store that does not reach a virtio transport never needs more than 1.\<close>

lemma bus_write_fuel:
  assumes "n \<le> n'"
  shows "((\<forall>f. bus_write n params m a v sz \<noteq> Inl (Nested f)) \<longrightarrow>
      bus_write n' params m a v sz = bus_write n params m a v sz) \<and>
    (m_as m = root_as \<and> (\<forall>i < 8. \<not> in_space a (virtio_space i)) \<longrightarrow>
      bus_write (Suc n) params m a v sz = bus_write 1 params m a v sz)"
proof (intro conjI impI)
  assume "\<forall>f. bus_write n params m a v sz \<noteq> Inl (Nested f)"
  then show "bus_write n' params m a v sz = bus_write n params m a v sz"
    using bus_write_mono [OF assms, of params m a v sz] by (auto simp: approx_def)
next
  assume *: "m_as m = root_as \<and> (\<forall>i < 8. \<not> in_space a (virtio_space i))"
  show "bus_write (Suc n) params m a v sz = bus_write 1 params m a v sz"
  proof (cases "access_size sz \<and> (\<exists>c \<in> set root_children. in_space a c)")
    case True
    then obtain c where c: "c \<in> set root_children" "in_space a c"
      by blast
    have "as_write_op c \<noteq> virtio_mmio_op i" for i
      using c * by (auto simp: root_children_def virtio_space_def)
    then have "bus_write_op n rd wr (as_write_op c) x v sz params m =
        bus_write_op 0 rd wr' (as_write_op c) x v sz params m" for rd wr wr' x
      by (cases "as_write_op c") auto
    moreover have "m_as m = root_as" "access_size sz"
      using * True by blast+
    ultimately show ?thesis
      using as_resolve_root [OF c] by (simp add: as_write_nommu_resolve)
  next
    case False
    show ?thesis
    proof (cases "access_size sz")
      case True
      with False have "as_resolve root_as a = (root_as, a)"
        by (intro as_resolve_hole) blast
      with True * show ?thesis
        by (simp add: as_write_nommu_resolve)
    qed (simp add: as_write_nommu_bad_size)
  qed
qed

section \<open>Address translation\<close>

lemma leaf_address:
  fixes x vaddr :: u64
  assumes "12 \<le> s" "s \<le> 56"
  defines "pa \<equiv> push_bit s (take_bit (56 - s) x) + take_bit s vaddr"
  shows "unat pa < 2 ^ 56 \<and> take_bit 12 pa = take_bit 12 vaddr"
proof
  have pa: "pa = push_bit s (take_bit (56 - s) x) OR take_bit s vaddr"
    unfolding pa_def by (rule or_is_plus [symmetric]) (auto simp: bit_simps)
  have "pa = take_bit 56 pa"
    unfolding pa using assms(1, 2) by (intro bit_word_eqI) (auto simp: bit_simps)
  then show "unat pa < 2 ^ 56"
    by (metis take_bit_nat_less_exp unsigned_take_bit_eq)
  show "take_bit 12 pa = take_bit 12 vaddr"
    unfolding pa using assms(1) by (intro bit_word_eqI) (auto simp: bit_simps)
qed

lemma sv39_walk_SomeE:
  assumes "sv39_walk i table vaddr m = Inr (Some pa, m')"
  obtains (leaf) pte where
      "pa = push_bit (12 + 9 * i) (take_bit (44 - 9 * i) (drop_bit (10 + 9 * i) pte)) + take_bit (12 + 9 * i) vaddr"
  | (inner) j table' m1 where "i = Suc j" "sv39_walk j table' vaddr m1 = Inr (Some pa, m')"
proof -
  obtain pte m1 where
    "(if \<not> bit pte 0 \<or> \<not> bit pte 1 \<and> bit pte 2 then Inr (None, m1)
      else if bit pte 1 \<or> bit pte 3 then
        Inr (Some (push_bit (12 + 9 * i) (take_bit (44 - 9 * i) (drop_bit (10 + 9 * i) pte)) +
                   take_bit (12 + 9 * i) vaddr), m1)
      else case i of
        0 \<Rightarrow> Inr (None, m1)
      | Suc j \<Rightarrow> sv39_walk j (take_bit 44 (drop_bit 10 pte) * 4096) vaddr m1) = Inr (Some pa, m')"
    using assms unfolding sv39_walk.simps [of i] and_then_eq_Inr by (auto simp only: prod.case)
  then show thesis
    using leaf inner by (cases i) (simp_all only: prod.inject option.inject sum.inject nat.case split: if_splits, blast+)
qed

lemma sv39_walk_address:
  "sv39_walk i table vaddr m = Inr (Some pa, m') \<Longrightarrow> i \<le> 2 \<Longrightarrow>
   unat pa < 2 ^ 56 \<and> take_bit 12 pa = take_bit 12 vaddr"
proof (induction i arbitrary: table m)
  case 0
  then show ?case
    using leaf_address [of 12] by (cases rule: sv39_walk_SomeE) simp_all
next
  case (Suc i)
  from Suc.prems(1) show ?case
  proof (cases rule: sv39_walk_SomeE)
    case (leaf pte)
    have eq: "44 - 9 * Suc i = 56 - (12 + 9 * Suc i)"
      by simp
    show ?thesis
      unfolding leaf eq using Suc.prems(2) by (intro leaf_address) simp_all
  next
    case (inner j table' m1)
    with Suc show ?thesis by simp
  qed
qed

text \<open>A translated address keeps the offset in the page and has at most 56 bits.\<close>

lemma mmu_address:
  assumes "mmu m vaddr = Inr (Some pa, m')"
  shows "pa = vaddr \<and> m' = m \<or> unat pa < 2 ^ 56 \<and> take_bit 12 pa = take_bit 12 vaddr"
  using assms sv39_walk_address
  by (auto simp: mmu_sv39 sv39_def split: if_splits)

section \<open>Machine mode\<close>

lemma as_read_machine_mode: "cur_priv m = M_MODE \<Longrightarrow>
  as_read m a sz = and_then (bus_read m a sz) (\<lambda>(v, m). Inr (v, False, m))"
  by (simp add: as_read_def mmu_sv39 sv39_def)

lemma as_write_machine_mode: "cur_priv m = M_MODE \<Longrightarrow>
  as_write n m a sz v params = and_then (bus_write n params m a v sz) (\<lambda>(v, m). Inr (v, False, m))"
  by (simp add: as_write_def mmu_sv39 sv39_def)

lemma load_le_halves: "load_le mem a 4 = push_bit 16 (load_le mem (a + 2) 2) OR load_le mem a 2"
proof (rule bit_word_eqI)
  fix n
  assume "n < LENGTH(64)"
  consider "n < 16" | "16 \<le> n" "n < 32" | "32 \<le> n"
    by linarith
  then show "bit (load_le mem a 4) n \<longleftrightarrow> bit (push_bit 16 (load_le mem (a + 2) 2) OR load_le mem a 2) n"
  proof cases
    case 2
    then have "of_nat (n div 8) = (2 :: u64) + of_nat ((n - 16) div 8)" "(n - 16) mod 8 = n mod 8"
      by (auto simp: div_if mod_if not_less)
    with 2 show ?thesis
      by (auto simp: bit_simps bit_load_le add.assoc)
  qed (auto simp: bit_simps bit_load_le)
qed

lemma fetch_RAM:
  assumes "cur_priv m = M_MODE" "bus_ok m (m_pc m) 4"
  shows "fetch m = Inr (0, ucast (load_le (bus_bytes m) (m_pc m) 4), m)"
proof -
  let ?pc = "m_pc m"
  have "unat ?pc + 4 \<le> 0x100000000"
    using assms(2) by (simp add: bus_ok_def)
  then have "unat (?pc + 2) = unat ?pc + 2"
    by (simp add: unat_word_ariths)
  with assms(2) have "bus_ok m ?pc 2" "bus_ok m (?pc + 2) 2"
    by (auto simp: bus_ok_def access_size_def)
  moreover have "(ucast (push_bit 16 hi OR lo) :: u32) = push_bit 16 (ucast hi) OR ucast lo" for hi lo :: u64
    by (rule bit_word_eqI) (auto simp: bit_simps)
  ultimately show ?thesis
    using assms by (simp add: fetch_def Let_def as_read_machine_mode bus_read_ok load_le_halves)
qed

end
