(* ===== verification/Steps.thy ===== *)
theory Steps
  imports Memory
begin

text \<open>
  What one instruction does to the machine: the registers it can change, a memory access that
  faults, a store followed by a load, the atomics, the conversions of the floating-point
  moves, and that the fuel of the bus does not matter to the main loop.
\<close>

section \<open>The frame of an instruction\<close>


definition addi_x5 :: decoded where
  "addi_x5 = \<lparr>d_op = OpImm ADDI, d_rd = 5, d_rs1 = 0, d_rs2 = 0, d_imm = 7, d_csr_addr = 0, d_opcode = 0x13\<rparr>"


section \<open>Accesses that fault\<close>

text \<open>The address an instruction accesses, and the cause of its page fault.\<close>

definition access_of :: "decoded \<Rightarrow> machine \<Rightarrow> u64" where
  "access_of d m = (case d_op d of OpAmo op \<Rightarrow> m_reg m (d_rs1 d) | _ \<Rightarrow> m_reg m (d_rs1 d) + d_imm d)"

definition fault_cause :: "decoded \<Rightarrow> u64" where
  "fault_cause d = (case d_op d of OpLoad op \<Rightarrow> 13 | _ \<Rightarrow> 15)"

definition accesses :: "decoded \<Rightarrow> bool" where
  "accesses d \<longleftrightarrow> (case d_op d of OpLoad op \<Rightarrow> True | OpStore op \<Rightarrow> True | OpAmo op \<Rightarrow> True | FLW \<Rightarrow> True
     | FLD \<Rightarrow> True | FSD \<Rightarrow> True | _ \<Rightarrow> False)"

lemma execute_fault:
  assumes "accesses d" "mmu m (access_of d m) = Inr (None, m1)"
  shows "execute fuel pc next_pc d m = raise_except pc (fault_cause d) (access_of d m) m1"
proof (cases "raise_except pc (fault_cause d) (access_of d m) m1")
  case (Inl e)
  with assms show ?thesis
    by (cases "d_op d") (auto simp: execute_def exec_op_def exec_load_def exec_store_def exec_amo_def
        exec_fp_def Let_def as_read_def as_write_def after_access_def access_of_def fault_cause_def accesses_def)
next
  case (Inr p)
  with assms show ?thesis
    by (cases p; cases "d_op d") (auto simp: execute_def exec_op_def exec_load_def exec_store_def exec_amo_def
        exec_fp_def Let_def as_read_def as_write_def after_access_def access_of_def fault_cause_def
        accesses_def write_back_def)
qed

text \<open>C14.  A load, store or atomic whose address does not translate writes no register and enters the
  trap for its page fault, with its address in \<open>tval\<close> and its own address in \<open>epc\<close>, at the level
  \<open>medeleg\<close> says; a load reports cause 13, every other access 15.\<close>

theorem access_page_fault:
  assumes "accesses d" "mmu m (access_of d m) = Inr (None, m1)"
  defines "deleg \<equiv> bit (csrs m MEDELEG) (unat (fault_cause d))"
  shows "\<exists>m'. execute fuel pc next_pc d m = Inr (csrs m (if deleg then STVEC else MTVEC), m') \<and>
    m_reg m' = m_reg m \<and> m_freg m' = m_freg m \<and>
    cur_priv m' = (if deleg then S_MODE else M_MODE) \<and>
    csrs m' (if deleg then SEPC else MEPC) = pc \<and>
    csrs m' (if deleg then SCAUSE else MCAUSE) = fault_cause d \<and>
    csrs m' (if deleg then STVAL else MTVAL) = access_of d m"
proof -
  have "bus_keeps m m1"
    using mmu_keeps [of m "access_of d m"] assms(2) by (auto dest: keeps2D)
  then have same: "m_reg m1 = m_reg m" "m_freg m1 = m_freg m" "csrs m1 = csrs m" "cur_priv m1 = cur_priv m"
    by (simp_all add: bus_keeps_def same_core_def)
  have "cur_priv m \<noteq> M_MODE"
    using assms(2) by (auto simp: mmu_sv39 sv39_def split: if_splits)
  moreover have "fault_cause d = 13 \<or> fault_cause d = 15"
    by (simp add: fault_cause_def split: op_t.split)
  then have "except_bit_flag (fault_cause d) = Inr (push_bit (unat (fault_cause d)) 1)"
    "(w AND ucast (push_bit (unat (fault_cause d)) (1::u32)) = 0) = (\<not> bit w (unat (fault_cause d)))" for w :: u64
    by (auto simp: except_bit_flag_def bit_iff_and_push_bit_not_eq_0)
  ultimately show ?thesis
    using execute_fault [OF assms(1, 2)] same
    by (auto simp: raise_except_def except_next_priv_def priv_def trap_enter_S trap_enter_M deleg_def)
qed

text \<open>A supervisor whose page table is empty.\<close>

definition demo_paged :: machine where
  "demo_paged = demo_machine\<lparr>cur_priv := S_MODE,
     csrs := (\<lambda>_. 0)(SATP := 0x8000000000080000, MEDELEG := 0x2000, STVEC := 0x80200000)\<rparr>"

lemma demo_paged_walk: "mmu demo_paged a = Inr (None, demo_paged)"
proof -
  have "unat (vpn a 2) < 2 ^ 9"
    unfolding vpn_def unsigned_take_bit_eq by (rule take_bit_nat_less_exp)
  then have "unat (0x80000000 + vpn a 2 * 8) = 0x80000000 + unat (vpn a 2) * 8" "unat (vpn a 2) \<le> 511"
    by (simp_all add: unat_word_ariths)
  then have "bus_ok demo_paged (0x80000000 + vpn a 2 * 8) 8"
    by (simp add: bus_ok_def demo_paged_def demo_machine_fields ram_init_def access_size_def)
  moreover have "load_le (bus_bytes demo_paged) b 8 = 0" for b
    by (rule bit_word_eqI) (simp add: bit_load_le bus_bytes_def demo_paged_def demo_machine_fields ram_init_def)
  ultimately have "bus_read demo_paged (0x80000000 + vpn a 2 * 8) 8 = Inr (0, demo_paged)"
    by (simp add: bus_read_ok)
  moreover have "cur_priv demo_paged = S_MODE" "csrs demo_paged SATP = 0x8000000000080000"
    by (simp_all add: demo_paged_def)
  moreover have "take_bit 44 0x8000000000080000 * 4096 = (0x80000000::u64)"
    by (simp add: take_bit_eq_mod)
  ultimately show ?thesis
    by (simp add: mmu_sv39 sv39_def sv39_walk.simps)
qed

theorem access_page_fault_witness:
  "\<exists>m'. execute 1 0x80200100 0x80200104 (addi_x5\<lparr>d_op := OpLoad LD\<rparr>) demo_paged = Inr (0x80200000, m') \<and>
     m_reg m' = m_reg demo_paged \<and> csrs m' SCAUSE = 13 \<and> csrs m' SEPC = 0x80200100"
  using access_page_fault [OF _ demo_paged_walk, of "addi_x5\<lparr>d_op := OpLoad LD\<rparr>" 1 "0x80200100" "0x80200104"]
  by (auto simp: accesses_def fault_cause_def addi_x5_def demo_paged_def bit_numeral_rec)

section \<open>Stores, loads and atomics in machine mode\<close>

lemma load_value_low: "load_value op (take_bit (8 * unat (load_size op)) v) = load_value op v"
  by (cases op) (auto simp: load_value_def load_size_def bit_simps min_def intro!: bit_word_eqI)

lemma store_access: "access_size (store_size s)" "load_size op = store_size s \<Longrightarrow> access_size (load_size op)"
  by (cases s; simp add: store_size_def access_size_def)+

text \<open>What a store puts in RAM, a load of the same width and address gives back, extended as the
  load says.\<close>

theorem store_then_load:
  assumes "cur_priv m = M_MODE" "d_op d = OpStore s" "d_rd d = 0" "d_op e = OpLoad l"
    and "load_size l = store_size s" "bus_ok m (m_reg m (d_rs1 d) + d_imm d) (store_size s)"
    and "m_reg m (d_rs1 e) + d_imm e = m_reg m (d_rs1 d) + d_imm d" "d_rd e \<noteq> 0"
  shows "\<exists>m' m''. execute (Suc n) pc npc d m = Inr (npc, m') \<and> execute (Suc n) pc' npc' e m' = Inr (npc', m'') \<and>
    m_reg m'' = (m_reg m)(d_rd e := load_value l (m_reg m (d_rs2 d)))"
proof -
  let ?a = "m_reg m (d_rs1 d) + d_imm d"
  obtain r m' where m': "bus_write (Suc n) PARAMS_NONE m ?a (m_reg m (d_rs2 d)) (store_size s) = Inr (r, m')"
    using bus_ram.wr_succeeds [OF assms(6)] by blast
  then have "bus_read m' ?a (store_size s) = Inr (take_bit (8 * unat (store_size s)) (m_reg m (d_rs2 d)), m')"
    using bus_ram.rd_after_wr [OF assms(6) m'] by simp
  moreover have "m_reg m' = m_reg m" "cur_priv m' = cur_priv m"
    using keeps2D [OF bus_write_keeps m'] by (simp_all add: bus_keeps_def same_core_def)
  moreover note load_value_low [of l "m_reg m (d_rs2 d)"]
  ultimately show ?thesis
    using assms m'
    by (simp add: execute_def exec_op_def exec_store_def exec_load_def after_access_def write_back_def
        as_read_machine_mode as_write_machine_mode Let_def del: bus_write.simps)
qed

text \<open>A machine with a RAM address in x1.\<close>

definition demo_x1 :: machine where
  "demo_x1 = demo_machine\<lparr>m_reg := (\<lambda>_. 0)(1 := 0x80000100, 2 := 0xFFFF8001)\<rparr>"

definition access_x1 :: "op_t \<Rightarrow> u32 \<Rightarrow> decoded" where
  "access_x1 op rd = \<lparr>d_op = op, d_rd = rd, d_rs1 = 1, d_rs2 = 2, d_imm = 0, d_csr_addr = 0, d_opcode = 0\<rparr>"

lemma demo_x1_ok: "access_size sz \<Longrightarrow> unat sz \<le> 8 \<Longrightarrow> bus_ok demo_x1 0x80000100 sz"
  "cur_priv demo_x1 = M_MODE" "m_reg demo_x1 = (\<lambda>_. 0)(1 := 0x80000100, 2 := 0xFFFF8001)"
  by (simp_all add: demo_x1_def bus_ok_def demo_machine_fields ram_init_def)

theorem store_then_load_witness:
  "\<exists>m' m''. execute 1 0x1000 0x1004 (access_x1 (OpStore SH) 0) demo_x1 = Inr (0x1004, m') \<and>
     execute 1 0x1004 0x1008 (access_x1 (OpLoad LH) 5) m' = Inr (0x1008, m'') \<and>
     m_reg m'' = (m_reg demo_x1)(5 := - 0x7FFF)"
  using store_then_load [where m = demo_x1 and d = "access_x1 (OpStore SH) 0" and e = "access_x1 (OpLoad LH) 5"
      and s = SH and l = LH and n = 0 and pc = "0x1000" and npc = "0x1004" and pc' = "0x1004" and npc' = "0x1008"]
  by (simp add: access_x1_def demo_x1_ok load_size_def store_size_def access_size_def load_value_def
      del: bus_write.simps)

lemma sc_always_succeeds:
  assumes "cur_priv m = M_MODE" "d_op d = OpAmo SC_D" "bus_ok m (m_reg m (d_rs1 d)) 8" "d_rd d \<noteq> 0"
  shows "\<exists>m'. execute (Suc n) pc npc d m = Inr (npc, m') \<and> m_reg m' = (m_reg m)(d_rd d := 0) \<and>
    bus_bytes m' = store_le (bus_bytes m) (m_reg m (d_rs1 d)) (m_reg m (d_rs2 d)) 8"
  using assms bus_write_ok [OF assms(3), of n PARAMS_LR_SC "m_reg m (d_rs2 d)"]
  by (simp add: execute_def exec_op_def exec_amo_def after_access_def write_back_def amo_size_def
      amo_params_def as_write_machine_mode Let_def amo_old_def amo_new_def amo64_def bus_bytes_def
      store_le_shift del: bus_write.simps)

lemma amo_w_zero_extends:
  assumes "cur_priv m = M_MODE" "d_op d = OpAmo AMO_SWAP_W" "bus_ok m (m_reg m (d_rs1 d)) 4" "d_rd d \<noteq> 0"
  shows "\<exists>m'. execute (Suc n) pc npc d m = Inr (npc, m') \<and>
    m_reg m' = (m_reg m)(d_rd d := load_le (bus_bytes m) (m_reg m (d_rs1 d)) 4) \<and>
    bus_bytes m' = store_le (bus_bytes m) (m_reg m (d_rs1 d)) (m_reg m (d_rs2 d)) 4"
proof -
  have "store_le mem a (ucast (ucast v :: u32)) 4 = store_le mem a v 4" for mem a and v :: u64
    by (rule store_le_cong) (auto intro!: bit_word_eqI simp: bit_simps)
  then show ?thesis
    using assms bus_write_ok [OF assms(3), of n PARAMS_AMO_SWAP "m_reg m (d_rs2 d)"]
    by (simp add: execute_def exec_op_def exec_amo_def after_access_def write_back_def amo_size_def
        amo_params_def as_write_machine_mode Let_def amo_old_def amo_new_def amo32_def bus_bytes_def
        store_le_shift load_le_shift del: bus_write.simps)
qed





section \<open>Fuel and the main loop\<close>

lemma as_write_fuel [mono_intros]: "n \<le> n' \<Longrightarrow> approx (as_write n m a sz v params) (as_write n' m a sz v params)"
  unfolding as_write_def by (intro mono_intros bus_write_mono)

lemma exec_op_fuel: "n \<le> n' \<Longrightarrow> approx (exec_op n pc npc d m) (exec_op n' pc npc d m)"
  by (cases "d_op d") (auto simp: exec_op_def Let_def exec_store_def exec_amo_def exec_fp_def intro!: mono_intros)

lemma cpu_step_mono: "n \<le> n' \<Longrightarrow> approx (cpu_step n m) (cpu_step n' m)"
  unfolding cpu_step_def execute_def by (intro mono_intros exec_op_fuel)



section \<open>Floating-point loads and stores\<close>

lemma nat_length_less: "n < 2 ^ k \<Longrightarrow> nat_length n \<le> k"
proof (induction k arbitrary: n)
  case (Suc k)
  then have "n div 2 < 2 ^ k"
    by auto
  with Suc.IH show ?case
    by (subst nat_length.simps) auto
qed (simp add: nat_length.simps)

text \<open>A double-precision register survives a load only when its 64 bits, read as an unsigned
  number, are below 2^53 (and then it is exact): \<open>FLD\<close> converts the number instead of copying the
  bits, and the next one up already loses its last bit.\<close>

theorem fld_value:
  "(unat v < 2 ^ 53 \<longrightarrow> to_u64 (to_double v) = Inr v) \<and> to_u64 (to_double (2 ^ 53 + 1)) \<noteq> Inr (2 ^ 53 + 1)"
proof (intro conjI impI)
  assume "unat v < 2 ^ 53"
  then have "nat_length (unat v) - 53 = 0"
    using nat_length_less [of "unat v" 53] by simp
  moreover have "unat v < 2 ^ 64"
    using \<open>unat v < 2 ^ 53\<close> by simp
  ultimately show "to_u64 (to_double v) = Inr v"
    by (simp add: to_u64_def to_double_def round_sig_def Let_def)
next
  have "nat_length (2 ^ 53 + 1) = 54"
    by (simp add: nat_length.simps)
  then show "to_u64 (to_double (2 ^ 53 + 1)) \<noteq> Inr (2 ^ 53 + 1)"
    by (simp add: to_u64_def to_double_def round_sig_def Let_def)
qed

theorem fld_value_witness: "to_u64 (to_double 12345) = Inr 12345"
  using fld_value [of 12345] by simp

end
