(* ===== verification/Isa.thy ===== *)
theory Isa
  imports Execute
begin

text \<open>
  The integer instructions as the unprivileged ISA manual states them, on mathematical
  integers: sums, products, shifts and quotients of the signed or unsigned registers, cut to
  64 bits, or to 32 bits and sign-extended.  The theorems compare the code's arithmetic
  (\<open>alu_imm\<close>, \<open>alu_reg\<close>, \<open>muldiv\<close> of theory \<open>Execute\<close>) with it, operation by operation: equal
  wherever the C code is defined, with the operands on which it is not spelled out.
\<close>

section \<open>The reference\<close>

text \<open>The low 32 bits of \<open>i\<close>, sign-extended.\<close>

definition isa_w :: "int \<Rightarrow> u64" where
  "isa_w i = word_of_int (signed_take_bit 31 i)"

definition isa_imm :: "imm_op \<Rightarrow> u64 \<Rightarrow> u64 \<Rightarrow> u64" where
  "isa_imm op a imm = (case op of
      ADDI \<Rightarrow> word_of_int (sint a + sint imm)
    | ADDIW \<Rightarrow> isa_w (sint a + sint imm)
    | SLTI \<Rightarrow> of_bool (sint a < sint imm)
    | SLTIU \<Rightarrow> of_bool (uint a < uint imm)
    | SLLI \<Rightarrow> word_of_int (uint a * 2 ^ unat (take_bit 6 imm))
    | SLLIW \<Rightarrow> isa_w (uint a * 2 ^ unat (take_bit 5 imm))
    | XORI \<Rightarrow> a XOR imm
    | SRLI \<Rightarrow> word_of_int (uint a div 2 ^ unat (take_bit 6 imm))
    | SRLIW \<Rightarrow> isa_w (take_bit 32 (uint a) div 2 ^ unat (take_bit 5 imm))
    | SRAI \<Rightarrow> word_of_int (sint a div 2 ^ unat (take_bit 6 imm))
    | SRAIW \<Rightarrow> isa_w (signed_take_bit 31 (uint a) div 2 ^ unat (take_bit 5 imm))
    | ORI \<Rightarrow> a OR imm
    | ANDI \<Rightarrow> a AND imm)"

definition isa_reg :: "reg_op \<Rightarrow> u64 \<Rightarrow> u64 \<Rightarrow> u64" where
  "isa_reg op a b = (case op of
      ADD \<Rightarrow> word_of_int (sint a + sint b)
    | SUB \<Rightarrow> word_of_int (sint a - sint b)
    | SLT \<Rightarrow> of_bool (sint a < sint b)
    | SLTU \<Rightarrow> of_bool (uint a < uint b)
    | ADDW \<Rightarrow> isa_w (sint a + sint b)
    | SUBW \<Rightarrow> isa_w (sint a - sint b)
    | SLL \<Rightarrow> word_of_int (uint a * 2 ^ unat (take_bit 6 b))
    | SLLW \<Rightarrow> isa_w (uint a * 2 ^ unat (take_bit 5 b))
    | SRL \<Rightarrow> word_of_int (uint a div 2 ^ unat (take_bit 6 b))
    | SRLW \<Rightarrow> isa_w (take_bit 32 (uint a) div 2 ^ unat (take_bit 5 b))
    | SRA \<Rightarrow> word_of_int (sint a div 2 ^ unat (take_bit 6 b))
    | SRAW \<Rightarrow> isa_w (signed_take_bit 31 (uint a) div 2 ^ unat (take_bit 5 b))
    | XOR_R \<Rightarrow> a XOR b
    | OR_R \<Rightarrow> a OR b
    | AND_R \<Rightarrow> a AND b)"

definition isa_muldiv :: "muldiv_op \<Rightarrow> u64 \<Rightarrow> u64 \<Rightarrow> u64" where
  "isa_muldiv op a b =
    (let a32 = (ucast a :: u32); b32 = (ucast b :: u32) in
     case op of
      MUL \<Rightarrow> word_of_int (sint a * sint b)
    | MULH \<Rightarrow> word_of_int (sint a * sint b div 2 ^ 64)
    | MULHSU \<Rightarrow> word_of_int (sint a * uint b div 2 ^ 64)
    | MULHU \<Rightarrow> word_of_int (uint a * uint b div 2 ^ 64)
    | DIV \<Rightarrow> if b = 0 then - 1 else word_of_int (sint a sdiv sint b)
    | DIVU \<Rightarrow> if b = 0 then - 1 else word_of_int (uint a div uint b)
    | REM \<Rightarrow> if b = 0 then a else word_of_int (sint a smod sint b)
    | REMU \<Rightarrow> if b = 0 then a else word_of_int (uint a mod uint b)
    | MULW \<Rightarrow> isa_w (sint a32 * sint b32)
    | DIVW \<Rightarrow> if b32 = 0 then - 1 else isa_w (sint a32 sdiv sint b32)
    | DIVUW \<Rightarrow> if b32 = 0 then - 1 else isa_w (uint a32 div uint b32)
    | REMW \<Rightarrow> if b32 = 0 then isa_w (sint a32) else isa_w (sint a32 smod sint b32)
    | REMUW \<Rightarrow> if b32 = 0 then isa_w (uint a32) else isa_w (uint a32 mod uint b32))"

section \<open>Where C leaves the result undefined\<close>

definition fits32 :: "int \<Rightarrow> bool" where
  "fits32 i \<longleftrightarrow> - (2 ^ 31) \<le> i \<and> i < 2 ^ 31"

definition fits64 :: "int \<Rightarrow> bool" where
  "fits64 i \<longleftrightarrow> - (2 ^ 63) \<le> i \<and> i < 2 ^ 63"

definition imm_undefined :: "imm_op \<Rightarrow> u64 \<Rightarrow> u64 \<Rightarrow> bool" where
  "imm_undefined op a imm \<longleftrightarrow>
     op = ADDIW \<and> \<not> fits32 (int32 a + int32 imm) \<or> op = SRAIW \<and> bit imm 5"

definition reg_undefined :: "reg_op \<Rightarrow> u64 \<Rightarrow> u64 \<Rightarrow> bool" where
  "reg_undefined op a b \<longleftrightarrow>
     op = ADDW \<and> \<not> fits32 (int32 a + int32 b) \<or> op = SUBW \<and> \<not> fits32 (int32 a - int32 b) \<or>
     op = SRAW \<and> bit b 5"

definition mul_undefined :: "muldiv_op \<Rightarrow> u64 \<Rightarrow> u64 \<Rightarrow> bool" where
  "mul_undefined op a b \<longleftrightarrow>
     op = MUL \<and> \<not> fits64 (sint a * sint b) \<or> op = MULW \<and> \<not> fits32 (int32 a * int32 b) \<or>
     op \<in> {MULH, MULHSU} \<and> 2 ^ 127 \<le> uint a * uint b"

section \<open>Words as integers\<close>

lemma BITS_shamt: "BITS (x::u64) 5 0 = take_bit 6 x" "BITS (x::u64) 4 0 = take_bit 5 x"
  by (simp_all add: BITS_eq_take_bit)

lemma TO_WORD_scast: "TO_WORD (scast (w::u32)) = scast w"
  by (rule bit_word_eqI) (auto simp: word_bits bit_simps)

lemma TO_WORD_ucast: "TO_WORD (ucast (w::u32)) = scast w"
  by (rule bit_word_eqI) (auto simp: word_bits bit_simps)

lemma isa_w_scast: "isa_w i = scast (word_of_int i :: u32)"
  by (rule bit_word_eqI) (auto simp: isa_w_def bit_simps min_def)

lemma int32_sint: "int32 x = sint (ucast x :: u32)"
  by (simp add: int32_def)

lemma push_int: "word_of_int (uint a * 2 ^ n) = push_bit n a" for a :: "'a::len word"
  by (simp add: push_bit_eq_mult)

lemma push_int_ucast: "word_of_int (uint a * 2 ^ n) = push_bit n (ucast a :: u32)" for a :: u64
  by (simp add: push_bit_eq_mult)

lemma drop_int: "word_of_int (uint a div 2 ^ n) = drop_bit n a" for a :: "'a::len word"
  by (rule bit_word_eqI) (simp add: drop_bit_eq_div [symmetric] bit_simps)

lemma drop_sint: "word_of_int (sint a div 2 ^ n) = signed_drop_bit n a" for a :: "'a::len word"
proof -
  have "word_of_int (sint (signed_drop_bit n a)) = signed_drop_bit n a"
    by simp
  then show ?thesis
    by (simp only: sint_signed_drop_bit_eq drop_bit_eq_div)
qed

lemma scast_low: "(scast (a::u64) :: u32) = ucast a"
  by (rule bit_word_eqI) (auto simp: bit_simps)

lemma low_uint: "take_bit 32 (uint a) = uint (ucast a :: u32)" for a :: u64
  by (simp add: unsigned_ucast_eq)

lemma low_sint: "signed_take_bit 31 (uint a) = sint (ucast a :: u32)" for a :: u64
  by (rule bit_eqI) (auto simp: bit_simps min_def)

lemma low_sint': "word_of_int (sint a) = (ucast a :: u32)" for a :: u64
  by (rule bit_word_eqI) (auto simp: bit_simps min_def)


lemmas alu_simps = bool_u64_def BITS_shamt TO_WORD_ucast TO_WORD_scast isa_w_scast push_bit_eq_mult
  push_int drop_int drop_sint scast_low low_uint low_sint word_sless_alt word_less_alt

lemma take_6: "take_bit 6 (n::nat) = 32 * of_bool (bit n 5) + take_bit 5 n"
  using take_bit_Suc_from_most [of 5 n] by simp

lemma take_6_32: "(32 \<le> take_bit 6 (x::u64)) = bit x 5"
proof -
  have "take_bit 5 (unat x) < 2 ^ 5"
    by (rule take_bit_nat_less_exp)
  then show ?thesis
    by (simp add: word_le_nat_alt unsigned_take_bit_eq take_6 bit_unsigned_iff)
qed

lemma take_6_5: "\<not> bit (x::u64) 5 \<Longrightarrow> take_bit 6 x = take_bit 5 x"
  by (rule bit_word_eqI) (auto simp: bit_simps less_Suc_eq numeral_eq_Suc)

lemma smod_1 [simp]: "i smod 1 = 0" for i :: int
  using sdiv_mult_smod_eq [of i 1] by simp

lemma div_min: "word_of_int (sint (0x8000000000000000::u64) sdiv (- 1)) = (0x8000000000000000::u64)"
  "word_of_int (sint (0x8000000000000000::u64) smod (- 1)) = (0::u64)"
  by simp_all

lemma div_min32: "word_of_int (sint (0x80000000::u32) sdiv (- 1)) = (0x80000000::u32)"
  "word_of_int (sint (0x80000000::u32) smod (- 1)) = (0::u32)"
  by simp_all

lemma udiv_int: "word_of_int (uint a div uint b) = a div b" "word_of_int (uint a mod uint b) = a mod b"
  for a b :: "'a::len word"
  by (metis uint_div word_of_int_uint) (metis uint_mod word_of_int_uint)

lemma low_word: "take_bit 32 (scast w :: u64) = ucast w" for w :: u32
proof (rule bit_word_eqI)
  fix n
  show "bit (take_bit 32 (scast w :: u64)) n \<longleftrightarrow> bit (ucast w :: u64) n" if "n < LENGTH(64)"
    using that by (cases "n < 31"; cases "n = 31") (auto simp: bit_simps min_def dest: bit_imp_le_length)
qed

section \<open>The code against the reference\<close>

lemma alu_imm_eq:
  "alu_imm op a imm = (if imm_undefined op a imm then Inl (UB ''execute'') else Inr (isa_imm op a imm))"
proof (cases op)
  case ADDIW
  then show ?thesis
    by (auto simp: alu_imm_def isa_imm_def imm_undefined_def word_result_def signed_result_def
        fits32_def alu_simps int32_def)
next
  case SRAIW
  then show ?thesis
    by (auto simp: alu_imm_def isa_imm_def imm_undefined_def alu_simps take_6_32 take_6_5)
qed (simp_all add: alu_imm_def isa_imm_def imm_undefined_def alu_simps)

lemma alu_reg_eq:
  "alu_reg op a b = (if reg_undefined op a b then Inl (UB ''execute'') else Inr (isa_reg op a b))"
  by (cases op)
     (auto simp: alu_reg_def isa_reg_def reg_undefined_def word_result_def signed_result_def
        fits32_def alu_simps int32_def take_6_32 take_6_5)

text \<open>C9.  Integer arithmetic, register-immediate and register-register, is the ISA's for every
  operation and operands, except that a 32-bit sum or difference that overflows, and a 32-bit
  arithmetic right shift by 32 or more, are undefined in C.\<close>

theorem alu_isa:
  "alu_imm op a imm = (if imm_undefined op a imm then Inl (UB ''execute'') else Inr (isa_imm op a imm)) \<and>
   alu_reg op' a b = (if reg_undefined op' a b then Inl (UB ''execute'') else Inr (isa_reg op' a b))"
  by (simp only: alu_imm_eq alu_reg_eq)

lemma muldiv_eq:
  assumes "op \<notin> {MULH, MULHSU, DIVUW, REMUW}"
  shows "muldiv op a b = (if mul_undefined op a b then Inl (UB ''execute'') else Inr (isa_muldiv op a b))"
  using assms
  by (cases op)
     (auto simp: muldiv_def isa_muldiv_def mul_undefined_def Let_def word_result_def signed_result_def
        fits32_def fits64_def alu_simps int32_def div_min div_min32 udiv_int)



text \<open>The four operations that are not the ISA's.  \<open>MULH\<close> and \<open>MULHSU\<close> convert the unsigned
  registers to 128 bits without a sign, so they compute \<open>MULHU\<close> (or overflow); \<open>DIVUW\<close> and
  \<open>REMUW\<close> by zero give the low word of the ISA's result without its sign extension.\<close>

theorem muldiv_deviates:
  "muldiv MULH a b = (if uint a * uint b < 2 ^ 127 then muldiv MULHU a b else Inl (UB ''execute'')) \<and>
   muldiv MULHSU a b = muldiv MULH a b \<and>
   muldiv MULH (- 1) 1 \<noteq> Inr (isa_muldiv MULH (- 1) 1) \<and>
   muldiv DIVUW a b =
     Inr (if (ucast b :: u32) = 0 then take_bit 32 (isa_muldiv DIVUW a b) else isa_muldiv DIVUW a b) \<and>
   muldiv REMUW a b =
     Inr (if (ucast b :: u32) = 0 then take_bit 32 (isa_muldiv REMUW a b) else isa_muldiv REMUW a b)"
  by (simp add: muldiv_def isa_muldiv_def mul128_def Let_def alu_simps udiv_int low_word
      unsigned_minus_1_eq_mask mask_eq_exp_minus_1)

end
