(* ===== verification/Encode.thy ===== *)
theory Encode
  imports Decode
begin

text \<open>
  The 32-bit instruction formats of the ISA manual, as an encoder: every instruction of the
  base integer, multiply, atomic and CSR sets is laid out from its operands, and the decoder
  gives them back.  All formats share one frame of six fields; S, B, U and J spread an
  immediate over them.
\<close>

section \<open>The frame\<close>

definition frame ::
  "7 word \<Rightarrow> 5 word \<Rightarrow> 3 word \<Rightarrow> 5 word \<Rightarrow> 5 word \<Rightarrow> 7 word \<Rightarrow> u32" where
  "frame opc rd f3 rs1 rs2 f7 =
     ucast opc OR push_bit 7 (ucast rd) OR push_bit 12 (ucast f3) OR push_bit 15 (ucast rs1) OR
     push_bit 20 (ucast rs2) OR push_bit 25 (ucast f7)"

lemma bit_beyond: "LENGTH('a) \<le> n \<Longrightarrow> \<not> bit (w::'a::len word) n"
  by (auto dest: bit_imp_le_length)

lemma bit_frame:
  "bit (frame opc rd f3 rs1 rs2 f7) n \<longleftrightarrow>
     (if n < 7 then bit opc n
      else if n < 12 then bit rd (n - 7)
      else if n < 15 then bit f3 (n - 12)
      else if n < 20 then bit rs1 (n - 15)
      else if n < 25 then bit rs2 (n - 20)
      else bit f7 (n - 25))"
proof -
  consider "n < 7" | "7 \<le> n" "n < 12" | "12 \<le> n" "n < 15" | "15 \<le> n" "n < 20"
    | "20 \<le> n" "n < 25" | "25 \<le> n" "n < 32" | "32 \<le> n"
    by linarith
  then show ?thesis
    by cases (auto simp: frame_def bit_simps bit_beyond)
qed

lemma BITS32_field:
  fixes x :: "'b::len word" and y :: "'a::len word"
  assumes "h - l = LENGTH('a) - 1" "LENGTH('a) \<le> 32"
    and "\<And>n. n < LENGTH('a) \<Longrightarrow> bit x (l + n) = bit y n"
  shows "BITS32 x h l = ucast y"
proof (rule bit_word_eqI)
  fix n
  assume n: "n < LENGTH(32)"
  show "bit (BITS32 x h l) n \<longleftrightarrow> bit (ucast y :: u32) n"
  proof (cases "n < LENGTH('a)")
    case True
    with n assms show ?thesis
      by (auto simp: BITS32_def bit_simps word_bits)
  next
    case False
    with assms(1) have "\<not> n \<le> h - l"
      by (metis Suc_pred' len_gt_0 less_Suc_eq_le)
    with False show ?thesis
      by (simp add: BITS32_def bit_simps word_bits bit_beyond)
  qed
qed

lemma frame_fields [simp]:
  "BITS32 (frame opc rd f3 rs1 rs2 f7) 6 0 = ucast opc"
  "BITS32 (frame opc rd f3 rs1 rs2 f7) 11 7 = ucast rd"
  "funct3 (frame opc rd f3 rs1 rs2 f7) = ucast f3"
  "BITS32 (frame opc rd f3 rs1 rs2 f7) 19 15 = ucast rs1"
  "BITS32 (frame opc rd f3 rs1 rs2 f7) 24 20 = ucast rs2"
  "funct7 (frame opc rd f3 rs1 rs2 f7) = ucast f7"
  unfolding funct3_def funct7_def
  by (rule BITS32_field; simp add: bit_frame)+

text \<open>The 12 high bits of the frame, and the 5 above \<open>rs2\<close> and the two ordering bits.\<close>

definition high12 :: "5 word \<Rightarrow> 7 word \<Rightarrow> 12 word" where
  "high12 rs2 f7 = ucast rs2 OR push_bit 5 (ucast f7)"

lemma bit_high12: "bit (high12 rs2 f7) n \<longleftrightarrow> (if n < 5 then bit rs2 n else bit f7 (n - 5))"
  by (cases "n < 12") (auto simp: high12_def bit_simps bit_beyond)

lemma frame_fields_high [simp]:
  "BITS32 (frame opc rd f3 rs1 rs2 f7) 31 20 = ucast (high12 rs2 f7)"
  "funct5 (frame opc rd f3 rs1 rs2 f7) = ucast (ucast (drop_bit 2 f7) :: 5 word)"
  "BIT (frame opc rd f3 rs1 rs2 f7) 30 = of_bool (bit f7 5)"
  unfolding funct5_def
    apply (rule BITS32_field; simp add: bit_frame bit_high12)
   apply (rule BITS32_field; simp add: bit_frame bit_simps)
  apply (simp add: BIT_eq bit_frame)
  done

section \<open>Immediates\<close>

text \<open>The fields \<open>rs2\<close> and \<open>funct7\<close> of a 12-bit immediate in the I format.\<close>

definition imm_lo :: "12 word \<Rightarrow> 5 word" where "imm_lo imm = ucast imm"
definition imm_hi :: "12 word \<Rightarrow> 7 word" where "imm_hi imm = ucast (drop_bit 5 imm)"

lemma high12_imm: "high12 (imm_lo imm) (imm_hi imm) = imm"
  by (rule bit_word_eqI) (auto simp: bit_high12 imm_lo_def imm_hi_def bit_simps)

text \<open>The fields \<open>rd\<close> and \<open>funct7\<close> that hold half a branch offset, in the B format.\<close>

definition b_lo :: "12 word \<Rightarrow> 5 word" where
  "b_lo b = push_bit 1 (ucast (take_bit 4 b)) OR of_bool (bit b 10)"
definition b_hi :: "12 word \<Rightarrow> 7 word" where
  "b_hi b = ucast (take_bit 6 (drop_bit 4 b)) OR push_bit 6 (ucast (drop_bit 11 b))"

text \<open>The four fields that hold half a jump offset, in the J format.\<close>

definition j_f3 :: "20 word \<Rightarrow> 3 word" where "j_f3 j = ucast (drop_bit 11 j)"
definition j_rs1 :: "20 word \<Rightarrow> 5 word" where "j_rs1 j = ucast (drop_bit 14 j)"
definition j_rs2 :: "20 word \<Rightarrow> 5 word" where
  "j_rs2 j = push_bit 1 (ucast (take_bit 4 j)) OR of_bool (bit j 10)"
definition j_f7 :: "20 word \<Rightarrow> 7 word" where
  "j_f7 j = ucast (take_bit 6 (drop_bit 4 j)) OR push_bit 6 (ucast (drop_bit 19 j))"

text \<open>The four fields of an upper immediate.\<close>

definition u_f3 :: "20 word \<Rightarrow> 3 word" where "u_f3 u = ucast u"
definition u_rs1 :: "20 word \<Rightarrow> 5 word" where "u_rs1 u = ucast (drop_bit 3 u)"
definition u_rs2 :: "20 word \<Rightarrow> 5 word" where "u_rs2 u = ucast (drop_bit 8 u)"
definition u_f7 :: "20 word \<Rightarrow> 7 word" where "u_f7 u = ucast (drop_bit 13 u)"

lemmas field_defs = imm_lo_def imm_hi_def b_lo_def b_hi_def j_f3_def j_rs1_def j_rs2_def
  j_f7_def u_f3_def u_rs1_def u_rs2_def u_f7_def

lemma bit_push: "bit (push_bit m (w::'a::len word)) n \<longleftrightarrow> m \<le> n \<and> n < LENGTH('a) \<and> bit w (n - m)"
  by (simp add: bit_simps)

lemma sign_bit: "bit (scast (w::'a::len word) :: u64) n \<longleftrightarrow> n < 64 \<and> bit w (min n (LENGTH('a) - 1))"
  by (simp add: bit_simps min.commute)

lemma bit_lo_fields:
  "bit (b_lo b) n \<longleftrightarrow> n < 5 \<and> (if n = 0 then bit b 10 else bit b (n - 1))"
  "bit (j_rs2 j) n \<longleftrightarrow> n < 5 \<and> (if n = 0 then bit j 10 else bit j (n - 1))"
  unfolding b_lo_def j_rs2_def bit_or_iff bit_push by (auto simp: bit_simps)

lemma bit_hi_fields:
  "bit (b_hi b) n \<longleftrightarrow> (if n < 6 then bit b (n + 4) else n = 6 \<and> bit b 11)"
  "bit (j_f7 j) n \<longleftrightarrow> (if n < 6 then bit j (n + 4) else n = 6 \<and> bit j 19)"
  unfolding b_hi_def j_f7_def bit_or_iff bit_push
  by (cases "n = 6"; auto simp: bit_simps add.commute bit_beyond)+

lemma bit_plain_fields:
  "bit (imm_lo imm) n \<longleftrightarrow> n < 5 \<and> bit imm n"
  "bit (imm_hi imm) n \<longleftrightarrow> n < 7 \<and> bit imm (5 + n)"
  "bit (j_f3 j) n \<longleftrightarrow> n < 3 \<and> bit j (11 + n)"
  "bit (j_rs1 j) n \<longleftrightarrow> n < 5 \<and> bit j (14 + n)"
  "bit (u_f3 u) n \<longleftrightarrow> n < 3 \<and> bit u n"
  "bit (u_rs1 u) n \<longleftrightarrow> n < 5 \<and> bit u (3 + n)"
  "bit (u_rs2 u) n \<longleftrightarrow> n < 5 \<and> bit u (8 + n)"
  "bit (u_f7 u) n \<longleftrightarrow> n < 7 \<and> bit u (13 + n)"
  by (simp_all add: field_defs bit_simps)

lemmas imm_bits = bit_or_iff bit_push bit_EXPAND_BIT bit_BITS bit_BIT bit_frame sign_bit
  bit_lo_fields bit_hi_fields bit_plain_fields

lemma I_IMM_frame [simp]: "I_IMM (frame opc rd f3 rs1 (imm_lo imm) (imm_hi imm)) = scast imm"
proof (rule bit_word_eqI)
  fix n
  assume "n < LENGTH(64)"
  then show "bit (I_IMM (frame opc rd f3 rs1 (imm_lo imm) (imm_hi imm))) n \<longleftrightarrow> bit (scast imm :: u64) n"
    unfolding I_IMM_def imm_bits
    by (cases "n < 5"; cases "n < 11"; cases "n = 11") (auto simp: min_def bit_beyond)
qed

lemma S_IMM_frame [simp]: "S_IMM (frame opc (imm_lo imm) f3 rs1 rs2 (imm_hi imm)) = scast imm"
proof (rule bit_word_eqI)
  fix n
  assume "n < LENGTH(64)"
  then show "bit (S_IMM (frame opc (imm_lo imm) f3 rs1 rs2 (imm_hi imm))) n \<longleftrightarrow> bit (scast imm :: u64) n"
    unfolding S_IMM_def imm_bits
    by (cases "n < 5"; cases "n < 11"; cases "n = 11") (auto simp: min_def bit_beyond)
qed

lemma U_IMM_frame [simp]:
  "U_IMM (frame opc rd (u_f3 u) (u_rs1 u) (u_rs2 u) (u_f7 u)) = push_bit 12 (scast u)"
proof (rule bit_word_eqI)
  fix n
  assume n: "n < LENGTH(64)"
  consider "n < 12" | "12 \<le> n" "n < 15" | "15 \<le> n" "n < 20" | "20 \<le> n" "n < 25" | "25 \<le> n" "n < 31"
    | "n = 31" | "32 \<le> n"
    by linarith
  then show "bit (U_IMM (frame opc rd (u_f3 u) (u_rs1 u) (u_rs2 u) (u_f7 u))) n \<longleftrightarrow>
      bit (push_bit 12 (scast u) :: u64) n"
    unfolding U_IMM_def imm_bits using n by cases (auto simp: min_def bit_beyond)
qed

lemma B_IMM_frame [simp]: "B_IMM (frame opc (b_lo b) f3 rs1 rs2 (b_hi b)) = push_bit 1 (scast b)"
proof (rule bit_word_eqI)
  fix n
  assume n: "n < LENGTH(64)"
  consider "n = 0" | "1 \<le> n" "n < 5" | "5 \<le> n" "n < 11" | "n = 11" | "n = 12" | "13 \<le> n"
    by linarith
  then show "bit (B_IMM (frame opc (b_lo b) f3 rs1 rs2 (b_hi b))) n \<longleftrightarrow> bit (push_bit 1 (scast b) :: u64) n"
    unfolding B_IMM_def imm_bits using n by cases (auto simp: min_def bit_beyond)
qed

lemma J_IMM_frame [simp]:
  "J_IMM (frame opc rd (j_f3 j) (j_rs1 j) (j_rs2 j) (j_f7 j)) = push_bit 1 (scast j)"
proof (rule bit_word_eqI)
  fix n
  assume n: "n < LENGTH(64)"
  consider "n = 0" | "1 \<le> n" "n < 5" | "5 \<le> n" "n < 11" | "n = 11" | "12 \<le> n" "n < 15"
    | "15 \<le> n" "n < 20" | "20 \<le> n"
    by linarith
  then show "bit (J_IMM (frame opc rd (j_f3 j) (j_rs1 j) (j_rs2 j) (j_f7 j))) n \<longleftrightarrow>
      bit (push_bit 1 (scast j) :: u64) n"
    unfolding J_IMM_def imm_bits using n by cases (auto simp: min_def bit_beyond)
qed

text \<open>The shift amounts of the I format: the low 6 or 5 bits of the immediate field.\<close>

lemma M_IMM_frame [simp]:
  "M_IMM6 (frame opc rd f3 rs1 (imm_lo imm) (imm_hi imm)) = ucast (take_bit 6 imm)"
  "M_IMM5 (frame opc rd f3 rs1 (imm_lo imm) (imm_hi imm)) = ucast (take_bit 5 imm)"
proof (rule_tac [!] bit_word_eqI)
  fix n
  assume "n < LENGTH(64)"
  then show "bit (M_IMM6 (frame opc rd f3 rs1 (imm_lo imm) (imm_hi imm))) n \<longleftrightarrow>
      bit (ucast (take_bit 6 imm) :: u64) n"
    unfolding M_IMM6_def imm_bits by (cases "n < 5"; cases "n = 5") (auto simp: bit_simps)
  from \<open>n < LENGTH(64)\<close> show "bit (M_IMM5 (frame opc rd f3 rs1 (imm_lo imm) (imm_hi imm))) n \<longleftrightarrow>
      bit (ucast (take_bit 5 imm) :: u64) n"
    unfolding M_IMM5_def imm_bits by (cases "n < 5") (auto simp: bit_simps)
qed

lemma C_IMM_frame [simp]: "C_IMM (frame opc rd f3 rs1 rs2 f7) = ucast rs1"
  by (rule bit_word_eqI, unfold C_IMM_def imm_bits) (auto simp: bit_simps bit_beyond)

section \<open>Instructions\<close>

type_synonym regno = "5 word"

datatype insn =
    ILui regno "20 word"
  | IAuipc regno "20 word"
  | IJal regno "20 word"
  | IJalr regno regno "12 word"
  | IBranch branch_op regno regno "12 word"
  | ILoad load_op regno regno "12 word"
  | IStore store_op regno regno "12 word"
  | IImm imm_op regno regno "12 word"
  | IReg reg_op regno regno regno
  | IMulDiv muldiv_op regno regno regno
  | IAmo amo_op bool bool regno regno regno
  | ICsr csr_op regno "12 word" regno

definition branch_f3 :: "branch_op \<Rightarrow> 3 word" where
  "branch_f3 b = (case b of BEQ \<Rightarrow> 0 | BNE \<Rightarrow> 1 | BLT \<Rightarrow> 4 | BGE \<Rightarrow> 5 | BLTU \<Rightarrow> 6 | BGEU \<Rightarrow> 7)"

definition load_f3 :: "load_op \<Rightarrow> 3 word" where
  "load_f3 l = (case l of LB \<Rightarrow> 0 | LH \<Rightarrow> 1 | LW \<Rightarrow> 2 | LD \<Rightarrow> 3 | LBU \<Rightarrow> 4 | LHU \<Rightarrow> 5 | LWU \<Rightarrow> 6)"

definition store_f3 :: "store_op \<Rightarrow> 3 word" where
  "store_f3 s = (case s of SB \<Rightarrow> 0 | SH \<Rightarrow> 1 | SW \<Rightarrow> 2 | SD \<Rightarrow> 3)"

definition imm_code :: "imm_op \<Rightarrow> 7 word \<times> 3 word" where
  "imm_code x = (case x of
      ADDI \<Rightarrow> (0x13, 0) | SLLI \<Rightarrow> (0x13, 1) | SLTI \<Rightarrow> (0x13, 2) | SLTIU \<Rightarrow> (0x13, 3)
    | XORI \<Rightarrow> (0x13, 4) | SRLI \<Rightarrow> (0x13, 5) | SRAI \<Rightarrow> (0x13, 5) | ORI \<Rightarrow> (0x13, 6)
    | ANDI \<Rightarrow> (0x13, 7) | ADDIW \<Rightarrow> (0x1B, 0) | SLLIW \<Rightarrow> (0x1B, 1) | SRLIW \<Rightarrow> (0x1B, 5)
    | SRAIW \<Rightarrow> (0x1B, 5))"

text \<open>A shift keeps the amount of its immediate and marks a right arithmetic shift by bit 10.\<close>

definition imm_field :: "imm_op \<Rightarrow> 12 word \<Rightarrow> 12 word" where
  "imm_field x imm =
    (if x \<in> {SLLI, SRLI} then take_bit 6 imm
     else if x = SRAI then take_bit 6 imm OR 0x400
     else if x \<in> {SLLIW, SRLIW} then take_bit 5 imm
     else if x = SRAIW then take_bit 5 imm OR 0x400
     else imm)"

definition imm_value :: "imm_op \<Rightarrow> 12 word \<Rightarrow> u64" where
  "imm_value x imm =
    (if x \<in> {SLLI, SRLI, SRAI} then ucast (take_bit 6 imm)
     else if x \<in> {SLLIW, SRLIW, SRAIW} then ucast (take_bit 5 imm)
     else scast imm)"

definition reg_code :: "reg_op \<Rightarrow> 7 word \<times> 3 word \<times> 7 word" where
  "reg_code x = (case x of
      ADD \<Rightarrow> (0x33, 0, 0) | SUB \<Rightarrow> (0x33, 0, 0x20) | SLL \<Rightarrow> (0x33, 1, 0) | SLT \<Rightarrow> (0x33, 2, 0)
    | SLTU \<Rightarrow> (0x33, 3, 0) | XOR_R \<Rightarrow> (0x33, 4, 0) | SRL \<Rightarrow> (0x33, 5, 0) | SRA \<Rightarrow> (0x33, 5, 0x20)
    | OR_R \<Rightarrow> (0x33, 6, 0) | AND_R \<Rightarrow> (0x33, 7, 0) | ADDW \<Rightarrow> (0x3B, 0, 0) | SUBW \<Rightarrow> (0x3B, 0, 0x20)
    | SLLW \<Rightarrow> (0x3B, 1, 0) | SRLW \<Rightarrow> (0x3B, 5, 0) | SRAW \<Rightarrow> (0x3B, 5, 0x20))"

definition muldiv_code :: "muldiv_op \<Rightarrow> 7 word \<times> 3 word" where
  "muldiv_code x = (case x of
      MUL \<Rightarrow> (0x33, 0) | MULH \<Rightarrow> (0x33, 1) | MULHSU \<Rightarrow> (0x33, 2) | MULHU \<Rightarrow> (0x33, 3)
    | DIV \<Rightarrow> (0x33, 4) | DIVU \<Rightarrow> (0x33, 5) | REM \<Rightarrow> (0x33, 6) | REMU \<Rightarrow> (0x33, 7)
    | MULW \<Rightarrow> (0x3B, 0) | DIVW \<Rightarrow> (0x3B, 4) | DIVUW \<Rightarrow> (0x3B, 5) | REMW \<Rightarrow> (0x3B, 6)
    | REMUW \<Rightarrow> (0x3B, 7))"

text \<open>The 5 function bits of an atomic operation, and whether it is on a double word.\<close>

definition amo_code :: "amo_op \<Rightarrow> 5 word \<times> bool" where
  "amo_code x = (case x of
      AMO_ADD_D \<Rightarrow> (0, True) | AMO_SWAP_D \<Rightarrow> (1, True) | LR_D \<Rightarrow> (2, True) | SC_D \<Rightarrow> (3, True)
    | AMO_XOR_D \<Rightarrow> (4, True) | AMO_OR_D \<Rightarrow> (8, True) | AMO_AND_D \<Rightarrow> (12, True)
    | AMO_MIN_D \<Rightarrow> (16, True) | AMO_MAX_D \<Rightarrow> (20, True) | AMO_MINU_D \<Rightarrow> (24, True)
    | AMO_MAXU_D \<Rightarrow> (28, True)
    | AMO_ADD_W \<Rightarrow> (0, False) | AMO_SWAP_W \<Rightarrow> (1, False) | LR_W \<Rightarrow> (2, False) | SC_W \<Rightarrow> (3, False)
    | AMO_XOR_W \<Rightarrow> (4, False) | AMO_OR_W \<Rightarrow> (8, False) | AMO_AND_W \<Rightarrow> (12, False)
    | AMO_MIN_W \<Rightarrow> (16, False) | AMO_MAX_W \<Rightarrow> (20, False) | AMO_MINU_W \<Rightarrow> (24, False)
    | AMO_MAXU_W \<Rightarrow> (28, False))"

definition csr_f3 :: "csr_op \<Rightarrow> 3 word" where
  "csr_f3 x = (case x of CSRRW \<Rightarrow> 1 | CSRRS \<Rightarrow> 2 | CSRRC \<Rightarrow> 3 | CSRRWI \<Rightarrow> 5 | CSRRSI \<Rightarrow> 6 | CSRRCI \<Rightarrow> 7)"

definition encode :: "insn \<Rightarrow> u32" where
  "encode i = (case i of
      ILui rd u \<Rightarrow> frame 0x37 rd (u_f3 u) (u_rs1 u) (u_rs2 u) (u_f7 u)
    | IAuipc rd u \<Rightarrow> frame 0x17 rd (u_f3 u) (u_rs1 u) (u_rs2 u) (u_f7 u)
    | IJal rd j \<Rightarrow> frame 0x6F rd (j_f3 j) (j_rs1 j) (j_rs2 j) (j_f7 j)
    | IJalr rd rs1 imm \<Rightarrow> frame 0x67 rd 0 rs1 (imm_lo imm) (imm_hi imm)
    | IBranch b rs1 rs2 off \<Rightarrow> frame 0x63 (b_lo off) (branch_f3 b) rs1 rs2 (b_hi off)
    | ILoad l rd rs1 imm \<Rightarrow> frame 0x03 rd (load_f3 l) rs1 (imm_lo imm) (imm_hi imm)
    | IStore s rs2 rs1 imm \<Rightarrow> frame 0x23 (imm_lo imm) (store_f3 s) rs1 rs2 (imm_hi imm)
    | IImm x rd rs1 imm \<Rightarrow>
        (case imm_code x of (opc, f3) \<Rightarrow>
           frame opc rd f3 rs1 (imm_lo (imm_field x imm)) (imm_hi (imm_field x imm)))
    | IReg x rd rs1 rs2 \<Rightarrow> (case reg_code x of (opc, f3, f7) \<Rightarrow> frame opc rd f3 rs1 rs2 f7)
    | IMulDiv x rd rs1 rs2 \<Rightarrow> (case muldiv_code x of (opc, f3) \<Rightarrow> frame opc rd f3 rs1 rs2 1)
    | IAmo x aq rl rd rs1 rs2 \<Rightarrow>
        (case amo_code x of (f5, dw) \<Rightarrow>
           frame 0x2F rd (if dw then 3 else 2) rs1 rs2
             (push_bit 2 (ucast f5) OR push_bit 1 (of_bool aq) OR of_bool rl))
    | ICsr x rd csr rs1 \<Rightarrow> frame 0x73 rd (csr_f3 x) rs1 (imm_lo csr) (imm_hi csr))"

text \<open>What the decoder should return: the operation, the operands, and the immediate.\<close>

definition meaning :: "insn \<Rightarrow> decoded \<Rightarrow> bool" where
  "meaning i d \<longleftrightarrow> (case i of
      ILui rd u \<Rightarrow> d_op d = LUI \<and> d_rd d = ucast rd \<and> d_imm d = push_bit 12 (scast u)
    | IAuipc rd u \<Rightarrow> d_op d = AUIPC \<and> d_rd d = ucast rd \<and> d_imm d = push_bit 12 (scast u)
    | IJal rd j \<Rightarrow> d_op d = JAL \<and> d_rd d = ucast rd \<and> d_imm d = push_bit 1 (scast j)
    | IJalr rd rs1 imm \<Rightarrow>
        d_op d = JALR \<and> d_rd d = ucast rd \<and> d_rs1 d = ucast rs1 \<and> d_imm d = scast imm
    | IBranch b rs1 rs2 off \<Rightarrow>
        d_op d = OpBranch b \<and> d_rd d = 0 \<and> d_rs1 d = ucast rs1 \<and> d_rs2 d = ucast rs2 \<and>
        d_imm d = push_bit 1 (scast off)
    | ILoad l rd rs1 imm \<Rightarrow>
        d_op d = OpLoad l \<and> d_rd d = ucast rd \<and> d_rs1 d = ucast rs1 \<and> d_imm d = scast imm
    | IStore s rs2 rs1 imm \<Rightarrow>
        d_op d = OpStore s \<and> d_rd d = 0 \<and> d_rs1 d = ucast rs1 \<and> d_rs2 d = ucast rs2 \<and>
        d_imm d = scast imm
    | IImm x rd rs1 imm \<Rightarrow>
        d_op d = OpImm x \<and> d_rd d = ucast rd \<and> d_rs1 d = ucast rs1 \<and> d_imm d = imm_value x imm
    | IReg x rd rs1 rs2 \<Rightarrow>
        d_op d = OpReg x \<and> d_rd d = ucast rd \<and> d_rs1 d = ucast rs1 \<and> d_rs2 d = ucast rs2
    | IMulDiv x rd rs1 rs2 \<Rightarrow>
        d_op d = OpMulDiv x \<and> d_rd d = ucast rd \<and> d_rs1 d = ucast rs1 \<and> d_rs2 d = ucast rs2
    | IAmo x aq rl rd rs1 rs2 \<Rightarrow>
        d_op d = OpAmo x \<and> d_rd d = ucast rd \<and> d_rs1 d = ucast rs1 \<and> d_rs2 d = ucast rs2
    | ICsr x rd csr rs1 \<Rightarrow>
        d_op d = OpCsr x \<and> d_rd d = ucast rd \<and> d_rs1 d = ucast rs1 \<and>
        d_csr_addr d = ucast csr \<and> (x \<in> {CSRRWI, CSRRSI, CSRRCI} \<longrightarrow> d_imm d = ucast rs1))"

section \<open>Decoding\<close>

lemma frame_and_3: "frame opc rd f3 rs1 rs2 f7 AND 3 = ucast (opc AND 3)"
proof -
  have 3: "(3::u32) = mask 2" "(3::7 word) = mask 2"
    by (simp_all add: mask_eq_exp_minus_1)
  show ?thesis
    unfolding 3 by (rule bit_word_eqI) (auto simp: bit_simps bit_frame)
qed

lemma decode_frame:
  "opc AND 3 = 3 \<Longrightarrow>
   decode pc (frame opc rd f3 rs1 rs2 f7) =
     and_then (dec32 (frame opc rd f3 rs1 rs2 f7)) (\<lambda>d. Inr (pc + 4, d))"
  by (simp add: decode_def frame_and_3)

lemmas dec32_simps = dec32_def dec32_fields_def Let_def dec32_branch_def dec32_load_def
  dec32_store_def dec32_imm_def dec32_imm_w_def dec32_reg_def dec32_reg_w_def dec32_system_def
  dec32_amo_def

lemma bit_imm_hi: "bit (imm_hi imm) 5 = bit imm 10"
  by (simp add: bit_plain_fields)

lemma decode_imm:
  "\<exists>d. decode pc (encode (IImm x rd rs1 imm)) = Inr (pc + 4, d) \<and> meaning (IImm x rd rs1 imm) d"
  by (cases x)
     (simp_all add: encode_def meaning_def imm_code_def imm_field_def imm_value_def decode_frame
        dec32_simps bit_imm_hi bit_simps)

lemma decode_reg:
  "\<exists>d. decode pc (encode (IReg x rd rs1 rs2)) = Inr (pc + 4, d) \<and> meaning (IReg x rd rs1 rs2) d"
  by (cases x) (simp_all add: encode_def meaning_def reg_code_def decode_frame dec32_simps bit_simps)

lemma decode_muldiv:
  "\<exists>d. decode pc (encode (IMulDiv x rd rs1 rs2)) = Inr (pc + 4, d) \<and> meaning (IMulDiv x rd rs1 rs2) d"
  by (cases x) (simp_all add: encode_def meaning_def muldiv_code_def decode_frame dec32_simps)

lemma decode_amo:
  "\<exists>d. decode pc (encode (IAmo x aq rl rd rs1 rs2)) = Inr (pc + 4, d) \<and>
     meaning (IAmo x aq rl rd rs1 rs2) d"
  by (cases x) (simp_all add: encode_def meaning_def amo_code_def decode_frame dec32_simps)

lemma decode_csr:
  "\<exists>d. decode pc (encode (ICsr x rd csr rs1)) = Inr (pc + 4, d) \<and> meaning (ICsr x rd csr rs1) d"
  by (cases x) (simp_all add: encode_def meaning_def csr_f3_def decode_frame dec32_simps high12_imm)

lemma decode_insn: "\<exists>d. decode pc (encode i) = Inr (pc + 4, d) \<and> meaning i d"
proof (cases i)
  case (IBranch b rs1 rs2 off)
  then show ?thesis
    by (cases b) (simp_all add: encode_def meaning_def branch_f3_def decode_frame dec32_simps)
next
  case (ILoad l rd rs1 imm)
  then show ?thesis
    by (cases l) (simp_all add: encode_def meaning_def load_f3_def decode_frame dec32_simps)
next
  case (IStore s rs2 rs1 imm)
  then show ?thesis
    by (cases s) (simp_all add: encode_def meaning_def store_f3_def decode_frame dec32_simps)
next
  case (IImm x rd rs1 imm)
  then show ?thesis by (simp add: decode_imm)
next
  case (IReg x rd rs1 rs2)
  then show ?thesis by (simp add: decode_reg)
next
  case (IMulDiv x rd rs1 rs2)
  then show ?thesis by (simp add: decode_muldiv)
next
  case (IAmo x aq rl rd rs1 rs2)
  then show ?thesis by (simp add: decode_amo)
next
  case (ICsr x rd csr rs1)
  then show ?thesis by (simp add: decode_csr)
qed (simp_all add: encode_def meaning_def decode_frame dec32_simps)

text \<open>C4.  The decoder gives back every encoded instruction: for each operation of the base
  integer, multiply, atomic and CSR sets and all its operands, the instruction word laid out
  as the ISA manual says decodes to that operation with those registers, to the immediate
  sign-extended (the shift amount, the shifted offset), and to the next address 4 further.\<close>

theorem decode_encode: "\<exists>d. decode pc (encode i) = Inr (pc + 4, d) \<and> meaning i d"
  by (rule decode_insn)

end
