(* ===== verification/Rvc.thy ===== *)
theory Rvc
  imports Encode
begin

text \<open>
  The compressed instructions of the ISA manual: their nine 16-bit formats, as an encoder, and
  the instruction each of them stands for.  \<open>dec16\<close> is compared with both.
\<close>

section \<open>The frame\<close>

text \<open>All formats share five fields: bits 1..0, 6..2, 11..7, 12 and 15..13.\<close>

definition cframe :: "2 word \<Rightarrow> 5 word \<Rightarrow> 5 word \<Rightarrow> bool \<Rightarrow> 3 word \<Rightarrow> u16" where
  "cframe q a b s f3 =
     ucast q OR push_bit 2 (ucast a) OR push_bit 7 (ucast b) OR push_bit 12 (of_bool s) OR
     push_bit 13 (ucast f3)"

lemma bit_cframe:
  "bit (cframe q a b s f3) n \<longleftrightarrow>
     (if n < 2 then bit q n
      else if n < 7 then bit a (n - 2)
      else if n < 12 then bit b (n - 7)
      else if n = 12 then s
      else bit f3 (n - 13))"
proof -
  consider "n < 2" | "2 \<le> n" "n < 7" | "7 \<le> n" "n < 12" | "n = 12" | "13 \<le> n" "n < 16" | "16 \<le> n"
    by linarith
  then show ?thesis
    by cases (auto simp: cframe_def bit_simps bit_beyond)
qed

text \<open>A field from its bits, the lowest first, and one that names a register of \<open>x8\<close> to \<open>x15\<close>.\<close>

definition field :: "bool list \<Rightarrow> 5 word" where
  "field bs = horner_sum of_bool 2 bs"

lemma bit_field: "bit (field bs) n \<longleftrightarrow> n < 5 \<and> n < length bs \<and> bs ! n"
  by (auto simp: field_def bit_horner_sum_bit_word_iff)

definition rfield :: "3 word \<Rightarrow> bool \<Rightarrow> bool \<Rightarrow> 5 word" where
  "rfield r x y = field [bit r 0, bit r 1, bit r 2, x, y]"

definition creg :: "3 word \<Rightarrow> regno" where
  "creg r = 8 + ucast r"

lemma less_Suc_numeral: "n < Suc 0 \<longleftrightarrow> n = 0" "n < 2 \<longleftrightarrow> n = 0 \<or> n = 1"
    "n < 3 \<longleftrightarrow> n = 0 \<or> n = 1 \<or> n = (2::nat)" "n < 5 \<longleftrightarrow> n = 0 \<or> n = 1 \<or> n = 2 \<or> n = 3 \<or> n = (4::nat)"
  by auto

lemma ucast_creg: "ucast (creg r) = 8 + (ucast r :: u32)"
proof -
  have "unat r < 2 ^ LENGTH(3)"
    by (rule unsigned_less)
  then have "unat (ucast (creg r) :: u32) = unat (8 + ucast r :: u32)"
    by (simp add: creg_def unsigned_ucast_eq unat_word_ariths take_bit_nat_eq_self)
  then show ?thesis
    by (rule word_eq_iff_unsigned [THEN iffD2])
qed

lemma cframe_fields [simp]:
  "BITS32 (cframe q a b s f3) (Suc 0) 0 = ucast q"
  "funct3_16 (cframe q a b s f3) = ucast f3"
  "BITS32 (cframe q a b s f3) 6 2 = ucast a"
  "BITS32 (cframe q a b s f3) 11 7 = ucast b"
  unfolding funct3_16_def
  by (rule BITS32_field; simp add: bit_cframe)+

lemma cframe_regs [simp]:
  "rlow (cframe q (rfield r x y) b s f3) = ucast (creg r)"
  "rhigh (cframe q a (rfield r x y) s f3) = ucast (creg r)"
proof -
  have "BITS32 (cframe q (rfield r x y) b s f3) 4 2 = ucast r"
    by (rule BITS32_field) (auto simp: bit_cframe rfield_def bit_field less_Suc_numeral)
  then show "rlow (cframe q (rfield r x y) b s f3) = ucast (creg r)"
    by (simp add: rlow_def ucast_creg)
  have "BITS32 (cframe q a (rfield r x y) s f3) 9 7 = ucast r"
    by (rule BITS32_field) (auto simp: bit_cframe rfield_def bit_field less_Suc_numeral)
  then show "rhigh (cframe q a (rfield r x y) s f3) = ucast (creg r)"
    by (simp add: rhigh_def ucast_creg)
qed

text \<open>The function bits beside a three-bit register.\<close>

definition two :: "bool \<Rightarrow> bool \<Rightarrow> 2 word" where
  "two x y = of_bool x OR push_bit 1 (of_bool y)"

lemma cframe_functs [simp]:
  "BITS32 (cframe q (rfield r x y) b s f3) 6 5 = ucast (two x y)"
  "BITS32 (cframe q a (rfield r x y) s f3) 11 10 = ucast (two x y)"
  "BIT (cframe q a b s f3) 12 = of_bool s"
    apply (rule BITS32_field; auto simp: bit_cframe rfield_def bit_field two_def bit_simps less_Suc_numeral)
   apply (rule BITS32_field; auto simp: bit_cframe rfield_def bit_field two_def bit_simps less_Suc_numeral)
  apply (simp add: BIT_eq bit_cframe)
  done

lemma two_eval [simp]: "two False False = 0" "two True False = 1" "two False True = 2" "two True True = 3"
  by (simp_all add: two_def push_bit_eq_mult)

section \<open>The instructions\<close>

text \<open>
  An offset or immediate is a word of the bits the instruction carries; the bits below them
  are zero.
\<close>

datatype calu = C_SUB | C_XOR | C_OR | C_AND | C_SUBW | C_ADDW

datatype rvc =
    C_ADDI4SPN "3 word" "8 word"
  | C_FLD "3 word" "3 word" "5 word"
  | C_LW "3 word" "3 word" "5 word"
  | C_LD "3 word" "3 word" "5 word"
  | C_FSD "3 word" "3 word" "5 word"
  | C_SW "3 word" "3 word" "5 word"
  | C_SD "3 word" "3 word" "5 word"
  | C_ADDI regno "6 word"
  | C_ADDIW regno "6 word"
  | C_LI regno "6 word"
  | C_ADDI16SP "6 word"
  | C_LUI regno "6 word"
  | C_SRLI "3 word" "6 word"
  | C_SRAI "3 word" "6 word"
  | C_ANDI "3 word" "6 word"
  | C_ALU calu "3 word" "3 word"
  | C_J "11 word"
  | C_BEQZ "3 word" "8 word"
  | C_BNEZ "3 word" "8 word"
  | C_SLLI regno "6 word"
  | C_FLDSP regno "6 word"
  | C_LWSP regno "6 word"
  | C_LDSP regno "6 word"
  | C_JR regno
  | C_MV regno regno
  | C_EBREAK
  | C_JALR regno
  | C_ADD regno regno
  | C_FSDSP regno "6 word"
  | C_SWSP regno "6 word"
  | C_SDSP regno "6 word"

definition w_frame :: "3 word \<Rightarrow> 3 word \<Rightarrow> 3 word \<Rightarrow> 5 word \<Rightarrow> u16" where
  "w_frame f3 r base u = cframe 0 (rfield r (bit u 4) (bit u 0)) (rfield base (bit u 1) (bit u 2)) (bit u 3) f3"

definition d_frame :: "3 word \<Rightarrow> 3 word \<Rightarrow> 3 word \<Rightarrow> 5 word \<Rightarrow> u16" where
  "d_frame f3 r base u = cframe 0 (rfield r (bit u 3) (bit u 4)) (rfield base (bit u 0) (bit u 1)) (bit u 2) f3"

definition i_frame :: "2 word \<Rightarrow> 3 word \<Rightarrow> 5 word \<Rightarrow> 6 word \<Rightarrow> u16" where
  "i_frame q f3 rd i = cframe q (ucast i) rd (bit i 5) f3"

definition b_frame :: "3 word \<Rightarrow> 3 word \<Rightarrow> 8 word \<Rightarrow> u16" where
  "b_frame f3 r c = cframe 1 (field [bit c 4, bit c 0, bit c 1, bit c 5, bit c 6])
     (rfield r (bit c 2) (bit c 3)) (bit c 7) f3"

definition lwsp_field :: "6 word \<Rightarrow> 5 word" where
  "lwsp_field u = field [bit u 4, bit u 5, bit u 0, bit u 1, bit u 2]"

definition ldsp_field :: "6 word \<Rightarrow> 5 word" where
  "ldsp_field u = field [bit u 3, bit u 4, bit u 5, bit u 0, bit u 1]"

definition c_encode :: "rvc \<Rightarrow> u16" where
  "c_encode c = (case c of
      C_ADDI4SPN rd u \<Rightarrow>
        cframe 0 (rfield rd (bit u 1) (bit u 0)) (field [bit u 4, bit u 5, bit u 6, bit u 7, bit u 2]) (bit u 3) 0
    | C_FLD rd rs1 u \<Rightarrow> d_frame 1 rd rs1 u
    | C_LW rd rs1 u \<Rightarrow> w_frame 2 rd rs1 u
    | C_LD rd rs1 u \<Rightarrow> d_frame 3 rd rs1 u
    | C_FSD rs2 rs1 u \<Rightarrow> d_frame 5 rs2 rs1 u
    | C_SW rs2 rs1 u \<Rightarrow> w_frame 6 rs2 rs1 u
    | C_SD rs2 rs1 u \<Rightarrow> d_frame 7 rs2 rs1 u
    | C_ADDI rd i \<Rightarrow> i_frame 1 0 rd i
    | C_ADDIW rd i \<Rightarrow> i_frame 1 1 rd i
    | C_LI rd i \<Rightarrow> i_frame 1 2 rd i
    | C_ADDI16SP i \<Rightarrow> cframe 1 (field [bit i 1, bit i 3, bit i 4, bit i 2, bit i 0]) 2 (bit i 5) 3
    | C_LUI rd i \<Rightarrow> i_frame 1 3 rd i
    | C_SRLI r i \<Rightarrow> i_frame 1 4 (rfield r False False) i
    | C_SRAI r i \<Rightarrow> i_frame 1 4 (rfield r True False) i
    | C_ANDI r i \<Rightarrow> i_frame 1 4 (rfield r False True) i
    | C_ALU x r r2 \<Rightarrow>
        (let (w, f, g) = (case x of C_SUB \<Rightarrow> (False, False, False) | C_XOR \<Rightarrow> (False, True, False)
           | C_OR \<Rightarrow> (False, False, True) | C_AND \<Rightarrow> (False, True, True)
           | C_SUBW \<Rightarrow> (True, False, False) | C_ADDW \<Rightarrow> (True, True, False)) in
         cframe 1 (rfield r2 f g) (rfield r True True) w 4)
    | C_J j \<Rightarrow> cframe 1 (field [bit j 4, bit j 0, bit j 1, bit j 2, bit j 6])
        (field [bit j 5, bit j 9, bit j 7, bit j 8, bit j 3]) (bit j 10) 5
    | C_BEQZ r c \<Rightarrow> b_frame 6 r c
    | C_BNEZ r c \<Rightarrow> b_frame 7 r c
    | C_SLLI rd i \<Rightarrow> i_frame 2 0 rd i
    | C_FLDSP rd u \<Rightarrow> cframe 2 (ldsp_field u) rd (bit u 2) 1
    | C_LWSP rd u \<Rightarrow> cframe 2 (lwsp_field u) rd (bit u 3) 2
    | C_LDSP rd u \<Rightarrow> cframe 2 (ldsp_field u) rd (bit u 2) 3
    | C_JR rs1 \<Rightarrow> cframe 2 0 rs1 False 4
    | C_MV rd rs2 \<Rightarrow> cframe 2 rs2 rd False 4
    | C_EBREAK \<Rightarrow> cframe 2 0 0 True 4
    | C_JALR rs1 \<Rightarrow> cframe 2 0 rs1 True 4
    | C_ADD rd rs2 \<Rightarrow> cframe 2 rs2 rd True 4
    | C_FSDSP rs2 u \<Rightarrow> cframe 2 rs2 (ldsp_field u) (bit u 2) 5
    | C_SWSP rs2 u \<Rightarrow> cframe 2 rs2 (lwsp_field u) (bit u 3) 6
    | C_SDSP rs2 u \<Rightarrow> cframe 2 rs2 (ldsp_field u) (bit u 2) 7)"

text \<open>The operands the manual reserves are excluded.\<close>

definition c_legal :: "rvc \<Rightarrow> bool" where
  "c_legal c = (case c of
      C_ADDI4SPN rd u \<Rightarrow> u \<noteq> 0
    | C_ADDIW rd i \<Rightarrow> rd \<noteq> 0
    | C_ADDI16SP i \<Rightarrow> i \<noteq> 0
    | C_LUI rd i \<Rightarrow> rd \<noteq> 2 \<and> i \<noteq> 0
    | C_LWSP rd u \<Rightarrow> rd \<noteq> 0
    | C_LDSP rd u \<Rightarrow> rd \<noteq> 0
    | C_JR rs1 \<Rightarrow> rs1 \<noteq> 0
    | C_MV rd rs2 \<Rightarrow> rs2 \<noteq> 0
    | C_JALR rs1 \<Rightarrow> rs1 \<noteq> 0
    | C_ADD rd rs2 \<Rightarrow> rd \<noteq> 0 \<and> rs2 \<noteq> 0
    | _ \<Rightarrow> True)"

text \<open>What a compressed instruction stands for.\<close>

datatype expansion =
    Insn insn
  | Fld regno regno "12 word"
  | Fsd regno regno "12 word"
  | Ebreak
  | Nop

definition expand :: "rvc \<Rightarrow> expansion" where
  "expand c = (case c of
      C_ADDI4SPN rd u \<Rightarrow> Insn (IImm ADDI (creg rd) 2 (push_bit 2 (ucast u)))
    | C_FLD rd rs1 u \<Rightarrow> Fld (creg rd) (creg rs1) (push_bit 3 (ucast u))
    | C_LW rd rs1 u \<Rightarrow> Insn (ILoad LW (creg rd) (creg rs1) (push_bit 2 (ucast u)))
    | C_LD rd rs1 u \<Rightarrow> Insn (ILoad LD (creg rd) (creg rs1) (push_bit 3 (ucast u)))
    | C_FSD rs2 rs1 u \<Rightarrow> Fsd (creg rs2) (creg rs1) (push_bit 3 (ucast u))
    | C_SW rs2 rs1 u \<Rightarrow> Insn (IStore SW (creg rs2) (creg rs1) (push_bit 2 (ucast u)))
    | C_SD rs2 rs1 u \<Rightarrow> Insn (IStore SD (creg rs2) (creg rs1) (push_bit 3 (ucast u)))
    | C_ADDI rd i \<Rightarrow> if rd = 0 then Nop else Insn (IImm ADDI rd rd (scast i))
    | C_ADDIW rd i \<Rightarrow> Insn (IImm ADDIW rd rd (scast i))
    | C_LI rd i \<Rightarrow> Insn (IImm ADDI rd 0 (scast i))
    | C_ADDI16SP i \<Rightarrow> Insn (IImm ADDI 2 2 (push_bit 4 (scast i)))
    | C_LUI rd i \<Rightarrow> Insn (ILui rd (scast i))
    | C_SRLI r i \<Rightarrow> Insn (IImm SRLI (creg r) (creg r) (ucast i))
    | C_SRAI r i \<Rightarrow> Insn (IImm SRAI (creg r) (creg r) (ucast i))
    | C_ANDI r i \<Rightarrow> Insn (IImm ANDI (creg r) (creg r) (scast i))
    | C_ALU x r r2 \<Rightarrow>
        Insn (IReg (case x of C_SUB \<Rightarrow> SUB | C_XOR \<Rightarrow> XOR_R | C_OR \<Rightarrow> OR_R | C_AND \<Rightarrow> AND_R
          | C_SUBW \<Rightarrow> SUBW | C_ADDW \<Rightarrow> ADDW) (creg r) (creg r) (creg r2))
    | C_J j \<Rightarrow> Insn (IJal 0 (scast j))
    | C_BEQZ r c \<Rightarrow> Insn (IBranch BEQ (creg r) 0 (scast c))
    | C_BNEZ r c \<Rightarrow> Insn (IBranch BNE (creg r) 0 (scast c))
    | C_SLLI rd i \<Rightarrow> Insn (IImm SLLI rd rd (ucast i))
    | C_FLDSP rd u \<Rightarrow> Fld rd 2 (push_bit 3 (ucast u))
    | C_LWSP rd u \<Rightarrow> Insn (ILoad LW rd 2 (push_bit 2 (ucast u)))
    | C_LDSP rd u \<Rightarrow> Insn (ILoad LD rd 2 (push_bit 3 (ucast u)))
    | C_JR rs1 \<Rightarrow> Insn (IJalr 0 rs1 0)
    | C_MV rd rs2 \<Rightarrow> Insn (IReg ADD rd 0 rs2)
    | C_EBREAK \<Rightarrow> Ebreak
    | C_JALR rs1 \<Rightarrow> Insn (IJalr 1 rs1 0)
    | C_ADD rd rs2 \<Rightarrow> Insn (IReg ADD rd rd rs2)
    | C_FSDSP rs2 u \<Rightarrow> Fsd rs2 2 (push_bit 3 (ucast u))
    | C_SWSP rs2 u \<Rightarrow> Insn (IStore SW rs2 2 (push_bit 2 (ucast u)))
    | C_SDSP rs2 u \<Rightarrow> Insn (IStore SD rs2 2 (push_bit 3 (ucast u))))"

definition expansion_meaning :: "expansion \<Rightarrow> decoded \<Rightarrow> bool" where
  "expansion_meaning x d \<longleftrightarrow> (case x of
      Insn i \<Rightarrow> meaning i d
    | Fld rd rs1 imm \<Rightarrow> d_op d = FLD \<and> d_rd d = ucast rd \<and> d_rs1 d = ucast rs1 \<and> d_imm d = scast imm
    | Fsd rs2 rs1 imm \<Rightarrow>
        d_op d = FSD \<and> d_rd d = 0 \<and> d_rs1 d = ucast rs1 \<and> d_rs2 d = ucast rs2 \<and> d_imm d = scast imm
    | Ebreak \<Rightarrow> d_op d = EBREAK \<and> d_rd d = 0
    | Nop \<Rightarrow> d_op d = NOP \<and> d_rd d = 0)"

section \<open>The immediates\<close>

lemma bit_BITS32_16: "bit (BITS32 (x::u16) h l) n \<longleftrightarrow> n < 32 \<and> n \<le> h - l \<and> bit x (l + n)"
  by (auto simp: BITS32_def bit_simps word_bits)

lemmas cbits = bit_or_iff bit_push bit_EXPAND_BIT bit_BIT bit_BITS32_16 bit_cframe bit_field sign_bit
  bit_ucast_iff rfield_def lwsp_field_def ldsp_field_def w_frame_def d_frame_def i_frame_def b_frame_def


text \<open>Two immediates are equal if they agree on the 12 low bits, one by one, and above.\<close>

lemma imm_eqI:
  fixes x y :: u64
  assumes "\<forall>n<12. bit x n = bit y n" "\<And>n. 12 \<le> n \<Longrightarrow> n < 64 \<Longrightarrow> bit x n = bit y n"
  shows "x = y"
proof (rule bit_word_eqI)
  fix n
  assume "n < LENGTH(64)"
  then show "bit x n = bit y n"
    using assms by (cases "n < 12") simp_all
qed

lemma all_less_12:
  "(\<forall>n<12. P n) \<longleftrightarrow> P 0 \<and> P 1 \<and> P 2 \<and> P 3 \<and> P 4 \<and> P 5 \<and> P 6 \<and> P 7 \<and> P 8 \<and> P 9 \<and> P 10 \<and> P (11::nat)"
  by (simp add: eval_nat_numeral All_less_Suc conj_ac)

lemmas imm_all = imm_eqI [OF all_less_12 [THEN iffD2]]

lemma I16_frame [simp]: "I16_IMM (i_frame q f3 rd i) = scast i"
  unfolding I16_IMM_def by (rule imm_eqI; unfold all_less_12 cbits; auto simp: min_def bit_beyond)

lemma UI_frame [simp]: "UI_IMM (i_frame q f3 rd i) = ucast i"
  unfolding UI_IMM_def by (rule imm_eqI; unfold all_less_12 cbits; auto simp: min_def bit_beyond)

lemma N_frame [simp]:
  "N_IMM (cframe q (rfield rd (bit u 1) (bit u 0)) (field [bit u 4, bit u 5, bit u 6, bit u 7, bit u 2]) (bit u 3) f3)
    = push_bit 2 (ucast (u :: 8 word))"
  unfolding N_IMM_def by (rule imm_eqI; unfold all_less_12 cbits; auto simp: min_def bit_beyond)

lemma D_frame [simp]:
  "D_IMM (cframe q (field [bit i 1, bit i 3, bit i 4, bit i 2, bit i 0]) b (bit i 5) f3) = push_bit 4 (scast (i :: 6 word))"
  unfolding D_IMM_def by (rule imm_eqI; unfold all_less_12 cbits; auto simp: min_def bit_beyond)

lemma J_frame [simp]:
  "J16_IMM (cframe q (field [bit j 4, bit j 0, bit j 1, bit j 2, bit j 6])
     (field [bit j 5, bit j 9, bit j 7, bit j 8, bit j 3]) (bit j 10) f3) = push_bit 1 (scast (j :: 11 word))"
  unfolding J16_IMM_def by (rule imm_eqI; unfold all_less_12 cbits; auto simp: min_def bit_beyond)

lemma B_frame [simp]: "B16_IMM (b_frame f3 r c) = push_bit 1 (scast c)"
  unfolding B16_IMM_def by (rule imm_eqI; unfold all_less_12 cbits; auto simp: min_def bit_beyond)

lemma W_frame [simp]: "U16_IMM (w_frame f3 r base u) = push_bit 2 (ucast u)"
  unfolding U16_IMM_def by (rule imm_eqI; unfold all_less_12 cbits; auto simp: min_def bit_beyond)

lemma UD_frame [simp]: "U_IMM_D (d_frame f3 r base u) = push_bit 3 (ucast u)"
  unfolding U_IMM_D_def by (rule imm_eqI; unfold all_less_12 cbits; auto simp: min_def bit_beyond)

lemma sp_frames [simp]:
  "LWSP_IMM (cframe q (lwsp_field u) b (bit u 3) f3) = push_bit 2 (ucast u)"
  "LDSP_IMM (cframe q (ldsp_field u) b (bit u 2) f3) = push_bit 3 (ucast u)"
  "SWSP_IMM (cframe q a (lwsp_field u) (bit u 3) f3) = push_bit 2 (ucast u)"
  "SDSP_IMM (cframe q a (ldsp_field u) (bit u 2) f3) = push_bit 3 (ucast u)"
     unfolding LWSP_IMM_def apply (rule imm_eqI; unfold all_less_12 cbits; auto simp: min_def bit_beyond)
    unfolding LDSP_IMM_def apply (rule imm_eqI; unfold all_less_12 cbits; auto simp: min_def bit_beyond)
   unfolding SWSP_IMM_def apply (rule imm_eqI; unfold all_less_12 cbits; auto simp: min_def bit_beyond)
  unfolding SDSP_IMM_def apply (rule imm_eqI; unfold all_less_12 cbits; auto simp: min_def bit_beyond)
  done

section \<open>Decoding\<close>

text \<open>The word that is fetched holds the compressed instruction in its low half.\<close>

definition low_half :: "u16 \<Rightarrow> u16 \<Rightarrow> u32" where
  "low_half h w = push_bit 16 (ucast h) OR ucast w"

lemma ucast_low_half: "ucast (low_half h w AND 0xFFFF) = w"
proof (rule bit_word_eqI)
  fix n
  assume n: "n < LENGTH(16)"
  have eq: "(0xFFFF::u32) = mask 16"
    by (simp add: mask_eq_exp_minus_1)
  have "bit (0xFFFF::u32) n"
    unfolding eq bit_mask_iff using n by simp
  with n show "bit (ucast (low_half h w AND 0xFFFF) :: u16) n = bit w n"
    by (auto simp: low_half_def bit_simps)
qed

lemma decode_low_half:
  "w AND 3 \<noteq> 3 \<Longrightarrow> decode pc (low_half h w) = and_then (dec16 w) (\<lambda>d. Inr (pc + 2, d))"
proof -
  assume w: "w AND 3 \<noteq> 3"
  have 3: "(3::u32) = mask 2" "(3::u16) = mask 2"
    by (simp_all add: mask_eq_exp_minus_1)
  have "low_half h w AND 3 = ucast (w AND 3)"
    unfolding 3 by (rule bit_word_eqI) (auto simp: low_half_def bit_simps)
  moreover have "ucast (w AND 3) \<noteq> (3::u32)"
  proof
    assume "ucast (w AND 3) = (3::u32)"
    then have "ucast (ucast (w AND 3) :: u32) = (3::u16)"
      by simp
    with w show False
      by (simp add: ucast_up_ucast_id is_up.rep_eq)
  qed
  ultimately show ?thesis
    by (simp add: decode_def ucast_low_half)
qed

lemma cframe_and_3: "cframe q a b s f3 AND 3 = ucast q"
proof -
  have 3: "(3::u16) = mask 2"
    by (simp add: mask_eq_exp_minus_1)
  show ?thesis
    unfolding 3 by (rule bit_word_eqI) (auto simp: bit_simps bit_cframe bit_beyond)
qed

lemmas dec16_simps = dec16_def dec16_fields_def Let_def dec16_q0_def dec16_q1_def dec16_q2_def
  dec16_misc_alu_def dec16_arith_def dec16_jump_move_def

lemmas c_frame_defs = w_frame_def d_frame_def i_frame_def b_frame_def

lemma frame_regs [simp]:
  "funct3_16 (w_frame f3 r base u) = ucast f3" "rlow (w_frame f3 r base u) = ucast (creg r)"
  "rhigh (w_frame f3 r base u) = ucast (creg base)" "BITS32 (w_frame f3 r base u) (Suc 0) 0 = 0"
  "funct3_16 (d_frame f3 r base u) = ucast f3" "rlow (d_frame f3 r base u) = ucast (creg r)"
  "rhigh (d_frame f3 r base u) = ucast (creg base)" "BITS32 (d_frame f3 r base u) (Suc 0) 0 = 0"
  "funct3_16 (b_frame f3 r c) = ucast f3" "rhigh (b_frame f3 r c) = ucast (creg r)"
  "BITS32 (b_frame f3 r c) (Suc 0) 0 = 1"
  "funct3_16 (i_frame q f3 rd i) = ucast f3" "BITS32 (i_frame q f3 rd i) 11 7 = ucast rd"
  "BITS32 (i_frame q f3 rd i) (Suc 0) 0 = ucast q" "rhigh (i_frame q f3 (rfield r x y) i) = ucast (creg r)"
  "BITS32 (i_frame q f3 (rfield r x y) i) 11 10 = ucast (two x y)"
  by (simp_all add: c_frame_defs)

lemma c_frames_and_3:
  "w_frame f3 r base u AND 3 = 0" "d_frame f3 r base u AND 3 = 0" "b_frame f3 r c AND 3 = 1"
  "i_frame q f3 rd i AND 3 = ucast q"
  by (simp_all add: c_frame_defs cframe_and_3)

lemma signed_imms:
  fixes u :: "8 word" and v :: "5 word" and w :: "6 word" and j :: "11 word"
  shows "scast (push_bit 2 (ucast u) :: 12 word) = (push_bit 2 (ucast u) :: u64)"
    "scast (push_bit 2 (ucast v) :: 12 word) = (push_bit 2 (ucast v) :: u64)"
    "scast (push_bit 3 (ucast v) :: 12 word) = (push_bit 3 (ucast v) :: u64)"
    "scast (push_bit 2 (ucast w) :: 12 word) = (push_bit 2 (ucast w) :: u64)"
    "scast (push_bit 3 (ucast w) :: 12 word) = (push_bit 3 (ucast w) :: u64)"
    "scast (push_bit 4 (scast w) :: 12 word) = (push_bit 4 (scast w) :: u64)"
    "scast (scast w :: 12 word) = (scast w :: u64)"
    "scast (scast w :: 20 word) = (scast w :: u64)"
    "scast (scast j :: 20 word) = (scast j :: u64)"
    "scast (scast u :: 12 word) = (scast u :: u64)"
    "ucast (take_bit 6 (ucast w :: 12 word)) = (ucast w :: u64)"
  by ((rule bit_word_eqI; auto simp: bit_simps min_def bit_beyond dest: bit_imp_le_length)+)

lemma ucast_reg [simp]: "(ucast r = (ucast s::u32)) = (r = s)" for r s :: regno
proof
  assume "ucast r = (ucast s::u32)"
  then have "ucast (ucast r :: u32) = (ucast (ucast s :: u32) :: regno)"
    by simp
  then show "r = s"
    by (simp add: ucast_up_ucast_id is_up.rep_eq)
qed simp

lemma ucast_reg_numerals [simp]: "(ucast r = (0::u32)) = (r = 0)" "(ucast r = (2::u32)) = (r = 2)" for r :: regno
  using ucast_reg [of r 0] ucast_reg [of r 2] by simp_all

lemma decode_compressed:
  assumes "c_legal c" "\<forall>r u. c \<noteq> C_FSDSP r u"
  shows "\<exists>d. decode pc (low_half h (c_encode c)) = Inr (pc + 2, d) \<and> expansion_meaning (expand c) d"
proof -
  note s = c_encode_def expand_def expansion_meaning_def meaning_def imm_value_def c_legal_def
    cframe_and_3 c_frames_and_3 signed_imms dec16_simps N_frame [unfolded One_nat_def]
    D_frame [unfolded One_nat_def] J_frame [unfolded One_nat_def]
  have "c_encode c AND 3 \<noteq> 3"
    by (cases c) (simp_all add: c_encode_def cframe_and_3 c_frames_and_3 split: calu.splits)
  note decode = decode_low_half [OF this, of pc h]
  show ?thesis
    unfolding decode
  proof (cases c)
    case (C_ALU x r r2)
    then show "\<exists>d. and_then (dec16 (c_encode c)) (\<lambda>d. Inr (pc + 2, d)) = Inr (pc + 2, d) \<and>
        expansion_meaning (expand c) d"
      by (cases x) (simp_all add: s)
  qed (use assms in \<open>simp_all add: s\<close>)
qed

text \<open>C5.  Compressed instructions decode to the instructions they stand for: for every one the
  ISA manual defines with C and D on a 64-bit machine, except \<open>c.fsdsp\<close>, and all its operands,
  whatever the other half of the fetched word is, the decoder returns the operation, registers
  and immediate of the expansion and the address 2 further.\<close>

theorem decode_rvc:
  assumes "c_legal c" "\<forall>r u. c \<noteq> C_FSDSP r u"
  shows "\<exists>d. decode pc (low_half h (c_encode c)) = Inr (pc + 2, d) \<and> expansion_meaning (expand c) d"
  using assms by (rule decode_compressed)

text \<open>\<open>c.addi16sp sp, -64\<close> is the halfword 0x7139.\<close>

lemma decode_rvc_witness:
  "c_encode (C_ADDI16SP (- 4)) = 0x7139 \<and>
   (\<exists>d. decode 0x1000 (low_half 0 (c_encode (C_ADDI16SP (- 4)))) = Inr (0x1002, d) \<and>
      expansion_meaning (Insn (IImm ADDI 2 2 (- 64))) d)"
proof -
  have "push_bit 4 (scast (- 4 :: 6 word)) = (- 64 :: 12 word)" "c_encode (C_ADDI16SP (- 4)) = 0x7139"
    by code_simp+
  then show ?thesis
    using decode_rvc [where c = "C_ADDI16SP (- 4)" and pc = "0x1000" and h = 0] by (simp add: c_legal_def expand_def)
qed

text \<open>C6.  Where the 16-bit decoder leaves the manual: the store \<open>c.fsdsp\<close> of the D extension,
  which \<open>misa\<close> reports, panics; the halfword 0, which the manual defines as illegal, adds 0 to the
  stack pointer and overwrites \<open>x8\<close>; and two reserved rows of the register arithmetic execute as
  \<open>or\<close> and \<open>and\<close>.\<close>

theorem rvc_deviates:
  "dec16 (c_encode (C_FSDSP rs2 u)) = Inl (Panic ''dec16'') \<and>
   (\<exists>d. decode pc (low_half h 0) = Inr (pc + 2, d) \<and> meaning (IImm ADDI 8 2 0) d) \<and>
   (\<exists>d. dec16 (cframe 1 (rfield r2 x True) (rfield r True True) True 4) = Inr d \<and>
      meaning (IReg (if x then AND_R else OR_R) (creg r) (creg r) (creg r2)) d)"
proof (intro conjI)
  show "dec16 (c_encode (C_FSDSP rs2 u)) = Inl (Panic ''dec16'')"
    by (simp add: c_encode_def dec16_simps)
  have "c_encode (C_ADDI4SPN 0 0) = 0"
    by code_simp
  moreover have "creg 0 = 8"
    by (simp add: creg_def)
  ultimately show "\<exists>d. decode pc (low_half h 0) = Inr (pc + 2, d) \<and> meaning (IImm ADDI 8 2 0) d"
    by (simp add: decode_low_half dec16_simps meaning_def imm_value_def funct3_16_def rlow_def N_IMM_def
        BITS32_def BITS_def BIT_def)
  show "\<exists>d. dec16 (cframe 1 (rfield r2 x True) (rfield r True True) True 4) = Inr d \<and>
     meaning (IReg (if x then AND_R else OR_R) (creg r) (creg r) (creg r2)) d"
    by (cases x) (simp_all add: dec16_simps meaning_def)
qed

end
