(* ===== verification/Simulation.thy ===== *)
theory Simulation
  imports Prelude
begin

text \<open>
  What it means for code to refine a specification step by step, and that it then does so for
  runs of any length.  A step carries a label: the operation called, or nothing.
\<close>

fun run :: "('l \<Rightarrow> 'c \<Rightarrow> 'c result) \<Rightarrow> 'l list \<Rightarrow> 'c \<Rightarrow> 'c result" where
  "run f [] c = Inr c"
| "run f (x # xs) c = and_then (f x c) (run f xs)"

inductive spec_run :: "('l \<Rightarrow> 'a \<Rightarrow> 'a \<Rightarrow> bool) \<Rightarrow> 'l list \<Rightarrow> 'a \<Rightarrow> 'a \<Rightarrow> bool" for spec where
  spec_done: "spec_run spec [] a a"
| spec_more: "spec x a b \<Longrightarrow> spec_run spec xs b c \<Longrightarrow> spec_run spec (x # xs) a c"

inductive_cases spec_run_ConsE: "spec_run spec (x # xs) a c"

lemma spec_run_Nil [simp]: "spec_run spec [] a b \<longleftrightarrow> b = a"
  by (auto elim: spec_run.cases intro: spec_done)

lemma spec_run_power: "spec_run (\<lambda>_. r) xs a b \<longleftrightarrow> (r ^^ length xs) a b"
proof (induction xs arbitrary: a)
  case (Cons x xs)
  then show ?case
    by (metis length_Cons relpowp_Suc_D2 relpowp_Suc_I2 spec_more spec_run_ConsE)
qed auto

locale simulation =
  fixes code :: "'l \<Rightarrow> 'c \<Rightarrow> 'c result"
    and spec :: "'l \<Rightarrow> 'a \<Rightarrow> 'a \<Rightarrow> bool"
    and rel :: "'c \<Rightarrow> 'a \<Rightarrow> bool"
  assumes step: "rel c a \<Longrightarrow> spec x a b \<Longrightarrow> \<exists>d. code x c = Inr d \<and> rel d b"
begin

lemma runs: "spec_run spec xs a b \<Longrightarrow> rel c a \<Longrightarrow> \<exists>d. run code xs c = Inr d \<and> rel d b"
proof (induction arbitrary: c rule: spec_run.induct)
  case (spec_more x a b xs b')
  then obtain d where "code x c = Inr d" "rel d b"
    using step by blast
  with spec_more.IH show ?case by simp
qed simp

end

end
