(* ===== verification/Refine.thy ===== *)
theory Refine
  imports Steps Isa Rvc Simulation
begin

text \<open>
  The emulator against the ISA.  A reference interpreter of the integer, load, store and 64-bit
  atomic instructions, of the compressed ones, of the environment call and of the accesses to the
  trap registers works on the registers, the program counter, the memory and the CSRs; it stops
  (\<open>None\<close>) at what the fragment leaves out: other CSRs and system instructions, accesses outside
  RAM, the 32-bit and LR/SC atomics, an odd jump target, and the operands on which the C code is
  undefined or wrong (theory \<open>Isa\<close>).  The main loop refines it, step by step, for a machine
  in machine mode with interrupts off.
\<close>


section \<open>The reference interpreter\<close>

record isa_state =
  i_regs :: "regno \<Rightarrow> u64"
  i_pc :: u64
  i_mem :: "u64 \<Rightarrow> u8"
  i_csrs :: "u32 \<Rightarrow> u64"

definition in_ram :: "u64 \<Rightarrow> nat \<Rightarrow> bool" where
  "in_ram a n \<longleftrightarrow> 0x80000000 \<le> unat a \<and> unat a + n \<le> 0x100000000"

definition set_reg :: "regno \<Rightarrow> u64 \<Rightarrow> isa_state \<Rightarrow> isa_state" where
  "set_reg rd v s = (if rd = 0 then s else s\<lparr>i_regs := (i_regs s)(rd := v)\<rparr>)"

definition goto :: "u64 \<Rightarrow> isa_state \<Rightarrow> isa_state" where
  "goto pc s = s\<lparr>i_pc := pc\<rparr>"

definition next_insn :: "u64 \<Rightarrow> isa_state \<Rightarrow> isa_state" where
  "next_insn len s = goto (i_pc s + len) s"

definition load_bytes :: "load_op \<Rightarrow> nat" where
  "load_bytes l = (case l of LB \<Rightarrow> 1 | LBU \<Rightarrow> 1 | LH \<Rightarrow> 2 | LHU \<Rightarrow> 2 | LW \<Rightarrow> 4 | LWU \<Rightarrow> 4 | LD \<Rightarrow> 8)"

definition isa_load :: "load_op \<Rightarrow> (u64 \<Rightarrow> u8) \<Rightarrow> u64 \<Rightarrow> u64" where
  "isa_load l mem a =
    (let v = load_le mem a (load_bytes l) in
     case l of LB \<Rightarrow> signed_take_bit 7 v | LH \<Rightarrow> signed_take_bit 15 v | LW \<Rightarrow> signed_take_bit 31 v | _ \<Rightarrow> v)"

definition store_bytes_of :: "store_op \<Rightarrow> nat" where
  "store_bytes_of s = (case s of SB \<Rightarrow> 1 | SH \<Rightarrow> 2 | SW \<Rightarrow> 4 | SD \<Rightarrow> 8)"

definition isa_taken :: "branch_op \<Rightarrow> u64 \<Rightarrow> u64 \<Rightarrow> bool" where
  "isa_taken b x y = (case b of BEQ \<Rightarrow> x = y | BNE \<Rightarrow> x \<noteq> y | BLT \<Rightarrow> sint x < sint y | BGE \<Rightarrow> sint y \<le> sint x
     | BLTU \<Rightarrow> uint x < uint y | BGEU \<Rightarrow> uint y \<le> uint x)"

text \<open>
  CSR instructions: the old value goes to \<open>rd\<close>, and the set and clear forms with \<open>x0\<close> or the
  immediate 0 only read.  \<open>csr_in_scope\<close> admits reads of the trap registers, and writes of values
  that the registers must be able to hold.
\<close>

definition csr_source :: "(regno \<Rightarrow> u64) \<Rightarrow> csr_op \<Rightarrow> regno \<Rightarrow> u64" where
  "csr_source r x rs1 = (if x \<in> {CSRRW, CSRRS, CSRRC} then r rs1 else ucast rs1)"

definition csr_new :: "csr_op \<Rightarrow> u64 \<Rightarrow> u64 \<Rightarrow> u64" where
  "csr_new x old src = (case x of CSRRW \<Rightarrow> src | CSRRWI \<Rightarrow> src | CSRRS \<Rightarrow> old OR src | CSRRSI \<Rightarrow> old OR src
     | CSRRC \<Rightarrow> old AND NOT src | CSRRCI \<Rightarrow> old AND NOT src)"

definition csr_only_reads :: "csr_op \<Rightarrow> regno \<Rightarrow> bool" where
  "csr_only_reads x rs1 \<longleftrightarrow> x \<notin> {CSRRW, CSRRWI} \<and> rs1 = 0"

definition csr_in_scope :: "u32 \<Rightarrow> csr_op \<Rightarrow> regno \<Rightarrow> u64 \<Rightarrow> bool" where
  "csr_in_scope a x rs1 v \<longleftrightarrow>
    (if csr_only_reads x rs1
     then a \<in> {MSTATUS, MTVEC, MSCRATCH, MEPC, MCAUSE, MTVAL, STVEC, SSCRATCH, SEPC, SCAUSE, STVAL}
     else a \<in> {MSCRATCH, MTVAL, SSCRATCH, STVAL} \<or> a \<in> {MTVEC, STVEC} \<and> v AND 3 = 0 \<or>
       a \<in> {MEPC, SEPC} \<and> \<not> bit v 0)"

text \<open>An environment call from machine mode, with a direct trap vector.\<close>

definition trap_mstatus :: "u64 \<Rightarrow> u64" where
  "trap_mstatus ms = (ms AND NOT 0x1888) OR (if bit ms 3 then 0x80 else 0) OR 0x1800"

definition isa_ecall :: "isa_state \<Rightarrow> isa_state" where
  "isa_ecall s = s\<lparr>i_pc := i_csrs s MTVEC, i_csrs := (i_csrs s)(MEPC := i_pc s, MCAUSE := 11, MTVAL := 0,
     MSTATUS := trap_mstatus (i_csrs s MSTATUS))\<rparr>"

definition isa_exec :: "u64 \<Rightarrow> insn \<Rightarrow> isa_state \<Rightarrow> isa_state option" where
  "isa_exec len i s =
    (let r = i_regs s; pc = i_pc s; put = (\<lambda>rd v. Some (set_reg rd v (next_insn len s))) in
     case i of
      ILui rd u \<Rightarrow> put rd (push_bit 12 (scast u))
    | IAuipc rd u \<Rightarrow> put rd (pc + push_bit 12 (scast u))
    | IJal rd j \<Rightarrow> Some (set_reg rd (pc + len) (goto (pc + push_bit 1 (scast j)) s))
    | IJalr rd rs1 imm \<Rightarrow>
        if bit (r rs1 + scast imm) 0 then None
        else Some (set_reg rd (pc + len) (goto (r rs1 + scast imm) s))
    | IBranch b rs1 rs2 off \<Rightarrow>
        Some (if isa_taken b (r rs1) (r rs2) then goto (pc + push_bit 1 (scast off)) s else next_insn len s)
    | ILoad l rd rs1 imm \<Rightarrow>
        (let a = r rs1 + scast imm in
         if in_ram a (load_bytes l) then put rd (isa_load l (i_mem s) a) else None)
    | IStore st rs2 rs1 imm \<Rightarrow>
        (let a = r rs1 + scast imm in
         if in_ram a (store_bytes_of st)
         then Some (next_insn len (s\<lparr>i_mem := store_le (i_mem s) a (r rs2) (store_bytes_of st)\<rparr>)) else None)
    | IImm op rd rs1 imm \<Rightarrow>
        if imm_undefined op (r rs1) (imm_value op imm) then None
        else put rd (isa_imm op (r rs1) (imm_value op imm))
    | IReg op rd rs1 rs2 \<Rightarrow>
        if reg_undefined op (r rs1) (r rs2) then None else put rd (isa_reg op (r rs1) (r rs2))
    | IMulDiv op rd rs1 rs2 \<Rightarrow>
        if op \<in> {MULH, MULHSU, DIVUW, REMUW} \<or> mul_undefined op (r rs1) (r rs2) then None
        else put rd (isa_muldiv op (r rs1) (r rs2))
    | IAmo op aq rl rd rs1 rs2 \<Rightarrow>
        (let a = r rs1; old = load_le (i_mem s) a 8 in
         if in_ram a 8 \<and> a mod 8 = 0 \<and> amo_size op = 8 \<and> amo_params op \<noteq> PARAMS_LR_SC
         then Some (set_reg rd old (next_insn len
           (s\<lparr>i_mem := store_le (i_mem s) a (amo_result (amo_params op) old (r rs2)) 8\<rparr>)))
         else None)
    | ICsr x rd csr rs1 \<Rightarrow>
        (let old = i_csrs s (ucast csr); v = csr_new x old (csr_source r x rs1) in
         if \<not> csr_in_scope (ucast csr) x rs1 v then None
         else if csr_only_reads x rs1 then put rd old
         else Some (set_reg rd old (next_insn len (s\<lparr>i_csrs := (i_csrs s)(ucast csr := v)\<rparr>)))))"

text \<open>
  A step executes the instruction the word at the program counter encodes, or the compressed
  instruction its low half encodes; four bytes are fetched in both cases.
\<close>

inductive isa_step :: "isa_state \<Rightarrow> isa_state \<Rightarrow> bool" where
  full: "in_ram (i_pc s) 4 \<Longrightarrow> ucast (load_le (i_mem s) (i_pc s) 4) = encode i \<Longrightarrow>
    isa_exec 4 i s = Some s' \<Longrightarrow> isa_step s s'"
| compressed: "in_ram (i_pc s) 4 \<Longrightarrow> ucast (load_le (i_mem s) (i_pc s) 2) = c_encode c \<Longrightarrow> c_legal c \<Longrightarrow>
    expand c = Insn i \<Longrightarrow> isa_exec 2 i s = Some s' \<Longrightarrow> isa_step s s'"
| compressed_nop: "in_ram (i_pc s) 4 \<Longrightarrow> ucast (load_le (i_mem s) (i_pc s) 2) = c_encode c \<Longrightarrow> c_legal c \<Longrightarrow>
    expand c = Nop \<Longrightarrow> isa_step s (next_insn 2 s)"
| ecall: "in_ram (i_pc s) 4 \<Longrightarrow> ucast (load_le (i_mem s) (i_pc s) 4) = (0x73 :: u32) \<Longrightarrow>
    i_csrs s MTVEC AND 3 = 0 \<Longrightarrow> isa_step s (isa_ecall s)"

section \<open>The abstraction\<close>

definition abs_state :: "machine \<Rightarrow> isa_state" where
  "abs_state m = \<lparr>i_regs = (\<lambda>r. m_reg m (ucast r)), i_pc = m_pc m, i_mem = bus_bytes m,
     i_csrs = csrs m\<rparr>"

definition bare :: "machine \<Rightarrow> bool" where
  "bare m \<longleftrightarrow> cur_priv m = M_MODE \<and> \<not> bit (csrs m MSTATUS) BIT_MIE_POS \<and> m_as m = root_as \<and>
     ram_size (m_ram m) = 0x80000000 \<and> plic_inv (m_plic m) \<and> plic_pending (m_plic m) ! 4 = 0 \<and>
     m_reg m 0 = 0"

lemma bare_bus_ok: "bare m \<Longrightarrow> access_size sz \<Longrightarrow> in_ram a (unat sz) \<Longrightarrow> bus_ok m a sz"
  by (simp add: bare_def bus_ok_def in_ram_def)

lemma abs_sel [simp]:
  "i_regs (abs_state m) r = m_reg m (ucast r)" "i_pc (abs_state m) = m_pc m" "i_mem (abs_state m) = bus_bytes m"
  "i_csrs (abs_state m) = csrs m"
  by (simp_all add: abs_state_def)

lemma isa_load_value: "load_bytes l = unat (load_size l)"
    "isa_load l mem a = load_value l (load_le mem a (unat (load_size l)))"
proof -
  show "load_bytes l = unat (load_size l)"
    by (cases l) (simp_all add: load_bytes_def load_size_def)
  have "\<not> bit (mem a) n" if "8 \<le> n" for n
    using that by (rule bit_beyond [where 'a = 8, simplified])
  then have "n < 8" if "bit (mem a) n" for n
    using that by (meson not_le_imp_less)
  then show "isa_load l mem a = load_value l (load_le mem a (unat (load_size l)))"
    by (cases l) (auto simp: load_bytes_def load_size_def isa_load_def load_value_def Let_def
      bit_simps min_def bit_load_le intro!: bit_word_eqI)
qed

lemma taken_isa: "branch_taken b x y = isa_taken b x y"
  by (cases b) (simp_all add: branch_taken_def isa_taken_def word_sless_alt word_sle_eq word_less_alt word_le_def)

text \<open>The write-back and the new program counter, seen through the abstraction.\<close>

lemma abs_write_back:
  "write_back (ucast rd) (Rd v) False m = Inr m' \<Longrightarrow>
   abs_state (m'\<lparr>m_pc := pc\<rparr>) = set_reg rd v (goto pc (abs_state m)) \<and> (bare m \<longrightarrow> bare (m'\<lparr>m_pc := pc\<rparr>))"
  by (auto simp: write_back_def abs_state_def set_reg_def goto_def bare_def bus_bytes_def split: if_splits)

lemma write_back_Rd: "\<exists>m'. write_back rd (Rd v) False m = Inr m'"
  by (simp add: write_back_def)

text \<open>\<open>refines m r s\<close>: \<open>r\<close> is the result of \<open>execute\<close>, and its machine abstracts to \<open>s\<close>.\<close>

definition refines :: "(u64 \<times> machine) result \<Rightarrow> isa_state \<Rightarrow> bool" where
  "refines r s \<longleftrightarrow> (\<exists>pc m. r = Inr (pc, m) \<and> abs_state (m\<lparr>m_pc := pc\<rparr>) = s \<and> bare (m\<lparr>m_pc := pc\<rparr>))"

lemma refines_put:
  assumes "exec_op fuel pc npc d m = Inr (Rd v, pc', False, m1)" "d_rd d = ucast rd" "bare m1"
  shows "refines (execute fuel pc npc d m) (set_reg rd v (goto pc' (abs_state m1)))"
proof -
  obtain m' where m': "write_back (ucast rd) (Rd v) False m1 = Inr m'"
    using write_back_Rd by blast
  with assms abs_write_back [OF m', of pc'] show ?thesis
    by (auto simp: execute_def refines_def)
qed

lemma refines_goto:
  assumes "exec_op fuel pc npc d m = Inr (Rd_none, pc', False, m1)" "d_rd d = 0" "bare m1"
  shows "refines (execute fuel pc npc d m) (goto pc' (abs_state m1))"
  using assms by (auto simp: execute_def refines_def write_back_def abs_state_def goto_def bare_def bus_bytes_def)

text \<open>
  An instruction that touches neither memory nor a CSR acts on the registers and the program
  counter only, so it does the same at every privilege level.
\<close>

definition register_insn :: "insn \<Rightarrow> bool" where
  "register_insn i \<longleftrightarrow> (case i of ILoad l rd rs1 imm \<Rightarrow> False | IStore st rs2 rs1 imm \<Rightarrow> False
     | IAmo op aq rl rd rs1 rs2 \<Rightarrow> False | ICsr x rd csr rs1 \<Rightarrow> False | _ \<Rightarrow> True)"

definition put_reg :: "regno \<Rightarrow> u64 \<Rightarrow> (u32 \<Rightarrow> u64) \<Rightarrow> u32 \<Rightarrow> u64" where
  "put_reg rd v R = (if rd = 0 then R else R(ucast rd := v))"

lemma put_reg_0 [simp]: "put_reg rd v R 0 = R 0"
  by (simp add: put_reg_def)

lemma put_reg_view: "(\<lambda>r. put_reg rd v R (ucast r)) = (if rd = 0 then (\<lambda>r. R (ucast r)) else (\<lambda>r. R (ucast r))(rd := v))"
  by (auto simp: put_reg_def fun_eq_iff)

lemma execute_Rd:
  "exec_op fuel pc npc d m = Inr (Rd v, pc', False, m1) \<Longrightarrow> d_rd d = ucast rd \<Longrightarrow>
   execute fuel pc npc d m = Inr (pc', m1\<lparr>m_reg := put_reg rd v (m_reg m1)\<rparr>)"
  by (auto simp: execute_def write_back_def put_reg_def)

lemma execute_no_Rd:
  "exec_op fuel pc npc d m = Inr (Rd_none, pc', False, m1) \<Longrightarrow> d_rd d = 0 \<Longrightarrow>
   execute fuel pc npc d m = Inr (pc', m1)"
  by (simp add: execute_def write_back_def)

definition same_registers :: "(u64 \<times> machine) result \<Rightarrow> machine \<Rightarrow> isa_state \<Rightarrow> isa_state \<Rightarrow> bool" where
  "same_registers r m c c' \<longleftrightarrow> (\<exists>R. r = Inr (i_pc c', m\<lparr>m_reg := R\<rparr>) \<and> i_regs c' = (\<lambda>r. R (ucast r)) \<and>
     R 0 = m_reg m 0 \<and> i_mem c' = i_mem c \<and> i_csrs c' = i_csrs c)"

lemma same_registers_put:
  assumes "exec_op fuel pc npc d m = Inr (Rd v, pc', False, m)" "d_rd d = ucast rd"
    and "i_regs c = (\<lambda>r. m_reg m (ucast r))"
  shows "same_registers (execute fuel pc npc d m) m c (set_reg rd v (goto pc' c))"
  unfolding same_registers_def execute_Rd [OF assms(1,2)]
  by (rule exI [of _ "put_reg rd v (m_reg m)"]) (auto simp: put_reg_view set_reg_def goto_def assms(3))

lemma same_registers_goto:
  assumes "exec_op fuel pc npc d m = Inr (Rd_none, pc', False, m)" "d_rd d = 0"
    and "i_regs c = (\<lambda>r. m_reg m (ucast r))"
  shows "same_registers (execute fuel pc npc d m) m c (goto pc' c)"
  unfolding same_registers_def execute_no_Rd [OF assms(1,2)]
  by (rule exI [of _ "m_reg m"]) (simp add: goto_def assms(3))

lemma register_step:
  assumes "register_insn i" "meaning i d" "isa_exec len i c = Some c'"
    and c: "i_regs c = (\<lambda>r. m_reg m (ucast r))" "i_pc c = pc"
  shows "same_registers (execute fuel pc (pc + len) d m) m c c'"
proof -
  note simps = isa_exec_def meaning_def Let_def next_insn_def exec_op_def exec_branch_def exec_value_def taken_isa
    alu_imm_eq alu_reg_eq muldiv_eq register_insn_def c
  note intros = same_registers_put [OF _ _ c(1)] same_registers_goto [OF _ _ c(1)]
  show ?thesis
    using assms(1-3) by (cases i) (auto simp: simps split: if_splits intro!: intros)
qed

lemma next_insn_abs: "next_insn len (abs_state m) = goto (m_pc m + len) (abs_state m)"
  by (simp add: next_insn_def)

lemma store_refines:
  assumes "bare m" "access_size sz" "in_ram a (unat sz)"
  obtains r m1 where "bus_write (Suc n) params m a v sz = Inr (r, m1)" "bare m1"
    "r = amo_old (m_ram m) (a - RAM_ADDRESS_SPACE_START) sz params"
    "abs_state m1 = (abs_state m)\<lparr>i_mem := store_le (bus_bytes m) a (amo_new sz r v params) (unat sz)\<rparr>"
    "m_pc m1 = m_pc m" "m_reg m1 = m_reg m"
proof -
  note w = bus_write_ok [OF bare_bus_ok [OF assms], of n params v]
  show thesis
    by (rule that [OF w]) (use assms(1) in \<open>auto simp: bare_def abs_state_def bus_bytes_def store_le_shift\<close>)
qed

lemma csr_in_scope_plain: "csr_in_scope a x rs1 v \<Longrightarrow> plain_csr a"
  by (auto simp: csr_in_scope_def plain_csr_def split: if_splits)

lemma csr_in_scope_mstatus: "csr_in_scope a x rs1 v \<Longrightarrow> a = MSTATUS \<Longrightarrow> csr_only_reads x rs1"
  by (auto simp: csr_in_scope_def split: if_splits)

lemma x0_source:
  "csr_only_reads x rs1 \<Longrightarrow> m_reg m 0 = 0 \<Longrightarrow> csr_new x old (csr_source (i_regs (abs_state m)) x rs1) = old"
  by (cases x) (simp_all add: csr_only_reads_def csr_new_def csr_source_def)

lemma exec_csr_plain:
  assumes "meaning (ICsr x rd csr rs1) d" "plain_csr (ucast csr)" "r = (\<lambda>r. m_reg m (ucast r))"
  shows "exec_op fuel pc npc d m = Inr (Rd (csrs m (ucast csr)), npc, False,
    m\<lparr>csrs := (csrs m)(ucast csr := csr_new x (csrs m (ucast csr)) (csr_source r x rs1))\<rparr>)"
  using assms by (cases x) (simp_all add: meaning_def exec_op_def exec_csr_def csr_update_plain after_access_def
      csr_new_def csr_source_def Let_def)

lemma execute_refines:
  assumes "bare m" "meaning i d" "isa_exec len i (abs_state m) = Some s'"
  shows "refines (execute (Suc n) (m_pc m) (m_pc m + len) d m) s'"
proof -
  have priv: "cur_priv m = M_MODE"
    using assms(1) by (simp add: bare_def)
  note simps = isa_exec_def meaning_def Let_def next_insn_abs exec_op_def
  show ?thesis
  proof (cases "register_insn i")
    case True
    from register_step [OF this assms(2,3), where m = m and pc = "m_pc m" and fuel = "Suc n"] obtain R where
      "execute (Suc n) (m_pc m) (m_pc m + len) d m = Inr (i_pc s', m\<lparr>m_reg := R\<rparr>)"
      "i_regs s' = (\<lambda>r. R (ucast r))" "R 0 = m_reg m 0" "i_mem s' = bus_bytes m" "i_csrs s' = csrs m"
      by (auto simp: abs_state_def same_registers_def)
    with assms(1) show ?thesis
      by (auto simp: refines_def abs_state_def bare_def bus_bytes_def)
  next
    case memory: False
    show ?thesis
    proof (cases i)
      case (ILoad l rd rs1 imm)
      let ?a = "m_reg m (ucast rs1) + scast imm"
      have "access_size (load_size l)"
        by (cases l) (simp_all add: load_size_def access_size_def)
      moreover from this have ld: "load_bytes l = unat (load_size l)"
        "isa_load l mem a = load_value l (load_le mem a (unat (load_size l)))" for mem a
        using isa_load_value by blast+
      moreover have "in_ram ?a (unat (load_size l))"
        using assms(3) ILoad ld(1) by (simp add: simps split: if_splits)
      ultimately have "bus_ok m ?a (load_size l)"
        using bare_bus_ok [OF assms(1)] by blast
      with assms ILoad ld show ?thesis
        by (auto simp: simps exec_load_def after_access_def as_read_machine_mode [OF priv] bus_read_ok
            split: if_splits intro!: refines_put)
    next
      case (IStore st rs2 rs1 imm)
      let ?a = "m_reg m (ucast rs1) + scast imm"
      have sz: "access_size (store_size st)" "store_bytes_of st = unat (store_size st)"
        by (cases st; simp add: store_size_def store_bytes_of_def access_size_def)+
      moreover have "in_ram ?a (unat (store_size st))"
        using assms(3) IStore sz(2) by (simp add: simps split: if_splits)
      ultimately obtain r m1 where m1:
        "bus_write (Suc n) PARAMS_NONE m ?a (m_reg m (ucast rs2)) (store_size st) = Inr (r, m1)" "bare m1"
        "abs_state m1 = (abs_state m)\<lparr>i_mem := store_le (bus_bytes m) ?a
          (amo_new (store_size st) r (m_reg m (ucast rs2)) PARAMS_NONE) (unat (store_size st))\<rparr>"
        using store_refines [OF assms(1)] by metis
      then have "refines (execute (Suc n) (m_pc m) (m_pc m + len) d m) (goto (m_pc m + len) (abs_state m1))"
        using assms(2) IStore
        by (intro refines_goto) (simp_all add: simps exec_store_def after_access_def as_write_machine_mode [OF priv]
            del: bus_write.simps)
      moreover have "s' = goto (m_pc m + len) (abs_state m1)"
        using assms(3) IStore sz m1(3) by (auto simp: simps next_insn_def goto_def amo_new_None split: if_splits)
      ultimately show ?thesis by simp
    next
      case (IAmo op aq rl rd rs1 rs2)
      let ?a = "m_reg m (ucast rs1)"
      have op: "in_ram ?a 8" "amo_size op = 8" "amo_params op \<noteq> PARAMS_LR_SC"
        using assms(3) IAmo by (auto simp: simps split: if_splits)
      then have "op \<noteq> LR_D" "op \<noteq> LR_W"
        by (auto simp: amo_params_def)
      obtain r m1 where m1: "bus_write (Suc n) (amo_params op) m ?a (m_reg m (ucast rs2)) 8 = Inr (r, m1)" "bare m1"
        "r = amo_old (m_ram m) (?a - RAM_ADDRESS_SPACE_START) 8 (amo_params op)"
        "abs_state m1 = (abs_state m)\<lparr>i_mem := store_le (bus_bytes m) ?a
          (amo_new 8 r (m_reg m (ucast rs2)) (amo_params op)) 8\<rparr>"
        using op(1) by (rule_tac store_refines [OF assms(1), of 8 ?a n "amo_params op" "m_reg m (ucast rs2)"])
          (auto simp: access_size_def)
      then have "refines (execute (Suc n) (m_pc m) (m_pc m + len) d m) (set_reg rd r (goto (m_pc m + len) (abs_state m1)))"
        using assms(2) IAmo op \<open>op \<noteq> LR_D\<close> \<open>op \<noteq> LR_W\<close>
        by (intro refines_put) (simp_all add: simps exec_amo_def after_access_def as_write_machine_mode [OF priv]
            del: bus_write.simps)
      moreover have "r = load_le (bus_bytes m) ?a 8"
        using m1(3) op(3) by (simp add: amo_old_def bus_bytes_def load_le_shift)
      then have "s' = set_reg rd r (goto (m_pc m + len) (abs_state m1))"
        using assms(3) IAmo m1(4)
        by (auto simp: simps next_insn_def goto_def amo_new_def amo64_result split: if_splits)
      ultimately show ?thesis by simp
    next
      case (ICsr x rd csr rs1)
      let ?a = "ucast csr :: u32" and ?src = "csr_source (i_regs (abs_state m)) x rs1"
      let ?v = "csr_new x (csrs m ?a) ?src"
      let ?m1 = "m\<lparr>csrs := (csrs m)(?a := ?v)\<rparr>"
      have scope: "csr_in_scope ?a x rs1 ?v"
        using assms(3) ICsr by (simp add: isa_exec_def Let_def split: if_splits)
      have "exec_op (Suc n) (m_pc m) (m_pc m + len) d m = Inr (Rd (csrs m ?a), m_pc m + len, False, ?m1)"
        using exec_csr_plain [OF _ csr_in_scope_plain [OF scope]] assms(2) ICsr by (simp add: abs_state_def)
      moreover have "bare ?m1"
        using assms(1) csr_in_scope_mstatus [OF scope] x0_source [of x rs1 m] by (auto simp: bare_def csr_only_reads_def)
      ultimately have "refines (execute (Suc n) (m_pc m) (m_pc m + len) d m)
          (set_reg rd (csrs m ?a) (goto (m_pc m + len) (abs_state ?m1)))"
        using refines_put assms(2) ICsr by (simp add: meaning_def)
      moreover have "s' = set_reg rd (csrs m ?a) (goto (m_pc m + len) (abs_state ?m1))"
      proof (cases "csr_only_reads x rs1")
        case True
        then have "?v = csrs m ?a"
          using assms(1) x0_source by (simp add: bare_def)
        then show ?thesis
          using assms(3) ICsr True scope by (simp add: isa_exec_def Let_def next_insn_abs)
      next
        case False
        then show ?thesis
          using assms(3) ICsr scope by (auto simp: isa_exec_def Let_def next_insn_def goto_def abs_state_def bus_bytes_def)
      qed
      ultimately show ?thesis by simp
    qed (use memory in \<open>simp_all add: register_insn_def\<close>)
  qed
qed

section \<open>Steps\<close>

lemma interrupt_step_bare:
  assumes "bare m"
  obtains m1 where "interrupt_step m = Inr (0, m1)" "bare m1" "abs_state m1 = abs_state m" "m_pc m1 = m_pc m"
proof -
  from assms have plic: "plic_inv (m_plic m)" "plic_pending (m_plic m) ! 4 = 0"
    and off: "priv m = M_MODE" "\<not> bit (csrs m MSTATUS) BIT_MIE_POS"
    by (simp_all add: bare_def priv_def)
  obtain irq p' where p': "plic_interrupt (m_plic m) m = Inr (irq, p', m)" "plic_inv p'"
    "plic_pending p' = plic_pending (m_plic m)"
    using plic by (rule plic_interrupt_total)
  show thesis
    by (rule that [of "m\<lparr>m_plic := p'\<rparr>"])
      (use assms interrupts_off [OF off p'(1)] p' in
        \<open>simp_all add: interrupt_step_def bare_def abs_state_def bus_bytes_def fun_eq_iff\<close>)
qed

text \<open>What one pass of the main loop does once its instruction is known.\<close>

lemma fetch_bare:
  assumes "bare m" "in_ram (m_pc m) 4"
  shows "fetch m = Inr (0, ucast (load_le (bus_bytes m) (m_pc m) 4), m)"
  using assms fetch_RAM bare_bus_ok [OF assms(1), of 4 "m_pc m"] by (simp add: bare_def access_size_def)

lemma fetch_low_half:
  "(ucast (load_le mem a 4) :: u32) = low_half (ucast (load_le mem (a + 2) 2)) (ucast (load_le mem a 2))"
proof (rule bit_word_eqI)
  fix n
  assume "n < LENGTH(32)"
  moreover have "\<not> bit (load_le mem a 2) n" if "16 \<le> n" for n
    using that by (simp add: bit_load_le)
  ultimately show "bit (ucast (load_le mem a 4) :: u32) n =
      bit (low_half (ucast (load_le mem (a + 2) 2)) (ucast (load_le mem a 2))) n"
    by (auto simp: load_le_halves low_half_def bit_simps not_less)
qed

lemma pass_refines:
  assumes "bare m" "in_ram (m_pc m) 4"
    and "decode (m_pc m) (ucast (load_le (bus_bytes m) (m_pc m) 4)) = Inr (m_pc m + len, d)"
    and "\<And>m1. bare m1 \<Longrightarrow> abs_state m1 = abs_state m \<Longrightarrow> refines (execute (Suc n) (m_pc m) (m_pc m + len) d m1) s'"
  shows "\<exists>m'. cpu_step (Suc n) m = Inr m' \<and> abs_state m' = s' \<and> bare m'"
proof -
  obtain m1 where m1: "interrupt_step m = Inr (0, m1)" "bare m1" "abs_state m1 = abs_state m" "m_pc m1 = m_pc m"
    using assms(1) by (rule interrupt_step_bare)
  have "bus_bytes m1 = bus_bytes m"
    using m1(3) by (metis abs_sel(3))
  then have fetch: "fetch m1 = Inr (0, ucast (load_le (bus_bytes m) (m_pc m) 4), m1)"
    using fetch_bare [OF m1(2)] assms(2) m1(4) by simp
  obtain pc m2 where m2: "execute (Suc n) (m_pc m) (m_pc m + len) d m1 = Inr (pc, m2)"
    "abs_state (m2\<lparr>m_pc := pc\<rparr>) = s'" "bare (m2\<lparr>m_pc := pc\<rparr>)"
    using assms(4) [OF m1(2,3)] by (auto simp: refines_def)
  have "\<not> m_pc m < 0x1000"
    using assms(2) by (auto simp: in_ram_def word_less_nat_alt)
  then show ?thesis
    using m1(1,4) fetch assms(3) m2 by (simp add: cpu_step_def)
qed

lemma nop_refines:
  assumes "bare m" "expansion_meaning Nop d"
  shows "refines (execute (Suc n) (m_pc m) (m_pc m + 2) d m) (next_insn 2 (abs_state m))"
  unfolding next_insn_abs using assms
  by (intro refines_goto) (simp_all add: expansion_meaning_def exec_op_def)

lemma decode_ecall: "\<exists>d. decode pc 0x73 = Inr (pc + 4, d) \<and> d_op d = ECALL \<and> d_rd d = 0"
proof -
  have "case dec32 0x73 of Inr d \<Rightarrow> d_op d = ECALL \<and> d_rd d = 0 | Inl _ \<Rightarrow> False"
    by code_simp
  then show ?thesis
    by (auto simp: decode_def split: sum.splits)
qed

lemma mstatus_enter_M: "mstatus_enter M_MODE w = trap_mstatus w"
proof (rule bit_word_eqI)
  fix n :: nat
  assume n: "n < LENGTH(64)"
  have eqs: "(0x1888 :: u64) = push_bit 3 1 OR push_bit 7 1 OR push_bit 11 1 OR push_bit 12 1"
    "(0x1800 :: u64) = push_bit 11 1 OR push_bit 12 1" "(0x80 :: u64) = push_bit 7 1"
    by code_simp+
  have p: "bit (push_bit k 1 :: u64) n \<longleftrightarrow> n = k" for k
    using n by (auto simp: bit_exp_iff bit_simps)
  have c: "bit (0x1888 :: u64) n \<longleftrightarrow> n = 3 \<or> n = 7 \<or> n = 11 \<or> n = 12"
    "bit (0x1800 :: u64) n \<longleftrightarrow> n = 11 \<or> n = 12" "bit (0x80 :: u64) n \<longleftrightarrow> n = 7"
    by (simp_all only: eqs bit_or_iff p)
  have mpie: "bit (if bit w 3 then 0x80 else 0 :: u64) n \<longleftrightarrow> bit w 3 \<and> n = 7"
    by (cases "bit w 3") (simp_all only: if_True if_False c(3) bit_0_eq bot_apply bot_bool_def simp_thms)
  show "bit (mstatus_enter M_MODE w) n = bit (trap_mstatus w) n"
    unfolding trap_mstatus_def bit_or_iff bit_and_iff bit_not_iff c mpie
    using n by (auto simp: bit_mstatus_enter)
qed

lemma ecall_refines:
  assumes "bare m" "d_op d = ECALL" "d_rd d = 0"
  shows "refines (execute (Suc n) (m_pc m) (m_pc m + 4) d m) (isa_ecall (abs_state m))"
proof -
  let ?m1 = "m\<lparr>csrs := (csrs m)(MCAUSE := 11, MTVAL := 0, MSTATUS := trap_mstatus (csrs m MSTATUS), MEPC := m_pc m)\<rparr>"
  have "exec_op (Suc n) (m_pc m) (m_pc m + 4) d m = Inr (Rd_none, csrs m MTVEC, False, ?m1)"
    using assms by (simp add: exec_op_def exec_ecall_def raise_except_def except_next_priv_def priv_def bare_def
        trap_enter_M mstatus_enter_M)
  moreover have "bare ?m1"
    using assms(1) bit_mstatus_enter [of M_MODE "csrs m MSTATUS" BIT_MIE_POS] by (simp add: bare_def mstatus_enter_M)
  moreover have "goto (csrs m MTVEC) (abs_state ?m1) = isa_ecall (abs_state m)"
    by (simp add: goto_def abs_state_def isa_ecall_def bus_bytes_def fun_eq_iff)
  ultimately show ?thesis
    using refines_goto assms(3) by metis
qed

lemma cpu_step_refines:
  assumes "bare m" "isa_step (abs_state m) s'"
  shows "\<exists>m'. cpu_step (Suc n) m = Inr m' \<and> abs_state m' = s' \<and> bare m'"
  using assms(2)
proof cases
  case (full i)
  obtain d where d: "decode (m_pc m) (encode i) = Inr (m_pc m + 4, d)" "meaning i d"
    using decode_insn by blast
  show ?thesis
  proof (rule pass_refines [OF assms(1), where len = 4 and d = d])
    fix m1
    assume "bare m1" "abs_state m1 = abs_state m"
    with full(3) d(2) show "refines (execute (Suc n) (m_pc m) (m_pc m + 4) d m1) s'"
      using execute_refines [of m1 i d 4 s' n] by (metis abs_sel(2))
  qed (use full d(1) in simp_all)
next
  case (compressed c i)
  have "\<forall>r u. c \<noteq> C_FSDSP r u"
    using compressed(4) by (auto simp: expand_def)
  from decode_compressed [OF compressed(3) this] obtain d where
    d: "decode (m_pc m) (ucast (load_le (bus_bytes m) (m_pc m) 4)) = Inr (m_pc m + 2, d)" "meaning i d"
    using compressed(2,4) by (auto simp: fetch_low_half expansion_meaning_def)
  show ?thesis
  proof (rule pass_refines [OF assms(1) _ d(1)])
    fix m1
    assume "bare m1" "abs_state m1 = abs_state m"
    with compressed(5) d(2) show "refines (execute (Suc n) (m_pc m) (m_pc m + 2) d m1) s'"
      using execute_refines [of m1 i d 2 s' n] by (metis abs_sel(2))
  qed (use compressed in simp)
next
  case (compressed_nop c)
  have "\<forall>r u. c \<noteq> C_FSDSP r u"
    using compressed_nop(5) by (auto simp: expand_def)
  from decode_compressed [OF compressed_nop(4) this] obtain d where
    d: "decode (m_pc m) (ucast (load_le (bus_bytes m) (m_pc m) 4)) = Inr (m_pc m + 2, d)" "expansion_meaning Nop d"
    using compressed_nop(3,5) by (auto simp: fetch_low_half)
  show ?thesis
  proof (rule pass_refines [OF assms(1) _ d(1)])
    fix m1
    assume "bare m1" "abs_state m1 = abs_state m"
    then show "refines (execute (Suc n) (m_pc m) (m_pc m + 2) d m1) s'"
      using nop_refines [of m1 d n] d(2) compressed_nop(1) by (metis abs_sel(2))
  qed (use compressed_nop in simp)
next
  case ecall
  obtain d where d: "decode (m_pc m) 0x73 = Inr (m_pc m + 4, d)" "d_op d = ECALL" "d_rd d = 0"
    using decode_ecall by blast
  show ?thesis
  proof (rule pass_refines [OF assms(1), where len = 4 and d = d])
    fix m1
    assume "bare m1" "abs_state m1 = abs_state m"
    then show "refines (execute (Suc n) (m_pc m) (m_pc m + 4) d m1) s'"
      using ecall_refines [of m1 d n] d(2,3) ecall(1) by (metis abs_sel(2))
  qed (use ecall d(1) in simp_all)
qed

fun cpu_steps :: "nat \<Rightarrow> nat \<Rightarrow> machine \<Rightarrow> machine result" where
  "cpu_steps fuel 0 m = Inr m"
| "cpu_steps fuel (Suc k) m = and_then (cpu_step fuel m) (cpu_steps fuel k)"

lemma cpu_steps_run: "cpu_steps fuel k m = run (\<lambda>_. cpu_step fuel) (replicate k ()) m"
  by (induction k arbitrary: m) (simp_all add: and_then_def split: sum.splits)

interpretation cpu: simulation "\<lambda>_::unit. cpu_step (Suc n)" "\<lambda>_. isa_step" "\<lambda>m s. abs_state m = s \<and> bare m" for n
  by unfold_locales (use cpu_step_refines in blast)

text \<open>C3.  A program of 32-bit and compressed instructions, accesses to the trap registers and environment
  calls that runs in machine mode from RAM with interrupts off runs as the ISA says: for every
  run of the reference interpreter, of any length, the main loop runs as many passes without
  panic or undefined behaviour and ends in a machine with the registers, the program counter,
  the memory and the CSRs of the reference.\<close>

theorem cpu_refines_isa:
  assumes "bare m" "(isa_step ^^ k) (abs_state m) s'"
  shows "\<exists>m'. cpu_steps (Suc n) k m = Inr m' \<and> abs_state m' = s' \<and> bare m'"
proof -
  have "spec_run (\<lambda>_. isa_step) (replicate k ()) (abs_state m) s'"
    using assms(2) by (simp add: spec_run_power)
  then show ?thesis
    using cpu.runs [of "replicate k ()" "abs_state m" s' m n] assms(1) by (simp add: cpu_steps_run)
qed

text \<open>\<open>addi x1, x0, 5\<close> and \<open>c.add x1, x1\<close>, at the start of RAM.\<close>

definition demo_program :: machine where
  "demo_program = demo_machine\<lparr>m_pc := 0x80000000, m_plic := plic_init,
     m_ram := ram_init\<lparr>ram_mem := (\<lambda>_. 0)(0 := 0x93, 2 := 0x50, 4 := 0x86, 5 := 0x90)\<rparr>\<rparr>"

lemma demo_program_bare: "bare demo_program"
  by (simp add: bare_def demo_program_def demo_machine_fields ram_init_def plic_init_inv)
    (simp add: plic_init_def eval_nat_numeral)

lemma load_le_4:
  "load_le mem a 4 = ucast (mem a) OR push_bit 8 (ucast (mem (a + 1)) OR
     push_bit 8 (ucast (mem (a + 1 + 1)) OR push_bit 8 (ucast (mem (a + 1 + 1 + 1)))))"
  "load_le mem a 2 = ucast (mem a) OR push_bit 8 (ucast (mem (a + 1)))"
proof -
  have "load_le mem a (Suc (Suc (Suc (Suc 0)))) = ucast (mem a) OR push_bit 8 (ucast (mem (a + 1)) OR
     push_bit 8 (ucast (mem (a + 1 + 1)) OR push_bit 8 (ucast (mem (a + 1 + 1 + 1)))))"
    by simp
  then show "load_le mem a 4 = ucast (mem a) OR push_bit 8 (ucast (mem (a + 1)) OR
     push_bit 8 (ucast (mem (a + 1 + 1)) OR push_bit 8 (ucast (mem (a + 1 + 1 + 1)))))"
    by (simp only: numeral_eq_Suc [of "num.Bit0 (num.Bit0 num.One)"] pred_numeral_simps numeral_3_eq_3 BitM.simps)
  show "load_le mem a 2 = ucast (mem a) OR push_bit 8 (ucast (mem (a + 1)))"
    by (simp add: numeral_2_eq_2)
qed

lemma demo_program_insns:
  "ucast (load_le (bus_bytes demo_program) 0x80000000 4) = encode (IImm ADDI 1 0 5)"
  "ucast (load_le (bus_bytes demo_program) 0x80000004 2) = c_encode (C_ADD 1 1)"
proof -
  have "encode (IImm ADDI 1 0 5) = 0x00500093" "c_encode (C_ADD 1 1) = 0x9086"
    by code_simp+
  then show "ucast (load_le (bus_bytes demo_program) 0x80000000 4) = encode (IImm ADDI 1 0 5)"
    "ucast (load_le (bus_bytes demo_program) 0x80000004 2) = c_encode (C_ADD 1 1)"
    by (simp_all add: load_le_4 bus_bytes_def demo_program_def)
qed

lemma demo_pc: "m_pc demo_program = 0x80000000" and demo_regs: "m_reg demo_program = (\<lambda>_. 0)"
  by (simp_all add: demo_program_def demo_machine_fields)

theorem cpu_refines_isa_witness:
  "\<exists>m'. cpu_steps 1 2 demo_program = Inr m' \<and> m_reg m' 1 = 10"
proof -
  let ?s0 = "abs_state demo_program"
  let ?s1 = "set_reg 1 5 (goto 0x80000004 ?s0)"
  let ?s2 = "set_reg 1 10 (goto 0x80000006 ?s1)"
  have "isa_step ?s0 ?s1"
    by (rule isa_step.full [where i = "IImm ADDI 1 0 5"])
      (simp_all add: demo_program_insns in_ram_def demo_pc isa_exec_def Let_def next_insn_def goto_def
        imm_undefined_def imm_value_def isa_imm_def demo_regs)
  moreover have "isa_step ?s1 ?s2"
    by (rule isa_step.compressed [where c = "C_ADD 1 1" and i = "IReg ADD 1 1 1"])
      (simp_all add: c_legal_def expand_def set_reg_def goto_def demo_program_insns in_ram_def isa_exec_def Let_def next_insn_def
        reg_undefined_def isa_reg_def)
  ultimately have "(isa_step ^^ 2) ?s0 ?s2"
    by (auto simp: numeral_2_eq_2)
  from cpu_refines_isa [OF demo_program_bare this, of 0] obtain m'
    where m': "cpu_steps 1 2 demo_program = Inr m'" "abs_state m' = ?s2"
    by auto
  then have "i_regs (abs_state m') 1 = 10"
    by (simp add: set_reg_def)
  with m'(1) show ?thesis by simp
qed

end
