(* ===== verification/Tracing.thy ===== *)
theory Tracing
  imports Trace Refine
begin

text \<open>
  The printing of \<open>trace.c\<close>: \<open>trace\<close>, which \<open>main\<close> calls after each instruction when
  \<open>DISABLE_TRACE\<close> is not defined, and the two older functions \<open>trace_decode\<close> and
  \<open>trace_execute\<close>.  What they print is returned as bytes.
\<close>

section \<open>Numbers as \<open>printf\<close> writes them\<close>

fun hex_num :: "nat \<Rightarrow> cstring" where
  "hex_num n = (if n < 16 then [hex_char n] else hex_num (n div 16) @ [hex_char (n mod 16)])"

fun dec_num :: "nat \<Rightarrow> cstring" where
  "dec_num n = (if n < 10 then [of_nat (48 + n)] else dec_num (n div 10) @ [of_nat (48 + n mod 10)])"

declare hex_num.simps [simp del] dec_num.simps [simp del]

text \<open>The conversions \<open>%lx\<close>, \<open>%ld\<close>, \<open>%-16lx\<close> and \<open>%0<n>x\<close>.\<close>

definition pr_lx :: "'a::len word \<Rightarrow> cstring" where
  "pr_lx v = hex_num (unat v)"

definition pr_ld :: "u64 \<Rightarrow> cstring" where
  "pr_ld v = (if v <s 0 then 45 # dec_num (unat (- v)) else dec_num (unat v))"

definition pr_left16 :: "u64 \<Rightarrow> cstring" where
  "pr_left16 v = pr_lx v @ replicate (16 - length (pr_lx v)) 32"

definition pr_zeros :: "nat \<Rightarrow> u32 \<Rightarrow> cstring" where
  "pr_zeros n v = replicate (n - length (pr_lx v)) 48 @ pr_lx v"

abbreviation (input) newline :: cstring where "newline \<equiv> [10]"

section \<open>The instruction\<close>

abbreviation (input) HAS_RD :: u32 where "HAS_RD \<equiv> 1"
abbreviation (input) HAS_RS1 :: u32 where "HAS_RS1 \<equiv> 2"
abbreviation (input) HAS_RS2 :: u32 where "HAS_RS2 \<equiv> 4"

definition reg_str :: "u32 \<Rightarrow> cstring result" where
  "reg_str r = and_then (reg_name r) (\<lambda>n. Inr (str n))"

definition op_str :: "op_t \<Rightarrow> cstring result" where
  "op_str op = and_then (op_name (op_index op)) (\<lambda>n. Inr (str n))"

text \<open>Pieces of a line, the first failing one deciding.\<close>

fun pieces :: "cstring result list \<Rightarrow> cstring result" where
  "pieces [] = Inr []"
| "pieces (p # ps) = and_then p (\<lambda>s. and_then (pieces ps) (\<lambda>t. Inr (s @ t)))"

abbreviation (input) lit :: "string \<Rightarrow> cstring result" where "lit s \<equiv> Inr (str s)"

definition flagged :: "u32 \<Rightarrow> cstring result \<Rightarrow> (cstring \<times> u32) result" where
  "flagged flag r = and_then r (\<lambda>s. Inr (s, flag))"

definition trace_insn :: "u64 \<Rightarrow> decoded \<Rightarrow> (cstring \<times> u32) result" where
  "trace_insn pc d =
    (let opcode = d_opcode d; imm = d_imm d;
         op = op_str (d_op d); rd = reg_str (d_rd d); rs1 = reg_str (d_rs1 d); rs2 = reg_str (d_rs2 d) in
     if opcode = OP_LOAD \<or> opcode = OP_LOAD_FP then
       flagged (HAS_RD OR HAS_RS1)
         (pieces [lit ''  '', op, lit '' '', rd, lit '', '', Inr (pr_ld imm), lit ''('', rs1, lit '')''])
     else if opcode = OP_IMM \<or> opcode = OP_IMM_W then
       flagged (HAS_RD OR HAS_RS1)
         (pieces [lit ''  '', op, lit '' '', rd, lit '', '', rs1, lit '', '', Inr (pr_ld imm)])
     else if opcode = OP_AUIPC then
       flagged HAS_RD (pieces [lit ''  '', op, lit '' '', rd, lit '', 0x'', Inr (pr_lx imm)])
     else if opcode = OP_STORE \<or> opcode = OP_STORE_FP then
       flagged (HAS_RS1 OR HAS_RS2)
         (pieces [lit ''  '', op, lit '' '', rs2, lit '', '', Inr (pr_ld imm), lit ''('', rs1, lit '')''])
     else if opcode = OP_REG then
       flagged (HAS_RD OR HAS_RS1 OR HAS_RS2)
         (pieces [lit ''  '', op, lit '' '', rd, lit '', '', rs1, lit '', '', rs2])
     else if opcode = OP_BRANCH then
       flagged (HAS_RS1 OR HAS_RS2)
         (pieces [lit ''  '', op, lit '' '', rs1, lit '', '', rs2, lit '', 0x'', Inr (pr_lx (imm + pc))])
     else if opcode = OP_JALR then
       flagged (HAS_RD OR HAS_RS1)
         (pieces [lit ''  '', op, lit '' '', rd, lit '', '', Inr (pr_ld imm), lit ''('', rs1, lit '')''])
     else if opcode = OP_JAL then
       flagged HAS_RD (pieces [lit ''  '', op, lit '' '', rd, lit '', 0x'', Inr (pr_lx (imm + pc))])
     else if opcode = OP_SYSTEM then
       flagged (HAS_RD OR HAS_RS1)
         (pieces [lit ''  '', op, lit '' '', rd, lit '', '', lit (csr_name (d_csr_addr d)), lit '', '', rs1])
     else if opcode = OP_NOP then flagged 0 (pieces [lit ''  '', op])
     else Inl (Panic ''trace''))"

definition trace_word :: "u32 \<Rightarrow> cstring" where
  "trace_word inst =
    (if inst AND 3 = 3 then [9] @ str ''[0x'' @ pr_zeros 8 inst @ str '']'' @ newline
     else [9] @ str ''[0x'' @ pr_zeros 4 (inst AND 0xFFFF) @ str '']'' @ newline)"

text \<open>The registers the instruction uses, after it, each once; not \<open>zero\<close>.\<close>

definition trace_regs :: "u32 \<Rightarrow> decoded \<Rightarrow> machine \<Rightarrow> cstring result" where
  "trace_regs flag d m =
    (let show_reg = (\<lambda>r. pieces [lit ''  '', reg_str r, lit '': 0x'', Inr (pr_left16 (m_reg m r)), Inr newline]);
         rd = d_rd d; rs1 = d_rs1 d; rs2 = d_rs2 d in
     pieces
       [if rd \<noteq> 0 \<and> flag AND HAS_RD \<noteq> 0 then show_reg rd else Inr [],
        if rs1 \<noteq> 0 \<and> flag AND HAS_RS1 \<noteq> 0 \<and> rs1 \<noteq> rd then show_reg rs1 else Inr [],
        if rs2 \<noteq> 0 \<and> flag AND HAS_RS2 \<noteq> 0 \<and> rs2 \<noteq> rd then show_reg rs2 else Inr []])"

section \<open>Memory\<close>

definition read_number :: "bool \<Rightarrow> u64 \<Rightarrow> u64 \<Rightarrow> machine \<Rightarrow> (u64 \<times> machine) result" where
  "read_number no_mmu addr sz m =
    (if no_mmu then bus_read m addr sz
     else and_then (as_read m addr sz) (\<lambda>(v, has_except, m). Inr (v, m)))"

text \<open>
  The loop of \<open>_show_string\<close>; the first argument is the room left in \<open>str\<close>.  Each byte is read
  before the room is checked.
\<close>

fun string_bytes :: "nat \<Rightarrow> bool \<Rightarrow> u64 \<Rightarrow> machine \<Rightarrow> (cstring \<times> machine) result" where
  "string_bytes 0 no_mmu addr m =
     and_then (read_number no_mmu addr 1 m) (\<lambda>_. Inl (Panic ''_show_string''))"
| "string_bytes (Suc n) no_mmu addr m =
     and_then (read_number no_mmu addr 1 m) (\<lambda>(v, m).
       let c = ucast v in
       if c = 0 then Inr ([], m)
       else and_then (string_bytes n no_mmu (addr + 1) m) (\<lambda>(cs, m). Inr (c # cs, m)))"

definition show_string :: "bool \<Rightarrow> u64 \<Rightarrow> cstring \<Rightarrow> machine \<Rightarrow> (cstring \<times> machine) result" where
  "show_string no_mmu addr name m =
    and_then (string_bytes 256 no_mmu addr m) (\<lambda>(s, m).
      Inr (str ''  '' @ name @ str '': '' @ s @ newline, m))"

text \<open>The words at the stack pointer; the loop counts up, its counter is unsigned.\<close>

fun show_stack :: "nat \<Rightarrow> u64 \<Rightarrow> bool \<Rightarrow> machine \<Rightarrow> (cstring \<times> machine) result" where
  "show_stack 0 i no_mmu m = Inr ([], m)"
| "show_stack (Suc n) i no_mmu m =
     and_then (read_number no_mmu (m_reg m (reg_no REG_SP) + push_bit 3 i) 8 m) (\<lambda>(value, m).
     and_then (show_stack n (i + 1) no_mmu m) (\<lambda>(out, m).
       Inr (str ''  - 0x'' @ pr_left16 value @ newline @ out, m)))"

fun show_watches ::
  "system_map_item list \<Rightarrow> bool \<Rightarrow> watch_item list \<Rightarrow> machine \<Rightarrow> (cstring \<times> machine) result" where
  "show_watches smap no_mmu [] m = Inr ([], m)"
| "show_watches smap no_mmu (w # ws) m =
     (case match_in_system_map smap (watch_name w) of
        None \<Rightarrow> Inl (Panic ''trace'')
      | Some (_, base) \<Rightarrow>
          let base = (if no_mmu then va_to_pa base else base) in
          and_then
            (if watch_type w = 115 then show_string no_mmu base (watch_name w) m
             else and_then (conv_to_size (watch_type w)) (\<lambda>sz.
                  and_then (read_number no_mmu base sz m) (\<lambda>(value, m).
                    Inr (str ''  '' @ watch_name w @ str '': 0x'' @ pr_left16 value @ newline, m))))
            (\<lambda>(out, m). and_then (show_watches smap no_mmu ws m) (\<lambda>(out', m). Inr (out @ out', m))))"

section \<open>\<open>trace\<close>\<close>

definition trace ::
  "system_map_item list \<Rightarrow> u64 \<Rightarrow> decoded \<Rightarrow> u32 \<Rightarrow> trace_state \<Rightarrow> machine \<Rightarrow>
   (cstring \<times> trace_state \<times> machine) result" where
  "trace smap pc d inst tr m =
    (let (found, tr) = match_pc pc tr in
     case found of
       None \<Rightarrow> Inr ([], tr, m)
     | Some i \<Rightarrow>
         let item = trace_table tr ! i; bar = str ''======================================'' @ newline in
         if \<not> trace_enabled item then Inr ([], tr, m)
         else
           and_then (trace_insn pc d) (\<lambda>(insn, flag).
           and_then (trace_regs flag d m) (\<lambda>regs.
           let sp = str ''  sp: 0x'' @ pr_lx (m_reg m (reg_no REG_SP)) @ newline in
           and_then (show_stack (unat (of_int (trace_stack item) :: u64)) 0 (trace_no_mmu item) m) (\<lambda>(stack, m).
           let tp = str ''  tp: 0x'' @ pr_lx (m_reg m (reg_no REG_TP)) @ newline @ newline in
           and_then (show_watches smap (trace_no_mmu item) (watch_list item) m) (\<lambda>(watches, m).
             Inr (bar @ str ''0x'' @ pr_lx pc @ str '':'' @ insn @ trace_word inst @ regs @ newline @
                    sp @ stack @ newline @ tp @ watches @ bar, tr, m))))))"

text \<open>
  A pass of the main loop compiled with tracing.  The panics of \<open>trace\<close> and of what it calls
  come after the instruction has been executed.
\<close>

definition traced_step ::
  "nat \<Rightarrow> system_map_item list \<Rightarrow> trace_state \<Rightarrow> machine \<Rightarrow> (cstring \<times> trace_state \<times> machine) result" where
  "traced_step fuel smap tr m =
    (if m_pc m < 0x1000 then Inl (Panic ''main'')
     else
       and_then (interrupt_step m) (\<lambda>(next_pc, m).
       if next_pc \<noteq> 0 then Inr ([], tr, m\<lparr>m_pc := next_pc\<rparr>)
       else
         and_then (fetch m) (\<lambda>(next_pc, inst, m).
         if next_pc \<noteq> 0 then Inr ([], tr, m\<lparr>m_pc := next_pc\<rparr>)
         else
           and_then (decode (m_pc m) inst) (\<lambda>(next_pc, d).
           let pc = m_pc m in
           and_then (execute fuel pc next_pc d m) (\<lambda>(next_pc, m).
           and_then (trace smap pc d inst tr m) (\<lambda>(out, tr, m).
             Inr (out, tr, m\<lparr>m_pc := next_pc\<rparr>)))))))"

section \<open>The older functions\<close>

text \<open>Their switches are static variables that nothing sets; here they are the first argument.\<close>

definition trace_pc_start :: u64 where "trace_pc_start = 0x80000000"
definition trace_pc_end :: u64 where "trace_pc_end = 0xffffffe00087ccac"

definition csr_line :: "decoded \<Rightarrow> cstring result" where
  "csr_line d =
    (if OpCsr CSRRW \<le> d_op d \<and> d_op d \<le> OpCsr CSRRCI
     then pieces [lit ''csr: '', lit (csr_name (d_csr_addr d)), Inr newline, Inr newline] else Inr newline)"

definition trace_decode :: "bool \<Rightarrow> u64 \<Rightarrow> decoded \<Rightarrow> cstring result" where
  "trace_decode trace_decode_en pc d =
    (if \<not> trace_decode_en \<or> pc < trace_pc_start then Inr []
     else pieces [lit ''['', Inr (pr_lx pc), lit '']: '', op_str (d_op d), lit ''; rd: '', reg_str (d_rd d),
       lit ''; rs1: '', reg_str (d_rs1 d), lit ''; rs2: '', reg_str (d_rs2 d), lit ''; imm: '',
       Inr (pr_lx (d_imm d)), Inr newline, csr_line d])"

definition trace_execute :: "bool \<Rightarrow> u64 \<Rightarrow> decoded \<Rightarrow> machine \<Rightarrow> cstring result" where
  "trace_execute trace_execute_en pc d m =
    (if \<not> trace_execute_en \<or> pc < trace_pc_start \<or> trace_pc_end < pc then Inr []
     else
       let reg_val = (\<lambda>r. pieces [reg_str r, lit ''(0x'', Inr (pr_lx (m_reg m r)), lit '')'']) in
       pieces [lit ''['', Inr (pr_lx pc), lit '']: '', op_str (d_op d), lit ''; rd: '', reg_val (d_rd d),
         lit ''; rs1: '', reg_val (d_rs1 d), lit ''; rs2: '', reg_val (d_rs2 d), lit ''; imm: 0x'',
         Inr (pr_lx (d_imm d)), Inr newline, csr_line d])"

section \<open>What tracing may change\<close>

lemma keeps2I: "(\<And>v m'. r = Inr (v, m') \<Longrightarrow> bus_keeps m m') \<Longrightarrow> keeps2 m r"
  by (cases r) (auto simp: keeps2_def)

lemma read_number_keeps [keeps]: "keeps2 m (read_number no_mmu addr sz m)"
  by (rule keeps2I) (auto simp: read_number_def as_read_def and_then_eq_Inr split: if_splits option.splits
      dest!: keeps2D [OF mmu_keeps] keeps2D [OF bus_read_keeps] intro: bus_keeps_trans)

lemma string_bytes_keeps [keeps]: "keeps2 m (string_bytes n no_mmu addr m)"
proof (induction n arbitrary: addr m)
  case 0
  show ?case
    by (auto intro!: keeps_and_then(1) read_number_keeps)
next
  case (Suc n)
  show ?case
    by (auto simp: Let_def split_def intro!: keeps_and_then(1) read_number_keeps Suc)
qed

lemma show_string_keeps [keeps]: "keeps2 m (show_string no_mmu addr name m)"
  by (auto simp: show_string_def split_def intro!: keeps_and_then string_bytes_keeps)

lemma show_stack_keeps [keeps]: "keeps2 m (show_stack n i no_mmu m)"
proof (induction n arbitrary: i m)
  case (Suc n)
  show ?case
    by (auto simp: split_def intro!: keeps_and_then(1) read_number_keeps Suc)
qed simp

lemma show_watches_keeps [keeps]: "keeps2 m (show_watches smap no_mmu ws m)"
proof (induction ws arbitrary: no_mmu m)
  case (Cons w ws)
  show ?case
    by (cases "conv_to_size (watch_type w)")
      (auto simp: Let_def split_def intro!: keeps_and_then(1) show_string_keeps read_number_keeps Cons
        split: option.splits)
qed simp

lemma trace_keeps:
  assumes "trace smap pc d inst tr m = Inr (out, tr', m')"
  shows "bus_keeps m m'"
  using assms
  by (auto simp: trace_def Let_def and_then_eq_Inr split: prod.splits option.splits if_splits
      dest!: keeps2D [OF show_stack_keeps] keeps2D [OF show_watches_keeps] intro: bus_keeps_trans)

lemma trace_core:
  assumes "trace smap pc d inst tr m = Inr (out, tr', m')"
  shows "same_core (m\<lparr>m_pc := p\<rparr>) (m'\<lparr>m_pc := p\<rparr>) \<and>
    (devices_inv (m\<lparr>m_pc := p\<rparr>) \<longrightarrow> devices_inv (m'\<lparr>m_pc := p\<rparr>))"
  using trace_keeps [OF assms] by (simp add: bus_keeps_def same_core_def devices_inv_def)


section \<open>When tracing goes through\<close>

text \<open>The opcodes \<open>trace\<close> knows.\<close>

definition traced_opcodes :: "u32 list" where
  "traced_opcodes = [OP_LOAD, OP_LOAD_FP, OP_IMM, OP_IMM_W, OP_AUIPC, OP_STORE, OP_STORE_FP, OP_REG, OP_BRANCH,
     OP_JALR, OP_JAL, OP_SYSTEM, OP_NOP]"

lemma reg_str_ok: "r < 32 \<Longrightarrow> \<exists>s. reg_str r = Inr s"
  using distinct_abi_names by (simp add: reg_str_def reg_name_def array_get_def word_less_nat_alt)

lemma op_str_ok: "\<exists>s. op_str op = Inr s"
  using op_index_less [of op] by (simp add: op_str_def op_name_def length_op_names)

lemma pieces_ok: "\<forall>p\<in>set ps. \<exists>s. p = Inr s \<Longrightarrow> \<exists>s. pieces ps = Inr s"
  by (induction ps) auto

lemma trace_insn_outcome:
  assumes "in_range d"
  shows "if d_opcode d \<in> set traced_opcodes then \<exists>r. trace_insn pc d = Inr r else trace_insn pc d = Inl (Panic ''trace'')"
proof -
  obtain op rd rs1 rs2 where "op_str (d_op d) = Inr op" "reg_str (d_rd d) = Inr rd" "reg_str (d_rs1 d) = Inr rs1"
      "reg_str (d_rs2 d) = Inr rs2"
    using assms op_str_ok reg_str_ok unfolding in_range_def by metis
  then show ?thesis
    by (auto simp: trace_insn_def traced_opcodes_def flagged_def Let_def)
qed

lemma trace_regs_ok: "in_range d \<Longrightarrow> \<exists>s. trace_regs flag d m = Inr s"
  unfolding trace_regs_def Let_def
  by (intro pieces_ok) (auto simp: in_range_def intro!: pieces_ok dest: reg_str_ok)

text \<open>A read of RAM, or one whose address does not translate, which prints 0.\<close>

definition ram_at :: "bool \<Rightarrow> u64 \<Rightarrow> u64 \<Rightarrow> machine \<Rightarrow> bool" where
  "ram_at no_mmu a sz m \<longleftrightarrow>
    (if no_mmu then bus_ok m a sz
     else mmu m a = Inr (None, m) \<or> (\<exists>pa. mmu m a = Inr (Some pa, m) \<and> bus_ok m pa sz))"

lemma ram_at_read: "ram_at no_mmu a sz m \<Longrightarrow> \<exists>v. read_number no_mmu a sz m = Inr (v, m)"
  by (auto simp: ram_at_def read_number_def as_read_def bus_read_ok split: if_splits)

definition watch_ok :: "system_map_item list \<Rightarrow> bool \<Rightarrow> machine \<Rightarrow> watch_item \<Rightarrow> bool" where
  "watch_ok smap no_mmu m w \<longleftrightarrow>
    (case match_in_system_map smap (watch_name w) of
       None \<Rightarrow> False
     | Some (_, base) \<Rightarrow>
         let base = (if no_mmu then va_to_pa base else base) in
         if watch_type w = 115 then
           \<exists>n<256. (\<forall>k\<le>n. ram_at no_mmu (base + of_nat k) 1 m) \<and>
             (\<exists>v. read_number no_mmu (base + of_nat n) 1 m = Inr (v, m) \<and> ucast v = (0 :: u8))
         else \<exists>sz. conv_to_size (watch_type w) = Inr sz \<and> ram_at no_mmu base sz m)"

definition item_ok :: "system_map_item list \<Rightarrow> trace_item \<Rightarrow> machine \<Rightarrow> bool" where
  "item_ok smap item m \<longleftrightarrow>
    (\<forall>k < unat (of_int (trace_stack item) :: u64).
       ram_at (trace_no_mmu item) (m_reg m 2 + push_bit 3 (of_nat k)) 8 m) \<and>
    (\<forall>w\<in>set (watch_list item). watch_ok smap (trace_no_mmu item) m w)"

lemma string_bytes_ok:
  assumes "\<forall>k\<le>n. ram_at no_mmu (a + of_nat k) 1 m" "n < room"
    and "read_number no_mmu (a + of_nat n) 1 m = Inr (v, m)" "ucast v = (0 :: u8)"
  shows "\<exists>s. string_bytes room no_mmu a m = Inr (s, m)"
  using assms
proof (induction n arbitrary: a room)
  case 0
  then show ?case by (cases room) (simp_all add: Let_def)
next
  case (Suc n)
  then obtain r where room: "room = Suc r" by (cases room) auto
  have "\<forall>k\<le>n. ram_at no_mmu (a + 1 + of_nat k) 1 m"
    using Suc.prems(1) by (auto simp: add.assoc dest: spec [of _ "Suc _"])
  moreover have "read_number no_mmu (a + 1 + of_nat n) 1 m = Inr (v, m)"
    using Suc.prems(3) by (simp add: add.assoc)
  ultimately have "\<exists>s. string_bytes r no_mmu (a + 1) m = Inr (s, m)"
    using Suc.IH [of "a + 1" r] Suc.prems(2,4) room by simp
  moreover obtain w where "read_number no_mmu a 1 m = Inr (w, m)"
    using ram_at_read [of no_mmu a 1 m] Suc.prems(1) [THEN spec [of _ 0]] by auto
  ultimately show ?case by (auto simp: room Let_def)
qed

lemma show_stack_ok:
  assumes "\<forall>k<n. ram_at no_mmu (m_reg m 2 + push_bit 3 (i + of_nat k)) 8 m"
  shows "\<exists>out. show_stack n i no_mmu m = Inr (out, m)"
  using assms
proof (induction n arbitrary: i)
  case (Suc n)
  have "\<forall>k<n. ram_at no_mmu (m_reg m 2 + push_bit 3 (i + 1 + of_nat k)) 8 m"
    using Suc.prems by (auto simp: add.assoc dest: spec [of _ "Suc _"])
  then obtain out where "show_stack n (i + 1) no_mmu m = Inr (out, m)"
    using Suc.IH by blast
  moreover obtain v where "read_number no_mmu (m_reg m 2 + push_bit 3 i) 8 m = Inr (v, m)"
    using ram_at_read [of no_mmu "m_reg m 2 + push_bit 3 i" 8 m] Suc.prems [THEN spec [of _ 0]] by auto
  ultimately show ?case by simp
qed simp

lemma show_watches_ok:
  "\<forall>w\<in>set ws. watch_ok smap no_mmu m w \<Longrightarrow> \<exists>out. show_watches smap no_mmu ws m = Inr (out, m)"
proof (induction ws)
  case (Cons w ws)
  then obtain out where out: "show_watches smap no_mmu ws m = Inr (out, m)"
    by auto
  obtain name base where map: "match_in_system_map smap (watch_name w) = Some (name, base)"
    using Cons.prems by (auto simp: watch_ok_def split: option.splits)
  let ?base = "if no_mmu then va_to_pa base else base"
  have "\<exists>s. (if watch_type w = 115 then show_string no_mmu ?base (watch_name w) m
       else and_then (conv_to_size (watch_type w)) (\<lambda>sz. and_then (read_number no_mmu ?base sz m) (\<lambda>(value, m).
         Inr (str ''  '' @ watch_name w @ str '': 0x'' @ pr_left16 value @ newline, m)))) = Inr (s, m)"
  proof (cases "watch_type w = 115")
    case True
    with Cons.prems map obtain n v where "\<forall>k\<le>n. ram_at no_mmu (?base + of_nat k) 1 m" "n < 256"
        "read_number no_mmu (?base + of_nat n) 1 m = Inr (v, m)" "ucast v = (0 :: u8)"
      by (auto simp: watch_ok_def Let_def)
    then show ?thesis
      using string_bytes_ok [of n no_mmu ?base m 256 v] True by (auto simp: show_string_def)
  next
    case False
    with Cons.prems map obtain sz where "conv_to_size (watch_type w) = Inr sz" "ram_at no_mmu ?base sz m"
      by (auto simp: watch_ok_def Let_def)
    then show ?thesis
      using ram_at_read False by fastforce
  qed
  then show ?case
    using map out by (auto simp: Let_def split del: if_split)
qed simp

lemma trace_cases:
  assumes "in_range d" "match_pc pc tr = (Some i, tr')" "trace_enabled (trace_table tr' ! i)"
    and "item_ok smap (trace_table tr' ! i) m"
  shows "if d_opcode d \<in> set traced_opcodes then \<exists>out. trace smap pc d inst tr m = Inr (out, tr', m)
     else trace smap pc d inst tr m = Inl (Panic ''trace'')"
proof -
  let ?item = "trace_table tr' ! i"
  obtain stack where stack:
    "show_stack (unat (of_int (trace_stack ?item) :: u64)) 0 (trace_no_mmu ?item) m = Inr (stack, m)"
    using show_stack_ok [of _ _ m 0] assms(4) unfolding item_ok_def by force
  obtain watches where watches: "show_watches smap (trace_no_mmu ?item) (watch_list ?item) m = Inr (watches, m)"
    using show_watches_ok assms(4) unfolding item_ok_def by blast
  have "\<exists>out. trace smap pc d inst tr m = Inr (out, tr', m)" if insn: "trace_insn pc d = Inr r" for r
  proof -
    obtain regs where "trace_regs (snd r) d m = Inr regs"
      using trace_regs_ok [OF assms(1)] by blast
    then show ?thesis
      using insn stack watches assms(2,3) by (simp add: trace_def Let_def split_def)
  qed
  moreover have "trace smap pc d inst tr m = Inl (Panic ''trace'')" if "trace_insn pc d = Inl (Panic ''trace'')"
    using that assms(2,3) by (simp add: trace_def)
  ultimately show ?thesis
    using trace_insn_outcome [OF assms(1), of pc] by (auto split: if_splits)
qed


text \<open>An example of each.\<close>

definition demo_tracing :: trace_state where
  "demo_tracing = \<lparr>trace_table = [\<lparr>trace_name = str ''_start'', trace_enabled = True,
     trace_addr = 0x80000000, trace_no_mmu = True, trace_stack = 0, trace_ninst = 0, watch_list = []\<rparr>],
     item_in_process = None\<rparr>"

lemma demo_tracing_match: "match_pc 0x80000000 demo_tracing = (Some 0, demo_tracing)"
  by (simp add: match_pc_def demo_tracing_def)

lemma demo_tracing_item: "trace_enabled (trace_table demo_tracing ! 0)" "item_ok smap (trace_table demo_tracing ! 0) m"
  by (simp_all add: demo_tracing_def item_ok_def)


definition addi_ra :: decoded where
  "addi_ra = \<lparr>d_op = OpImm ADDI, d_rd = 1, d_rs1 = 0, d_rs2 = 5, d_imm = 5, d_csr_addr = 0, d_opcode = OP_IMM\<rparr>"

lemma demo_decode: "decode 0x80000000 0x00500093 = Inr (0x80000004, addi_ra)"
  by code_simp

lemma demo_traced: "\<exists>out m'. traced_step 1 [] demo_tracing demo_program = Inr (out, demo_tracing, m') \<and> m_reg m' 1 = 5"
proof -
  obtain m1 where int: "interrupt_step demo_program = Inr (0, m1)" and m1: "bare m1" "abs_state m1 = abs_state demo_program"
      "m_pc m1 = m_pc demo_program"
    using demo_program_bare by (rule interrupt_step_bare)
  have pc: "m_pc m1 = 0x80000000"
    using m1(3) demo_pc by simp
  have "bus_bytes m1 = bus_bytes demo_program"
    using abs_sel(3) [of m1] abs_sel(3) [of demo_program] m1(2) by simp
  moreover have "encode (IImm ADDI 1 0 5) = 0x00500093"
    by code_simp
  ultimately have "fetch m1 = Inr (0, 0x00500093, m1)"
    using fetch_bare [OF m1(1)] demo_program_insns(1) by (simp add: pc in_ram_def)
  moreover have "execute 1 0x80000000 0x80000004 addi_ra m1 = Inr (0x80000004, m1\<lparr>m_reg := (m_reg m1)(1 := m_reg m1 0 + 5)\<rparr>)"
    by (simp add: execute_def exec_op_def addi_ra_def exec_value_def alu_imm_def write_back_def)
  moreover have "m_reg m1 0 = 0"
    using abs_sel(1) [of m1 0] abs_sel(1) [of demo_program 0] m1(2) by (simp add: demo_regs)
  moreover obtain out where "trace [] 0x80000000 addi_ra 0x00500093 demo_tracing (m1\<lparr>m_reg := (m_reg m1)(1 := 5)\<rparr>) =
      Inr (out, demo_tracing, m1\<lparr>m_reg := (m_reg m1)(1 := 5)\<rparr>)"
    using trace_cases [OF _ demo_tracing_match demo_tracing_item, where d = addi_ra and smap = "[]" and
        m = "m1\<lparr>m_reg := (m_reg m1)(1 := 5)\<rparr>" and inst = "0x00500093"]
    by (auto simp: in_range_def addi_ra_def traced_opcodes_def)
  ultimately show ?thesis
    using int demo_decode by (simp add: traced_step_def pc demo_pc)
qed


end
