(* ===== verification/Sv39.thy ===== *)
theory Sv39
  imports Steps
begin

text \<open>
  \<open>mmu.c\<close> against the whole translation of the privileged architecture, with the checks that
  \<open>sv39_walk\<close> (theory \<open>Mmu\<close>) leaves out: the permissions of the leaf, its accessed and dirty bits, the
  alignment of large pages and the sign extension of the address.
\<close>

datatype access_kind = Fetch_access | Load_access | Store_access

text \<open>
  \<open>status\<close> holds \<open>SUM\<close> (bit 18) and \<open>MXR\<close> (bit 19).  A clear accessed bit, and a clear dirty bit at
  a store, fault, which is one of the two schemes the architecture allows.
\<close>

definition permitted :: "access_kind \<Rightarrow> u32 \<Rightarrow> u64 \<Rightarrow> u64 \<Rightarrow> bool" where
  "permitted acc lvl status pte \<longleftrightarrow>
    (case acc of
       Fetch_access \<Rightarrow> bit pte 3
     | Load_access \<Rightarrow> bit pte 1 \<or> bit status 19 \<and> bit pte 3
     | Store_access \<Rightarrow> bit pte 2) \<and>
    (if lvl = U_MODE then bit pte 4 else bit pte 4 \<longrightarrow> bit status 18 \<and> acc \<noteq> Fetch_access) \<and>
    bit pte 6 \<and> (acc = Store_access \<longrightarrow> bit pte 7)"

fun arch_walk :: "(u64 \<Rightarrow> bool) \<Rightarrow> nat \<Rightarrow> u64 \<Rightarrow> u64 \<Rightarrow> machine \<Rightarrow> (u64 option \<times> machine) result" where
  "arch_walk allowed i table vaddr m =
    and_then (bus_read m (table + vpn vaddr i * 8) 8) (\<lambda>(pte, m).
      if \<not> bit pte 0 \<or> \<not> bit pte 1 \<and> bit pte 2 then Inr (None, m)
      else if bit pte 1 \<or> bit pte 3 then
        if \<not> allowed pte \<or> take_bit (9 * i) (drop_bit 10 pte) \<noteq> 0 then Inr (None, m)
        else Inr (Some (push_bit (12 + 9 * i) (take_bit (44 - 9 * i) (drop_bit (10 + 9 * i) pte)) +
                   take_bit (12 + 9 * i) vaddr), m)
      else case i of
        0 \<Rightarrow> Inr (None, m)
      | Suc j \<Rightarrow> arch_walk allowed j (take_bit 44 (drop_bit 10 pte) * 4096) vaddr m)"

declare arch_walk.simps [simp del]

definition canonical :: "u64 \<Rightarrow> bool" where
  "canonical vaddr \<longleftrightarrow> signed_take_bit 38 vaddr = vaddr"

definition arch_translate :: "access_kind \<Rightarrow> u64 \<Rightarrow> machine \<Rightarrow> u64 \<Rightarrow> (u64 option \<times> machine) result" where
  "arch_translate acc status m vaddr =
    (if cur_priv m = M_MODE \<or> drop_bit 60 (csrs m SATP) = 0 then Inr (Some vaddr, m)
     else if \<not> canonical vaddr then Inr (None, m)
     else arch_walk (permitted acc (cur_priv m) status) 2 (take_bit 44 (csrs m SATP) * 4096) vaddr m)"

lemma arch_walk_cases:
  "sv39_walk i table vaddr m = arch_walk allowed i table vaddr m \<or>
   (\<exists>pa m'. sv39_walk i table vaddr m = Inr (Some pa, m') \<and> arch_walk allowed i table vaddr m = Inr (None, m'))"
proof (induction i arbitrary: table m)
  case 0
  show ?case
    by (cases "bus_read m (table + vpn vaddr 0 * 8) 8") (auto simp: sv39_walk.simps [of 0] arch_walk.simps [of _ 0])
next
  case (Suc i)
  show ?case
  proof (cases "bus_read m (table + vpn vaddr (Suc i) * 8) 8")
    case (Inr r)
    then show ?thesis
      using Suc [of "take_bit 44 (drop_bit 10 (fst r)) * 4096" "snd r"]
      by (auto simp: sv39_walk.simps [of "Suc i"] arch_walk.simps [of _ "Suc i"] split_def
          simp del: mult_Suc_right take_bit_Suc)
  qed (simp add: sv39_walk.simps [of "Suc i"] arch_walk.simps [of _ "Suc i"])
qed

text \<open>C7.  \<open>mmu\<close> grants what Sv39 grants: for every kind of access to an address that is sign-extended
  from bit 38 it gives the architecture's answer, or it translates an access at which the
  architecture faults.  So an access the architecture permits gets the physical address it should
  get, and \<open>mmu\<close> faults only where the architecture does.  (In machine mode this is for \<open>MPRV\<close>
  clear, and \<open>satp\<close> is to hold mode 0 or 8.)\<close>

theorem mmu_grants_sv39:
  assumes "canonical vaddr"
  shows "mmu m vaddr = arch_translate acc status m vaddr \<or>
    (\<exists>pa m'. mmu m vaddr = Inr (Some pa, m') \<and> arch_translate acc status m vaddr = Inr (None, m'))"
  using assms arch_walk_cases by (simp add: mmu_sv39 sv39_def arch_translate_def)

lemma mmu_grants_sv39_witness: "arch_translate Load_access 0 demo_paged 0xFFFFFFE000000000 = Inr (None, demo_paged)"
proof -
  have "canonical 0xFFFFFFE000000000"
    unfolding canonical_def by code_simp
  from mmu_grants_sv39 [OF this, of demo_paged Load_access 0] show ?thesis
    by (simp add: demo_paged_walk)
qed

text \<open>C8.  It grants more: at any level below machine mode, a valid readable or executable entry at the
  top of the table translates for every kind of access, whatever its permissions, its accessed
  and dirty bits, the low bits of its page number and the high bits of the address.\<close>

theorem mmu_unchecked:
  assumes "cur_priv m \<noteq> M_MODE" "drop_bit 60 (csrs m SATP) = 8"
    and "bus_ok m (take_bit 44 (csrs m SATP) * 4096 + vpn vaddr 2 * 8) 8"
    and "pte = load_le (bus_bytes m) (take_bit 44 (csrs m SATP) * 4096 + vpn vaddr 2 * 8) 8"
    and "bit pte 0" "bit pte 1 \<or> bit pte 3 \<and> \<not> bit pte 2"
    and "\<not> permitted acc (cur_priv m) status pte \<or> take_bit 18 (drop_bit 10 pte) \<noteq> 0 \<or> \<not> canonical vaddr"
  shows "mmu m vaddr = Inr (Some (push_bit 30 (BITS pte 53 28) + take_bit 30 vaddr), m) \<and>
    arch_translate acc status m vaddr = Inr (None, m)"
proof -
  have read: "bus_read m (take_bit 44 (csrs m SATP) * 4096 + vpn vaddr 2 * 8) 8 = Inr (pte, m)"
    using bus_read_ok [OF assms(3)] assms(4) by simp
  have pte: "BITS pte 53 28 = take_bit 26 (drop_bit 28 pte)"
    by (simp add: BITS_eq_take_bit)
  have "mmu m vaddr = Inr (Some (push_bit 30 (BITS pte 53 28) + take_bit 30 vaddr), m)"
    using assms(1,2,5,6) read by (auto simp: mmu_sv39 sv39_def sv39_walk.simps [of 2] pte)
  moreover have "arch_translate acc status m vaddr = Inr (None, m)"
    using assms(1,2,5,6,7) read by (auto simp: arch_translate_def arch_walk.simps [of _ 2])
  ultimately show ?thesis by blast
qed

text \<open>A user whose page table has one entry: a large page at the start of RAM, read-only and not for
  users.\<close>

definition demo_readonly :: machine where
  "demo_readonly = demo_machine\<lparr>cur_priv := U_MODE, csrs := (\<lambda>_. 0)(SATP := 0x8000000000080000),
     m_ram := ram_init\<lparr>ram_mem := (\<lambda>_. 0)(0 := 3, 3 := 0x20)\<rparr>\<rparr>"

lemma demo_readonly_facts:
  "cur_priv demo_readonly \<noteq> M_MODE" "drop_bit 60 (csrs demo_readonly SATP) = 8" "vpn 0x1234 2 = 0"
  "take_bit 44 (csrs demo_readonly SATP) * 4096 = 0x80000000" "load_le (bus_bytes demo_readonly) 0x80000000 8 = 0x20000003"
  "bus_ok demo_readonly 0x80000000 8"
proof -
  have "take_bit 44 (0x8000000000080000 :: u64) * 4096 = 0x80000000" "drop_bit 60 (0x8000000000080000 :: u64) = 8"
    by code_simp+
  then show "cur_priv demo_readonly \<noteq> M_MODE" "drop_bit 60 (csrs demo_readonly SATP) = 8"
    "take_bit 44 (csrs demo_readonly SATP) * 4096 = 0x80000000" "bus_ok demo_readonly 0x80000000 8"
    by (simp_all add: demo_readonly_def demo_machine_fields bus_ok_def access_size_def ram_init_def)
  show "vpn 0x1234 2 = 0"
    by (simp add: vpn_def)
  show "load_le (bus_bytes demo_readonly) 0x80000000 8 = 0x20000003"
  proof -
    have "load_le (\<lambda>a. ((\<lambda>_. 0)(0 := 3, 3 := 0x20)) (a - 0x80000000)) 0x80000000 8 = 0x20000003"
      by code_simp
    then show ?thesis
      by (simp add: demo_readonly_def bus_bytes_def)
  qed
qed

lemma mmu_unchecked_witness:
  "mmu demo_readonly 0x1234 = Inr (Some 0x80001234, demo_readonly) \<and>
   arch_translate Store_access 0 demo_readonly 0x1234 = Inr (None, demo_readonly)"
proof -
  have "BITS (0x20000003 :: u64) 53 28 = 2" "take_bit 30 (0x1234 :: u64) = 0x1234"
    by code_simp+
  then show ?thesis
    using mmu_unchecked [OF demo_readonly_facts(1,2), of "0x1234" "0x20000003" Store_access 0]
    by (simp add: demo_readonly_facts permitted_def)
qed

end
