(* ===== verification/Hart.thy ===== *)
theory Hart
  imports Refine Sv39
begin

text \<open>
  A reference interpreter of the privileged architecture: machine, supervisor and user level, Sv39
  translation of fetches, loads, stores and atomics, page faults, environment calls, interrupts,
  delegation, and the returns from traps.  Memory is RAM; \<open>mstatus\<close> is one register of which
  \<open>sstatus\<close> is a view.  The interpreter stops (\<open>None\<close>, \<open>Outside\<close>) at what the fragment leaves out
  and where the C code is known to leave the architecture.
\<close>

section \<open>The state\<close>

text \<open>
  \<open>h_known\<close> marks the bits of \<open>h_mstatus\<close> the program may rely on: after a return from a trap the
  architecture sets the previous enable bit and the previous level, which the C code leaves as they
  were, so these bits are unknown until a trap or the program sets them.  \<open>h_timer\<close>, \<open>h_soft\<close> and
  \<open>h_ext\<close> are the interrupt lines; an external interrupt has one line for each level.
\<close>

record hart =
  h_regs :: "regno \<Rightarrow> u64"
  h_pc :: u64
  h_mem :: "u64 \<Rightarrow> u8"
  h_lvl :: u32
  h_csrs :: "u32 \<Rightarrow> u64"
  h_mstatus :: u64
  h_known :: u64
  h_timer :: bool
  h_soft :: bool
  h_ext :: "u32 \<Rightarrow> bool"

definition hart_next :: "u64 \<Rightarrow> hart \<Rightarrow> hart" where
  "hart_next len s = s\<lparr>h_pc := h_pc s + len\<rparr>"

definition hart_put :: "u64 \<Rightarrow> regno \<Rightarrow> u64 \<Rightarrow> hart \<Rightarrow> hart" where
  "hart_put len rd v s =
    (hart_next len s)\<lparr>h_regs := (if rd = 0 then h_regs s else (h_regs s)(rd := v))\<rparr>"

text \<open>An access gives a value, a page fault at an address, or nothing the fragment defines.\<close>

datatype 'a outcome = Value 'a | Page_fault u64 | Outside

primrec on_value :: "'a outcome \<Rightarrow> ('a \<Rightarrow> 'b outcome) \<Rightarrow> 'b outcome" where
  "on_value (Value x) f = f x"
| "on_value (Page_fault va) f = Page_fault va"
| "on_value Outside f = Outside"

section \<open>Translation\<close>

text \<open>
  The walk of Sv39, over memory.  A leaf that does not permit the access, or is misaligned, faults
  in the architecture and translates in the code: it is outside the fragment.
\<close>

fun hart_walk :: "(u64 \<Rightarrow> bool) \<Rightarrow> (u64 \<Rightarrow> u8) \<Rightarrow> nat \<Rightarrow> u64 \<Rightarrow> u64 \<Rightarrow> u64 outcome" where
  "hart_walk allowed mem i table va =
    (let a = table + vpn va i * 8; pte = load_le mem a 8 in
     if \<not> in_ram a 8 then Outside
     else if \<not> bit pte 0 \<or> \<not> bit pte 1 \<and> bit pte 2 then Page_fault va
     else if drop_bit 54 pte \<noteq> 0 then Outside
     else if bit pte 1 \<or> bit pte 3 then
       if \<not> allowed pte \<or> take_bit (9 * i) (drop_bit 10 pte) \<noteq> 0 then Outside
       else Value (push_bit (12 + 9 * i) (take_bit (44 - 9 * i) (drop_bit (10 + 9 * i) pte)) +
              take_bit (12 + 9 * i) va)
     else case i of
       0 \<Rightarrow> Page_fault va
     | Suc j \<Rightarrow> hart_walk allowed mem j (take_bit 44 (drop_bit 10 pte) * 4096) va)"

declare hart_walk.simps [simp del]

definition hart_translate :: "access_kind \<Rightarrow> nat \<Rightarrow> u64 \<Rightarrow> hart \<Rightarrow> u64 outcome" where
  "hart_translate acc n va s =
    (let satp = h_csrs s SATP in
     if h_lvl s = M_MODE \<and> bit (h_mstatus s) 17 then Outside
     else if h_lvl s = M_MODE \<or> drop_bit 60 satp = 0 then Value va
     else if drop_bit 60 satp \<noteq> 8 \<or> \<not> canonical va \<or> 4096 < unat va mod 4096 + n then Outside
     else hart_walk (permitted acc (h_lvl s) (h_mstatus s)) (h_mem s) 2 (take_bit 44 satp * 4096) va)"

definition hart_access :: "access_kind \<Rightarrow> nat \<Rightarrow> u64 \<Rightarrow> hart \<Rightarrow> u64 outcome" where
  "hart_access acc n va s =
    on_value (hart_translate acc n va s) (\<lambda>a. if in_ram a n then Value a else Outside)"

text \<open>
  An instruction that starts two bytes before the end of a page is fetched in halves.  The
  architecture needs the second half only of a 32-bit instruction; the code always fetches it, and
  faults where it cannot.
\<close>

definition hart_fetch :: "hart \<Rightarrow> u32 outcome" where
  "hart_fetch s =
    (let pc = h_pc s; mem = h_mem s in
     if unat pc mod 4096 = 4094 then
       on_value (hart_access Fetch_access 2 pc s) (\<lambda>a.
         let lo = (ucast (load_le mem a 2) :: u16) in
         case hart_access Fetch_access 2 (pc + 2) s of
           Value b \<Rightarrow> Value (low_half (ucast (load_le mem b 2)) lo)
         | Page_fault va \<Rightarrow> if lo AND 3 = 3 then Page_fault va else Outside
         | Outside \<Rightarrow> Outside)
     else on_value (hart_access Fetch_access 4 pc s) (\<lambda>a. Value (ucast (load_le mem a 4))))"

section \<open>Traps\<close>

definition put_bit :: "nat \<Rightarrow> bool \<Rightarrow> u64 \<Rightarrow> u64" where
  "put_bit n b w = (if b then set_bit n w else unset_bit n w)"

definition enter_status :: "u32 \<Rightarrow> u32 \<Rightarrow> u64 \<Rightarrow> u64" where
  "enter_status tgt lvl w =
    (if tgt = S_MODE then put_bit 1 False (put_bit 5 (bit w 1) (put_bit 8 (lvl \<noteq> U_MODE) w))
     else put_bit 3 False (put_bit 7 (bit w 3) (put_bit 11 (bit lvl 0) (put_bit 12 (bit lvl 1) w))))"

definition enter_known :: "u32 \<Rightarrow> u64 \<Rightarrow> u64" where
  "enter_known tgt k =
    (if tgt = S_MODE then put_bit 1 True (put_bit 5 (bit k 1) (put_bit 8 True k))
     else put_bit 3 True (put_bit 7 (bit k 3) (put_bit 11 True (put_bit 12 True k))))"

text \<open>A trap to level \<open>tgt\<close>, whose vector is to be direct and not 0.\<close>

definition hart_trap :: "u32 \<Rightarrow> u64 \<Rightarrow> u64 \<Rightarrow> hart \<Rightarrow> hart option" where
  "hart_trap tgt cause tval s =
    (let vec = h_csrs s (if tgt = S_MODE then STVEC else MTVEC) in
     if vec = 0 \<or> vec AND 3 \<noteq> 0 then None
     else Some (s\<lparr>h_pc := vec, h_lvl := tgt,
       h_csrs := (if tgt = S_MODE then (h_csrs s)(SEPC := h_pc s, SCAUSE := cause, STVAL := tval)
                  else (h_csrs s)(MEPC := h_pc s, MCAUSE := cause, MTVAL := tval)),
       h_mstatus := enter_status tgt (h_lvl s) (h_mstatus s), h_known := enter_known tgt (h_known s)\<rparr>))"

definition hart_except :: "u64 \<Rightarrow> u64 \<Rightarrow> hart \<Rightarrow> hart option" where
  "hart_except cause tval s =
    hart_trap (if h_lvl s \<noteq> M_MODE \<and> bit (h_csrs s MEDELEG) (unat cause) then S_MODE else M_MODE) cause tval s"

definition all_known :: "nat list \<Rightarrow> hart \<Rightarrow> bool" where
  "all_known ns s \<longleftrightarrow> (\<forall>n\<in>set ns. bit (h_known s) n)"

definition hart_mret :: "hart \<Rightarrow> hart option" where
  "hart_mret s =
    (let w = h_mstatus s; k = h_known s in
     if h_lvl s = M_MODE \<and> all_known [7, 11, 12] s \<and> (bit w 12 \<longrightarrow> bit w 11) \<and> \<not> bit w 17
     then Some (s\<lparr>h_pc := h_csrs s MEPC,
       h_lvl := (if bit w 12 then M_MODE else if bit w 11 then S_MODE else U_MODE),
       h_mstatus := put_bit 3 (bit w 7) (put_bit 7 True (put_bit 11 False (put_bit 12 False w))),
       h_known := put_bit 3 True (put_bit 7 False (put_bit 11 False (put_bit 12 False k)))\<rparr>)
     else None)"

definition hart_sret :: "hart \<Rightarrow> hart option" where
  "hart_sret s =
    (let w = h_mstatus s; k = h_known s in
     if h_lvl s \<noteq> U_MODE \<and> (h_lvl s = S_MODE \<longrightarrow> \<not> bit w 22) \<and> all_known [5, 8] s \<and> \<not> bit w 17
     then Some (s\<lparr>h_pc := h_csrs s SEPC, h_lvl := (if bit w 8 then S_MODE else U_MODE),
       h_mstatus := put_bit 1 (bit w 5) (put_bit 5 True (put_bit 8 False w)),
       h_known := put_bit 1 True (put_bit 5 False (put_bit 8 False k))\<rparr>)
     else None)"

text \<open>
  Interrupts.  The platform shows a line as the machine interrupt, or below machine level as the
  supervisor one when \<open>mideleg\<close> says so.  An enabled interrupt is taken when its level's enable bit
  is set, and not taken when that level is the current one and the bit is clear; below its level the
  architecture takes it in any case, and the code does not (outside).  More than one line at a time
  is outside too: their priorities differ.
\<close>

definition hart_target :: "intr_type_t \<Rightarrow> hart \<Rightarrow> u32" where
  "hart_target t s = (if h_lvl s \<noteq> M_MODE \<and> bit (h_csrs s MIDELEG) (intr_pos t S_MODE) then S_MODE else M_MODE)"

definition hart_pending :: "hart \<Rightarrow> intr_type_t list" where
  "hart_pending s =
    (if h_ext s (hart_target EXTERNAL_INTR_TYPE s) then [EXTERNAL_INTR_TYPE] else []) @
    (if h_timer s then [TIMER_INTR_TYPE] else []) @ (if h_soft s then [SOFTWARE_INTR_TYPE] else [])"

definition line_enabled :: "intr_type_t \<Rightarrow> hart \<Rightarrow> bool" where
  "line_enabled t s \<longleftrightarrow>
    (let tgt = hart_target t s in bit (h_csrs s (if tgt = S_MODE then SIE else MIE)) (intr_pos t tgt))"

definition enable_pos :: "u32 \<Rightarrow> nat" where
  "enable_pos lvl = (if lvl = S_MODE then 1 else 3)"

definition takes :: "intr_type_t \<Rightarrow> hart \<Rightarrow> bool" where
  "takes t s \<longleftrightarrow> (let n = enable_pos (hart_target t s) in
     hart_pending s = [t] \<and> line_enabled t s \<and> bit (h_known s) n \<and> bit (h_mstatus s) n)"

definition undisturbed :: "hart \<Rightarrow> bool" where
  "undisturbed s \<longleftrightarrow> (case hart_pending s of
      [] \<Rightarrow> True
    | [t] \<Rightarrow> (let n = enable_pos (hart_target t s) in
        \<not> line_enabled t s \<or>
        h_lvl s = hart_target t s \<and> bit (h_known s) n \<and> \<not> bit (h_mstatus s) n)
    | _ \<Rightarrow> False)"

section \<open>Instructions\<close>

text \<open>
  The accesses to CSRs in the fragment: the level must allow them; the registers of the trap
  handlers are read and written with values every implementation can hold; in \<open>mie\<close>, \<open>mstatus\<close> and
  their supervisor views fields are set and cleared, each through the view of its own level.
\<close>

definition csr_allowed :: "u32 \<Rightarrow> hart \<Rightarrow> bool" where
  "csr_allowed a s \<longleftrightarrow> take_bit 2 (drop_bit 8 a) \<le> h_lvl s \<and>
     (a = SATP \<and> h_lvl s = S_MODE \<longrightarrow> \<not> bit (h_mstatus s) 20)"

definition csr_readable :: "u32 \<Rightarrow> bool" where
  "csr_readable a \<longleftrightarrow> a \<in> {MTVEC, MSCRATCH, MEPC, MCAUSE, MTVAL, MEDELEG, MIDELEG,
     STVEC, SSCRATCH, SEPC, SCAUSE, STVAL, SATP}"

definition csr_holds :: "u32 \<Rightarrow> u64 \<Rightarrow> bool" where
  "csr_holds a v \<longleftrightarrow> a \<in> {MSCRATCH, MTVAL, SSCRATCH, STVAL} \<or> a \<in> {MTVEC, STVEC} \<and> v AND 3 = 0 \<or>
     a \<in> {MEPC, SEPC} \<and> \<not> bit v 0 \<or> a = MEDELEG \<and> v AND NOT 0xB3FF = 0 \<or>
     a = MIDELEG \<and> v AND NOT 0x222 = 0 \<or>
     a = SATP \<and> (v = 0 \<or> drop_bit 60 v = 8 \<and> take_bit 16 (drop_bit 44 v) = 0)"

definition hart_csr :: "u64 \<Rightarrow> csr_op \<Rightarrow> regno \<Rightarrow> u32 \<Rightarrow> regno \<Rightarrow> hart \<Rightarrow> hart outcome" where
  "hart_csr len x rd a rs1 s =
    (let src = csr_source (h_regs s) x rs1; old = h_csrs s a; v = csr_new x old src;
         within = (\<lambda>mask. rd = 0 \<and> x \<notin> {CSRRW, CSRRWI} \<and> src AND NOT mask = 0) in
     if \<not> csr_allowed a s then Outside
     else if csr_only_reads x rs1 \<and> csr_readable a then Value (hart_put len rd old s)
     else if csr_holds a v \<or> a = MIE \<and> within 0x888 \<or> a = SIE \<and> within (0x222 AND h_csrs s MIDELEG)
     then Value (hart_put len rd old (s\<lparr>h_csrs := (h_csrs s)(a := v)\<rparr>))
     else if a = MSTATUS \<and> within 0x1888 \<or> a = SSTATUS \<and> within 0xC0122 then
       (let w = csr_new x (h_mstatus s) src in
        if bit w 12 \<and> \<not> bit w 11 then Outside
        else Value (hart_next len (s\<lparr>h_mstatus := w, h_known := h_known s OR src\<rparr>)))
     else Outside)"

definition hart_core :: "hart \<Rightarrow> isa_state" where
  "hart_core s = \<lparr>i_regs = h_regs s, i_pc = h_pc s, i_mem = h_mem s, i_csrs = h_csrs s\<rparr>"

definition hart_exec :: "u64 \<Rightarrow> insn \<Rightarrow> hart \<Rightarrow> hart outcome" where
  "hart_exec len i s =
    (let r = h_regs s in
     case i of
      ILoad l rd rs1 imm \<Rightarrow>
        on_value (hart_access Load_access (load_bytes l) (r rs1 + scast imm) s) (\<lambda>a.
          Value (hart_put len rd (isa_load l (h_mem s) a) s))
    | IStore st rs2 rs1 imm \<Rightarrow>
        on_value (hart_access Store_access (store_bytes_of st) (r rs1 + scast imm) s) (\<lambda>a.
          Value (hart_next len (s\<lparr>h_mem := store_le (h_mem s) a (r rs2) (store_bytes_of st)\<rparr>)))
    | IAmo op aq rl rd rs1 rs2 \<Rightarrow>
        if r rs1 mod 8 = 0 \<and> amo_size op = 8 \<and> amo_params op \<noteq> PARAMS_LR_SC then
          on_value (hart_access Store_access 8 (r rs1) s) (\<lambda>a.
            let old = load_le (h_mem s) a 8 in
            Value (hart_put len rd old
              (s\<lparr>h_mem := store_le (h_mem s) a (amo_result (amo_params op) old (r rs2)) 8\<rparr>)))
        else Outside
    | ICsr x rd csr rs1 \<Rightarrow> hart_csr len x rd (ucast csr) rs1 s
    | _ \<Rightarrow> (case isa_exec len i (hart_core s) of
        None \<Rightarrow> Outside
      | Some c \<Rightarrow> Value (s\<lparr>h_regs := i_regs c, h_pc := i_pc c\<rparr>)))"

definition access_cause :: "insn \<Rightarrow> u64" where
  "access_cause i = (case i of ILoad l rd rs1 imm \<Rightarrow> 13 | _ \<Rightarrow> 15)"

section \<open>Steps\<close>

definition running :: "hart \<Rightarrow> u32 \<Rightarrow> bool" where
  "running s w \<longleftrightarrow> undisturbed s \<and> 0x1000 \<le> h_pc s \<and> hart_fetch s = Value w"

text \<open>The 32-bit instruction of a word, or the compressed one of its low half.\<close>

definition reads_as :: "u32 \<Rightarrow> u64 \<Rightarrow> expansion \<Rightarrow> bool" where
  "reads_as w len e \<longleftrightarrow> len = 4 \<and> (\<exists>i. e = Insn i \<and> w = encode i) \<or>
     len = 2 \<and> (\<exists>c. e = expand c \<and> ucast w = c_encode c \<and> c_legal c)"

text \<open>\<open>sfence.vma\<close> and \<open>wfi\<close>, where their level allows them, \<open>fence\<close> and \<open>fence.i\<close>.\<close>

definition hint_word :: "u32 \<Rightarrow> hart \<Rightarrow> bool" where
  "hint_word w s \<longleftrightarrow> w \<in> {0x0FF0000F, 0x0000100F} \<or>
     w = 0x12000073 \<and> h_lvl s \<noteq> U_MODE \<and> (h_lvl s = S_MODE \<longrightarrow> \<not> bit (h_mstatus s) 20) \<or>
     w = 0x10500073 \<and> h_lvl s \<noteq> U_MODE \<and> (h_lvl s = S_MODE \<longrightarrow> \<not> bit (h_mstatus s) 21)"

inductive hart_step :: "hart \<Rightarrow> hart \<Rightarrow> bool" where
  interrupt: "takes t s \<Longrightarrow> 0x1000 \<le> h_pc s \<Longrightarrow>
    hart_trap (hart_target t s) (0x8000000000000000 + of_nat (intr_pos t (hart_target t s))) 0 s = Some s' \<Longrightarrow>
    hart_step s s'"
| fetch_fault: "undisturbed s \<Longrightarrow> 0x1000 \<le> h_pc s \<Longrightarrow> hart_fetch s = Page_fault va \<Longrightarrow>
    hart_except 12 va s = Some s' \<Longrightarrow> hart_step s s'"
| insn: "running s w \<Longrightarrow> reads_as w len (Insn i) \<Longrightarrow> hart_exec len i s = Value s' \<Longrightarrow> hart_step s s'"
| access_fault: "running s w \<Longrightarrow> reads_as w len (Insn i) \<Longrightarrow> hart_exec len i s = Page_fault va \<Longrightarrow>
    hart_except (access_cause i) va s = Some s' \<Longrightarrow> hart_step s s'"
| nop: "running s w \<Longrightarrow> reads_as w len Nop \<Longrightarrow> hart_step s (hart_next len s)"
| hint: "running s w \<Longrightarrow> hint_word w s \<Longrightarrow> hart_step s (hart_next 4 s)"
| ecall: "running s 0x73 \<Longrightarrow> hart_except (8 + ucast (h_lvl s)) 0 s = Some s' \<Longrightarrow> hart_step s s'"
| mret: "running s 0x30200073 \<Longrightarrow> hart_mret s = Some s' \<Longrightarrow> hart_step s s'"
| sret: "running s 0x10200073 \<Longrightarrow> hart_sret s = Some s' \<Longrightarrow> hart_step s s'"

inductive_cases hart_stepE: "hart_step s s'"

text \<open>
  The devices change on their own, and with them the lines; everything else happens in steps.  An
  event \<open>Devices\<close> carries the new state of the interrupt controllers and the serial port, and the
  number of host readings so far.
\<close>

datatype event = Pass | Devices clint_t plic_t uart_t nat

definition plic_external :: "plic_t \<Rightarrow> u32 \<Rightarrow> bool" where
  "plic_external p lvl \<longleftrightarrow>
    (case plic_scan p (level_enable lvl p) (level_threshold lvl p) [0..<5] of
       Inr (Some irq) \<Rightarrow> irq \<noteq> 0 | _ \<Rightarrow> False)"

definition plic_sound :: "plic_t \<Rightarrow> bool" where
  "plic_sound p \<longleftrightarrow> plic_inv p \<and> plic_pending p ! 4 = 0"

definition set_lines :: "clint_t \<Rightarrow> plic_t \<Rightarrow> hart \<Rightarrow> hart" where
  "set_lines c p s = s\<lparr>h_timer := timer_intr c, h_soft := software_intr c, h_ext := plic_external p\<rparr>"

definition hart_event :: "event \<Rightarrow> hart \<Rightarrow> hart \<Rightarrow> bool" where
  "hart_event e s s' \<longleftrightarrow> (case e of
     Pass \<Rightarrow> hart_step s s'
   | Devices c p u k \<Rightarrow> plic_sound p \<and> s' = set_lines c p s)"

end
