(* ===== verification/HartRel.thy ===== *)
theory HartRel
  imports Hart
begin

text \<open>
  The machine related to the state of the reference interpreter of theory \<open>Hart\<close>: the relation, and
  that translation, fetching, traps and interrupts of the code respect it.
\<close>

section \<open>The relation\<close>

definition hart_ready :: "machine \<Rightarrow> bool" where
  "hart_ready m \<longleftrightarrow> m_reg m 0 = 0 \<and> m_as m = root_as \<and> ram_size (m_ram m) = 0x80000000 \<and>
     cur_priv m \<in> {U_MODE, S_MODE, M_MODE} \<and> plic_sound (m_plic m)"

definition same_core_state :: "machine \<Rightarrow> hart \<Rightarrow> bool" where
  "same_core_state m s \<longleftrightarrow> h_regs s = (\<lambda>r. m_reg m (ucast r)) \<and> h_pc s = m_pc m \<and> h_mem s = bus_bytes m \<and>
     h_lvl s = cur_priv m"

text \<open>The status registers are compared bit by bit; nothing is read from the pending registers.\<close>

definition same_csrs :: "machine \<Rightarrow> hart \<Rightarrow> bool" where
  "same_csrs m s \<longleftrightarrow> (\<forall>a. a \<notin> {MSTATUS, SSTATUS, MIP, SIP} \<longrightarrow> h_csrs s a = csrs m a)"

definition same_status :: "machine \<Rightarrow> hart \<Rightarrow> bool" where
  "same_status m s \<longleftrightarrow>
     (\<forall>n\<in>{1, 5, 8}. bit (h_known s) n \<longrightarrow> bit (h_mstatus s) n = bit (csrs m SSTATUS) n) \<and>
     (\<forall>n\<in>{3, 7, 11, 12}. bit (h_known s) n \<longrightarrow> bit (h_mstatus s) n = bit (csrs m MSTATUS) n)"

definition same_lines :: "machine \<Rightarrow> hart \<Rightarrow> bool" where
  "same_lines m s \<longleftrightarrow> h_timer s = timer_intr (m_clint m) \<and> h_soft s = software_intr (m_clint m) \<and>
     h_ext s = plic_external (m_plic m)"

definition hart_rel :: "machine \<Rightarrow> hart \<Rightarrow> bool" where
  "hart_rel m s \<longleftrightarrow> hart_ready m \<and> same_core_state m s \<and> same_csrs m s \<and> same_status m s \<and> same_lines m s"

lemmas hart_rel_defs = hart_rel_def hart_ready_def same_core_state_def same_csrs_def same_status_def same_lines_def

lemma hart_rel_core:
  assumes "hart_rel m s"
  shows "h_regs s = (\<lambda>r. m_reg m (ucast r))" "h_pc s = m_pc m" "h_mem s = bus_bytes m" "h_lvl s = cur_priv m"
    "m_reg m 0 = 0"
  using assms by (simp_all add: hart_rel_defs)

lemma hart_rel_csr: "hart_rel m s \<Longrightarrow> a \<notin> {MSTATUS, SSTATUS, MIP, SIP} \<Longrightarrow> h_csrs s a = csrs m a"
  by (simp add: hart_rel_defs)

text \<open>Moving the program counter and writing a register.\<close>

lemma hart_rel_next:
  "hart_rel m s \<Longrightarrow> hart_rel (m\<lparr>m_pc := m_pc m + len\<rparr>) (hart_next len s)"
  by (auto simp: hart_rel_defs hart_next_def bus_bytes_def)

lemma hart_rel_put:
  "hart_rel m s \<Longrightarrow>
   hart_rel (m\<lparr>m_reg := put_reg rd v (m_reg m), m_pc := m_pc m + len\<rparr>) (hart_put len rd v s)"
  by (auto simp: hart_rel_defs hart_next_def hart_put_def bus_bytes_def put_reg_view)

section \<open>Translation\<close>

lemma hart_bus_ok: "hart_ready m \<Longrightarrow> access_size sz \<Longrightarrow> in_ram a (unat sz) \<Longrightarrow> bus_ok m a sz"
  by (simp add: hart_ready_def bus_ok_def in_ram_def)

lemma bus_read_8: "hart_ready m \<Longrightarrow> in_ram a 8 \<Longrightarrow> bus_read m a 8 = Inr (load_le (bus_bytes m) a 8, m)"
  using bus_read_ok [OF hart_bus_ok [of m 8 a]] by (simp add: access_size_def)

definition answer :: "u64 outcome \<Rightarrow> u64 option" where
  "answer r = (case r of Value a \<Rightarrow> Some a | _ \<Rightarrow> None)"

lemma answer_simps [simp]: "answer (Value a) = Some a" "answer (Page_fault v) = None"
  by (simp_all add: answer_def)

lemma walk_refines:
  assumes "hart_ready m"
  shows "hart_walk allowed (bus_bytes m) i table va = r \<Longrightarrow> r \<noteq> Outside \<Longrightarrow>
    sv39_walk i table va m = Inr (answer r, m) \<and> (\<forall>v. r = Page_fault v \<longrightarrow> v = va)"
proof (induction i arbitrary: table)
  case 0
  then show ?case
    using bus_read_8 [OF assms, of "table + vpn va 0 * 8"]
    by (auto simp: hart_walk.simps [of _ _ 0] sv39_walk.simps [of 0] Let_def split: if_splits)
next
  case (Suc i)
  show ?case
    using Suc.prems bus_read_8 [OF assms, of "table + vpn va (Suc i) * 8"]
    by (auto simp: hart_walk.simps [of _ _ "Suc i"] sv39_walk.simps [of "Suc i"] Let_def Suc.IH
        simp del: mult_Suc_right take_bit_Suc split: if_splits)
qed

lemma translate_refines:
  assumes "hart_rel m s" "hart_translate acc n va s = r" "r \<noteq> Outside"
  shows "mmu m va = Inr (answer r, m) \<and> (\<forall>v. r = Page_fault v \<longrightarrow> v = va)"
proof -
  have "hart_ready m" "h_csrs s SATP = csrs m SATP"
    using assms(1) hart_rel_csr [OF assms(1), of SATP] by (simp_all add: hart_rel_def)
  then show ?thesis
    using assms(2,3) walk_refines
    by (auto simp: hart_translate_def Let_def mmu_sv39 sv39_def hart_rel_core [OF assms(1)] split: if_splits)
qed

lemma on_value_Value: "on_value r f = Value y \<longleftrightarrow> (\<exists>x. r = Value x \<and> f x = Value y)"
  by (cases r) simp_all

lemma on_value_Page_fault:
  "on_value r f = Page_fault v \<longleftrightarrow> r = Page_fault v \<or> (\<exists>x. r = Value x \<and> f x = Page_fault v)"
  by (cases r) simp_all

lemmas on_value_iffs = on_value_Value on_value_Page_fault

lemma access_value:
  assumes "hart_rel m s" "hart_access acc n va s = Value a"
  shows "mmu m va = Inr (Some a, m) \<and> in_ram a n"
  using assms(2) by (auto simp: hart_access_def on_value_iffs split: if_splits dest: translate_refines [OF assms(1)])

lemma access_fault:
  assumes "hart_rel m s" "hart_access acc n va s = Page_fault v"
  shows "v = va \<and> mmu m va = Inr (None, m)"
  using assms(2) by (auto simp: hart_access_def on_value_iffs split: if_splits dest: translate_refines [OF assms(1)])

lemma read_value:
  assumes "hart_rel m s" "hart_access acc (unat sz) va s = Value a" "access_size sz"
  shows "as_read m va sz = Inr (load_le (h_mem s) a (unat sz), False, m)"
proof -
  have "hart_ready m"
    using assms(1) by (simp add: hart_rel_def)
  with access_value [OF assms(1,2)] assms(3) show ?thesis
    by (simp add: as_read_def bus_read_ok hart_bus_ok hart_rel_core [OF assms(1)])
qed

lemma read_fault:
  assumes "hart_rel m s" "hart_access acc n va s = Page_fault v"
  shows "v = va \<and> as_read m va sz = Inr (0, True, m)"
  using access_fault [OF assms] by (simp add: as_read_def)

lemma write_value:
  assumes "hart_rel m s" "hart_access acc (unat sz) va s = Value a" "access_size sz"
  obtains r m1 where "as_write (Suc n) m va sz v params = Inr (r, False, m1)"
    "r = amo_old (m_ram m) (a - RAM_ADDRESS_SPACE_START) sz params"
    "hart_rel m1 (s\<lparr>h_mem := store_le (h_mem s) a (amo_new sz r v params) (unat sz)\<rparr>)"
    "m_pc m1 = m_pc m" "m_reg m1 = m_reg m"
proof -
  have ready: "hart_ready m"
    using assms(1) by (simp add: hart_rel_def)
  note w = bus_write_ok [OF hart_bus_ok [OF ready assms(3) conjunct2 [OF access_value [OF assms(1,2)]]], of n params v]
  show thesis
  proof (rule that)
    show "as_write (Suc n) m va sz v params = Inr (amo_old (m_ram m) (a - RAM_ADDRESS_SPACE_START) sz params, False,
      m\<lparr>m_ram := (m_ram m)\<lparr>ram_mem := store_le (ram_mem (m_ram m)) (a - RAM_ADDRESS_SPACE_START)
        (amo_new sz (amo_old (m_ram m) (a - RAM_ADDRESS_SPACE_START) sz params) v params) (unat sz)\<rparr>\<rparr>)"
      using access_value [OF assms(1,2)] w by (simp add: as_write_def del: bus_write.simps)
  qed (use assms(1) in \<open>auto simp: hart_rel_defs bus_bytes_def store_le_shift\<close>)
qed

section \<open>Fetching\<close>

lemma mod_page: "(k + 2) mod 2 ^ 12 = 0 \<longleftrightarrow> k mod 4096 = 4094" for k :: nat
proof -
  define r where "r = k mod 4096"
  then have "r < 4096"
    by simp
  then have "r < 4094 \<or> r = 4094 \<or> r = 4095"
    by linarith
  moreover have "(k + 2) mod 4096 = (r + 2) mod 4096"
    unfolding r_def by (rule mod_add_left_eq [symmetric])
  ultimately show ?thesis
    by (auto simp: r_def [symmetric] dest: dvd_imp_le)
qed

lemma half_page: "(pc + 2) AND (PAGE_SIZE - 1) = 0 \<longleftrightarrow> unat pc mod 4096 = 4094" for pc :: u64
proof -
  have "PAGE_SIZE - 1 = mask 12"
    by (simp add: PAGE_SIZE_def PAGE_SHIFT_def mask_eq_exp_minus_1)
  then have "(pc + 2) AND (PAGE_SIZE - 1) = take_bit 12 (pc + 2)"
    by (simp add: take_bit_eq_mask)
  moreover have "unat (take_bit 12 (pc + 2)) = unat (pc + 2) mod 2 ^ 12"
    by (simp only: unsigned_take_bit_eq) (rule take_bit_eq_mod)
  moreover have "unat (pc + 2) mod 2 ^ 12 = (unat pc + 2) mod 2 ^ 12"
  proof -
    have "unat (pc + 2) = (unat pc + 2) mod 2 ^ 64"
      by (simp add: unat_word_ariths)
    moreover have "(2::nat) ^ 12 dvd 2 ^ 64"
      by (rule le_imp_power_dvd) simp
    ultimately show ?thesis
      by (simp only: mod_mod_cancel)
  qed
  ultimately show ?thesis
    by (simp only: mod_page flip: unsigned_eq_0_iff [of "take_bit 12 (pc + 2)", where ?'a = nat])
qed

lemma low_half_loads:
  "push_bit 16 (ucast (load_le mem b 2)) OR ucast (load_le mem a 2) =
   low_half (ucast (load_le mem b 2)) (ucast (load_le mem a 2))"
proof (rule bit_word_eqI)
  fix n
  assume "n < LENGTH(32)"
  moreover have "\<not> bit (load_le mem a 2) n" if "16 \<le> n" for n
    using that by (simp add: bit_load_le)
  ultimately show "bit (push_bit 16 (ucast (load_le mem b 2)) OR ucast (load_le mem a 2) :: u32) n =
      bit (low_half (ucast (load_le mem b 2)) (ucast (load_le mem a 2))) n"
    by (auto simp: low_half_def bit_simps not_less)
qed

lemma read_small:
  assumes "hart_rel m s"
  shows "hart_access acc 2 va s = Value a \<Longrightarrow> as_read m va 2 = Inr (load_le (bus_bytes m) a 2, False, m)"
    and "hart_access acc 4 va s = Value a \<Longrightarrow> as_read m va 4 = Inr (load_le (bus_bytes m) a 4, False, m)"
  using read_value [OF assms, of acc 2 va a] read_value [OF assms, of acc 4 va a]
  by (simp_all add: access_size_def hart_rel_core [OF assms])

lemma read_faults:
  assumes "hart_rel m s"
  shows "hart_access acc n va s = Page_fault v \<Longrightarrow> as_read m va sz = Inr (0, True, m)"
    and "hart_access acc n va s = Page_fault v \<Longrightarrow> v = va"
  using read_fault [OF assms] by blast+

lemma fetch_refines:
  assumes "hart_rel m s"
  shows "(hart_fetch s = Value w \<longrightarrow> fetch m = Inr (0, w, m)) \<and>
    (hart_fetch s = Page_fault v \<longrightarrow>
      (\<exists>i. fetch m = and_then (raise_except (m_pc m) CAUSE_INST_PAGE_FAULT v m) (\<lambda>(r, m). Inr (r, i, m))))"
  unfolding hart_fetch_def fetch_def Let_def half_page hart_rel_core [OF assms]
  supply faults = read_faults(1) [OF assms, of _ 2 _ _ 2] read_faults(1) [OF assms, of _ 4 _ _ 4]
  by (cases "unat (m_pc m) mod 4096 = 4094"; cases "hart_access Fetch_access 2 (m_pc m) s";
      cases "hart_access Fetch_access 2 (m_pc m + 2) s"; cases "hart_access Fetch_access 4 (m_pc m) s")
    (auto simp: read_small [OF assms] low_half_loads faults dest: read_faults(2) [OF assms])

section \<open>Traps\<close>

lemma bit_put_bit [simp]: "k < 64 \<Longrightarrow> bit (put_bit k b w) n \<longleftrightarrow> (if n = k then b else bit w n)"
  by (auto simp: put_bit_def bit_simps)

lemma bit_enter_status:
  "bit (enter_status S_MODE lvl w) n \<longleftrightarrow>
     (if n = 1 then False else if n = 5 then bit w 1 else if n = 8 then lvl \<noteq> U_MODE else bit w n)"
  "bit (enter_status M_MODE lvl w) n \<longleftrightarrow>
     (if n = 3 then False else if n = 7 then bit w 3 else if n = 11 then bit lvl 0
      else if n = 12 then bit lvl 1 else bit w n)"
  by (simp_all add: enter_status_def)

lemma bit_enter_known:
  "bit (enter_known S_MODE k) n \<longleftrightarrow>
     (if n = 1 then True else if n = 5 then bit k 1 else if n = 8 then True else bit k n)"
  "bit (enter_known M_MODE k) n \<longleftrightarrow>
     (if n = 3 then True else if n = 7 then bit k 3 else if n = 11 then True
      else if n = 12 then True else bit k n)"
  by (simp_all add: enter_known_def)

lemma hart_relI:
  "hart_ready m \<Longrightarrow> same_core_state m s \<Longrightarrow> same_csrs m s \<Longrightarrow> same_status m s \<Longrightarrow> same_lines m s \<Longrightarrow> hart_rel m s"
  by (simp add: hart_rel_def)

lemma hart_relD:
  assumes "hart_rel m s"
  shows "hart_ready m" "same_core_state m s" "same_csrs m s" "same_status m s" "same_lines m s"
  using assms by (simp_all add: hart_rel_def)

lemma status_entered:
  assumes "same_status m s" "h_lvl s = cur_priv m"
  shows "h_known s' = enter_known S_MODE (h_known s) \<Longrightarrow>
      h_mstatus s' = enter_status S_MODE (h_lvl s) (h_mstatus s) \<Longrightarrow>
      csrs m' SSTATUS = sstatus_enter (cur_priv m) (csrs m SSTATUS) \<Longrightarrow> csrs m' MSTATUS = csrs m MSTATUS \<Longrightarrow>
      same_status m' s'"
    and "h_known s' = enter_known M_MODE (h_known s) \<Longrightarrow>
      h_mstatus s' = enter_status M_MODE (h_lvl s) (h_mstatus s) \<Longrightarrow> cur_priv m < 4 \<Longrightarrow>
      csrs m' MSTATUS = mstatus_enter (cur_priv m) (csrs m MSTATUS) \<Longrightarrow> csrs m' SSTATUS = csrs m SSTATUS \<Longrightarrow>
      same_status m' s'"
  using assms by (simp_all add: same_status_def bit_enter_status bit_enter_known bit_sstatus_enter bit_mstatus_enter)

text \<open>A trap goes to its vector, which the main loop tells from no trap because it is not 0.\<close>

lemma trap_refines:
  assumes "hart_rel m s" "hart_trap tgt cause tval s = Some s'" "tgt = S_MODE \<or> tgt = M_MODE"
  shows "\<exists>m'. trap_enter (m_pc m) tgt cause tval m = Inr (h_pc s', m') \<and> h_pc s' \<noteq> 0 \<and>
    hart_rel (m'\<lparr>m_pc := h_pc s'\<rparr>) s'"
proof -
  note parts = hart_relD [OF assms(1)]
  have lvl: "h_lvl s = cur_priv m" "cur_priv m < 4"
    using parts(1,2) by (auto simp: hart_ready_def same_core_state_def)
  from assms(3) show ?thesis
  proof
    assume tgt: "tgt = S_MODE"
    let ?m' = "m\<lparr>cur_priv := S_MODE, csrs := (csrs m)(SCAUSE := cause, STVAL := tval,
      SSTATUS := sstatus_enter (cur_priv m) (csrs m SSTATUS), SEPC := m_pc m), m_pc := h_pc s'\<rparr>"
    have s': "h_pc s' = csrs m STVEC" "h_pc s' \<noteq> 0" "h_lvl s' = S_MODE" "h_regs s' = h_regs s" "h_mem s' = h_mem s"
      "h_csrs s' = (h_csrs s)(SEPC := m_pc m, SCAUSE := cause, STVAL := tval)"
      "h_mstatus s' = enter_status S_MODE (h_lvl s) (h_mstatus s)" "h_known s' = enter_known S_MODE (h_known s)"
      "h_timer s' = h_timer s" "h_soft s' = h_soft s" "h_ext s' = h_ext s"
      using assms(2) tgt hart_rel_core(2) [OF assms(1)] hart_rel_csr [OF assms(1), of STVEC]
      by (auto simp: hart_trap_def Let_def split: if_splits)
    have "hart_rel ?m' s'"
    proof (rule hart_relI)
      show "same_status ?m' s'"
        by (rule status_entered(1) [OF parts(4) lvl(1) s'(8,7)]) simp_all
    qed (use parts s' in \<open>simp_all add: hart_ready_def same_core_state_def same_csrs_def same_lines_def bus_bytes_def\<close>)
    then show ?thesis
      using s'(1,2) tgt by (simp add: trap_enter_S)
  next
    assume tgt: "tgt = M_MODE"
    let ?m' = "m\<lparr>cur_priv := M_MODE, csrs := (csrs m)(MCAUSE := cause, MTVAL := tval,
      MSTATUS := mstatus_enter (cur_priv m) (csrs m MSTATUS), MEPC := m_pc m), m_pc := h_pc s'\<rparr>"
    have s': "h_pc s' = csrs m MTVEC" "h_pc s' \<noteq> 0" "h_lvl s' = M_MODE" "h_regs s' = h_regs s" "h_mem s' = h_mem s"
      "h_csrs s' = (h_csrs s)(MEPC := m_pc m, MCAUSE := cause, MTVAL := tval)"
      "h_mstatus s' = enter_status M_MODE (h_lvl s) (h_mstatus s)" "h_known s' = enter_known M_MODE (h_known s)"
      "h_timer s' = h_timer s" "h_soft s' = h_soft s" "h_ext s' = h_ext s"
      using assms(2) tgt hart_rel_core(2) [OF assms(1)] hart_rel_csr [OF assms(1), of MTVEC]
      by (auto simp: hart_trap_def Let_def split: if_splits)
    have "hart_rel ?m' s'"
    proof (rule hart_relI)
      show "same_status ?m' s'"
        by (rule status_entered(2) [OF parts(4) lvl(1) s'(8,7) lvl(2)]) simp_all
    qed (use parts s' in \<open>simp_all add: hart_ready_def same_core_state_def same_csrs_def same_lines_def bus_bytes_def\<close>)
    then show ?thesis
      using s'(1,2) tgt by (simp add: trap_enter_M)
  qed
qed

lemma except_refines:
  assumes "hart_rel m s" "hart_except cause tval s = Some s'" "cause < 32"
  shows "\<exists>m'. raise_except (m_pc m) cause tval m = Inr (h_pc s', m') \<and> h_pc s' \<noteq> 0 \<and>
    hart_rel (m'\<lparr>m_pc := h_pc s'\<rparr>) s'"
proof -
  have "h_csrs s MEDELEG = csrs m MEDELEG"
    using hart_rel_csr [OF assms(1)] by simp
  then show ?thesis
    using trap_refines [OF assms(1) assms(2) [unfolded hart_except_def]]
    by (simp add: raise_except_target [OF assms(3)] priv_def hart_rel_core [OF assms(1)])
qed

section \<open>Interrupts\<close>

text \<open>The pending registers, and the claim registers of the controller, are not compared.\<close>

lemma hart_rel_pending:
  assumes "hart_rel m s" "a \<in> {SIP, MIP}"
  shows "hart_rel (m\<lparr>csrs := (csrs m)(a := v)\<rparr>) s"
proof -
  have a: "a \<noteq> MSTATUS" "a \<noteq> SSTATUS"
    using assms(2) by auto
  note parts = hart_relD [OF assms(1)]
  show ?thesis
  proof (rule hart_relI)
    show "same_csrs (m\<lparr>csrs := (csrs m)(a := v)\<rparr>) s"
      unfolding same_csrs_def
    proof (intro allI impI)
      fix b
      assume b: "b \<notin> {MSTATUS, SSTATUS, MIP, SIP}"
      then have "b \<noteq> a"
        using assms(2) by auto
      then show "h_csrs s b = csrs (m\<lparr>csrs := (csrs m)(a := v)\<rparr>) b"
        using hart_rel_csr [OF assms(1) b] by simp
    qed
  qed (use parts a in \<open>simp_all add: hart_ready_def same_core_state_def same_status_def same_lines_def bus_bytes_def\<close>)
qed

lemma plic_scan_cong:
  assumes "plic_pending q = plic_pending p" "plic_priority q = plic_priority p"
  shows "plic_scan q xie xpt js = plic_scan p xie xpt js"
  by (induction js) (simp_all only: plic_scan.simps assms)

lemma plic_claim_lines:
  "plic_external (p\<lparr>plic_scc := c\<rparr>) = plic_external p" "plic_external (p\<lparr>plic_mcc := c\<rparr>) = plic_external p"
  using plic_scan_cong [of "p\<lparr>plic_scc := c\<rparr>" p] plic_scan_cong [of "p\<lparr>plic_mcc := c\<rparr>" p]
  by (simp_all add: plic_external_def level_enable_def level_threshold_def fun_eq_iff
      del: plic_scan.simps upt_rec_numeral)

lemma hart_rel_claim:
  assumes "hart_rel m s" "plic_interrupt (m_plic m) m' = Inr (irq, p, s1)"
  shows "hart_rel (m\<lparr>m_plic := p\<rparr>) s"
proof -
  have inv: "plic_inv (m_plic m)"
    using assms(1) by (simp add: hart_rel_defs plic_sound_def)
  have p: "plic_inv p" "plic_external p = plic_external (m_plic m)" "plic_pending p = plic_pending (m_plic m)"
    using plic_interrupt_keeps [OF inv assms(2)]
    by (cases rule: plic_interrupt_shape [OF assms(2)]; simp add: plic_claim_lines)+
  show ?thesis
    by (rule hart_relI; insert hart_relD [OF assms(1)] p)
      (simp_all add: hart_ready_def same_core_state_def same_csrs_def same_status_def same_lines_def bus_bytes_def
        plic_sound_def)
qed

text \<open>The external line of a level is what \<open>plic_interrupt\<close> reports there.\<close>

lemma plic_reports:
  assumes "hart_rel m s"
  obtains irq p where "plic_interrupt (m_plic m) m = Inr (irq, p, m)" "hart_rel (m\<lparr>m_plic := p\<rparr>) s"
    "(irq \<noteq> 0) = h_ext s (hart_target EXTERNAL_INTR_TYPE s)"
proof -
  have inv: "plic_inv (m_plic m)" "plic_pending (m_plic m) ! 4 = 0"
    using assms by (simp_all add: hart_rel_defs plic_sound_def)
  obtain irq p where run: "plic_interrupt (m_plic m) m = Inr (irq, p, m)"
    using plic_interrupt_total [OF inv] by metis
  have lvl: "hart_target EXTERNAL_INTR_TYPE s = external_level m"
    using hart_rel_csr [OF assms, of MIDELEG] hart_rel_core(4) [OF assms]
    by (simp add: hart_target_def external_level_def priv_def intr_pos_def)
  define scan where "scan = plic_scan (m_plic m) (level_enable (external_level m) (m_plic m))
    (level_threshold (external_level m) (m_plic m)) [0..<5]"
  have "and_then scan (\<lambda>found. case found of None \<Rightarrow> Inr (0, m_plic m, m)
      | Some i \<Rightarrow> Inr (i, if external_level m = S_MODE then (m_plic m)\<lparr>plic_scc := i\<rparr>
          else (m_plic m)\<lparr>plic_mcc := i\<rparr>, m)) = Inr (irq, p, m)"
    using run by (simp only: plic_interrupt_def external_next_priv and_then_Inr prod.case Let_def level_enable_def
        level_threshold_def scan_def)
  then have "(irq \<noteq> 0) = plic_external (m_plic m) (external_level m)"
    unfolding plic_external_def scan_def [symmetric] by (cases scan) (auto split: option.splits)
  then have "(irq \<noteq> 0) = h_ext s (hart_target EXTERNAL_INTR_TYPE s)"
    using assms by (simp add: hart_rel_defs lvl)
  with that [OF run hart_rel_claim [OF assms run]] show thesis
    by blast
qed

lemma pending_line:
  assumes "hart_rel m s" "(irq \<noteq> 0) = h_ext s (hart_target EXTERNAL_INTR_TYPE s)"
  defines "t \<equiv> (if irq \<noteq> 0 then EXTERNAL_INTR_TYPE else clint_interrupt (m_clint m))"
  shows "hart_pending s = [] \<Longrightarrow> t = INTR_TYPE_NONE"
    and "hart_pending s = [u] \<Longrightarrow> t = u \<and> u \<noteq> INTR_TYPE_NONE"
  using hart_relD(5) [OF assms(1)] assms(2)
  by (auto simp: hart_pending_def same_lines_def t_def clint_interrupt_def split: if_splits)

lemma target_line:
  assumes "hart_rel m s"
  shows "intr_target t m = hart_target t s" "hart_target t s = S_MODE \<or> hart_target t s = M_MODE"
  using hart_rel_csr [OF assms, of MIDELEG] hart_rel_core(4) [OF assms]
  by (simp_all add: intr_target_def hart_target_def priv_def)

lemma line_on:
  assumes "hart_rel m s"
  shows "\<not> line_enabled t s \<Longrightarrow> \<not> intr_on t (hart_target t s) m"
    and "bit (h_known s) (enable_pos (hart_target t s)) \<Longrightarrow>
      intr_on t (hart_target t s) m \<longleftrightarrow> line_enabled t s \<and> bit (h_mstatus s) (enable_pos (hart_target t s))"
proof -
  have csr: "h_csrs s SIE = csrs m SIE" "h_csrs s MIE = csrs m MIE"
    using hart_rel_csr [OF assms] by simp_all
  have status: "bit (h_known s) 1 \<Longrightarrow> bit (csrs m SSTATUS) 1 = bit (h_mstatus s) 1"
    "bit (h_known s) 3 \<Longrightarrow> bit (csrs m MSTATUS) 3 = bit (h_mstatus s) 3"
    using hart_relD(4) [OF assms] by (simp_all add: same_status_def)
  note target = target_line(2) [OF assms, of t]
  show "\<not> line_enabled t s \<Longrightarrow> \<not> intr_on t (hart_target t s) m"
    using target by (elim disjE) (simp_all add: intr_on_def line_enabled_def Let_def csr)
  show "bit (h_known s) (enable_pos (hart_target t s)) \<Longrightarrow>
      intr_on t (hart_target t s) m \<longleftrightarrow> line_enabled t s \<and> bit (h_mstatus s) (enable_pos (hart_target t s))"
    using target status by (elim disjE) (auto simp: intr_on_def line_enabled_def enable_pos_def Let_def csr)
qed

lemma interrupt_quiet:
  assumes "hart_rel m s" "undisturbed s"
  obtains m1 where "interrupt_step m = Inr (0, m1)" "hart_rel m1 s"
proof -
  obtain irq p where p: "plic_interrupt (m_plic m) m = Inr (irq, p, m)" "hart_rel (m\<lparr>m_plic := p\<rparr>) s"
    "(irq \<noteq> 0) = h_ext s (hart_target EXTERNAL_INTR_TYPE s)"
    using plic_reports [OF assms(1)] by blast
  note eqs = handle_interrupt_eq [OF p(1) refl, where c = "m_clint m" and pc = "m_pc m"]
  note line = pending_line [OF assms(1) p(3)]
  have "handle_interrupt (m_pc m) (m_plic m) (m_clint m) m = Inr (0, p, m)"
  proof (cases "hart_pending s")
    case Nil
    with line(1) show ?thesis
      by (intro eqs(1)) simp
  next
    case (Cons t ts)
    then have t: "hart_pending s = [t]"
      using assms(2) by (cases ts) (simp_all add: undisturbed_def)
    then have "\<not> intr_on t (hart_target t s) m"
      using assms(2) line_on [OF assms(1), of t] by (auto simp: undisturbed_def Let_def)
    with line(2) [OF t] target_line(1) [OF assms(1)] show ?thesis
      by (intro eqs(2)) auto
  qed
  with p(2) that show thesis
    by (simp add: interrupt_step_def)
qed

lemma interrupt_taken:
  assumes "hart_rel m s" "takes t s"
    and "hart_trap (hart_target t s) (BIT_CAUSE_INTR + of_nat (intr_pos t (hart_target t s))) 0 s = Some s'"
  obtains m1 where "interrupt_step m = Inr (h_pc s', m1)" "h_pc s' \<noteq> 0" "hart_rel (m1\<lparr>m_pc := h_pc s'\<rparr>) s'"
proof -
  obtain irq p where p: "plic_interrupt (m_plic m) m = Inr (irq, p, m)" "hart_rel (m\<lparr>m_plic := p\<rparr>) s"
    "(irq \<noteq> 0) = h_ext s (hart_target EXTERNAL_INTR_TYPE s)"
    using plic_reports [OF assms(1)] by blast
  have on: "hart_pending s = [t]" "intr_on t (hart_target t s) m"
    using assms(2) line_on [OF assms(1), of t] by (simp_all add: takes_def Let_def)
  note line = pending_line(2) [OF assms(1) p(3) on(1)]
  let ?x = "if hart_target t s = S_MODE then SIP else MIP"
  let ?cause = "BIT_CAUSE_INTR + of_nat (intr_pos t (hart_target t s)) :: u64"
  obtain v where v: "handle_interrupt (m_pc m) (m_plic m) (m_clint m) m =
      and_then (trap_enter (m_pc m) (hart_target t s) ?cause 0 (m\<lparr>csrs := (csrs m)(?x := v)\<rparr>)) (\<lambda>(r, s). Inr (r, p, s))"
    using handle_interrupt_eq(3) [OF p(1) refl, where c = "m_clint m" and pc = "m_pc m"] line on(2)
      target_line(1) [OF assms(1), of t] by auto
  let ?m1 = "m\<lparr>csrs := (csrs m)(?x := v)\<rparr>"
  have "hart_rel ?m1 s"
    using hart_rel_pending [OF assms(1), of ?x v] by auto
  from trap_refines [OF this assms(3) target_line(2) [OF assms(1)]] obtain m2 where
    m2: "trap_enter (m_pc m) (hart_target t s) ?cause 0 ?m1 = Inr (h_pc s', m2)" "h_pc s' \<noteq> 0"
      "hart_rel (m2\<lparr>m_pc := h_pc s'\<rparr>) s'"
    by auto
  have "m2 = ?m1\<lparr>cur_priv := cur_priv m2, csrs := csrs m2\<rparr>"
    using trap_enter_change [OF m2(1)] unfolding trap_change_def by (rule conjunct1)
  then have "m_plic m2 = m_plic m"
    by (rule ssubst) simp
  then have "hart_rel (m2\<lparr>m_pc := h_pc s'\<rparr>\<lparr>m_plic := p\<rparr>) s'"
    using hart_rel_claim [OF m2(3), of m irq p m] p(1) by simp
  moreover have "m2\<lparr>m_pc := h_pc s'\<rparr>\<lparr>m_plic := p\<rparr> = m2\<lparr>m_plic := p\<rparr>\<lparr>m_pc := h_pc s'\<rparr>"
    by simp
  ultimately have "hart_rel (m2\<lparr>m_plic := p\<rparr>\<lparr>m_pc := h_pc s'\<rparr>) s'"
    by (simp only:)
  with m2 v that [of "m2\<lparr>m_plic := p\<rparr>"] show thesis
    by (simp add: interrupt_step_def)
qed

end
