(* ===== verification/Privilege.thy ===== *)
theory Privilege
  imports Steps Encode
begin

text \<open>
  Levels and the CSRs they protect.  The ISA lets a level use a CSR only if the number of the
  CSR allows it, and \<open>MRET\<close> only in machine mode; \<open>csr.c\<close> and \<open>execute.c\<close> look at neither.
\<close>

text \<open>\<open>mret\<close>, as the decoder returns it.\<close>

lemma decode_mret: "\<exists>d. decode pc 0x30200073 = Inr (pc + 4, d) \<and> d_op d = MRET \<and> d_rd d = 0"
proof -
  have "case dec32 0x30200073 of Inr d \<Rightarrow> d_op d = MRET \<and> d_rd d = 0 | Inl _ \<Rightarrow> False"
    by code_simp
  then show ?thesis
    by (auto simp: decode_def split: sum.splits)
qed

lemma csr_write_any_level:
  assumes "meaning (ICsr CSRRW 0 csr rs1) d" "plain_csr (ucast csr)"
  shows "execute fuel pc npc d m =
    Inr (npc, m\<lparr>csrs := (csrs m)(ucast csr := m_reg m (ucast rs1))\<rparr>)"
  using assms
  by (simp add: meaning_def execute_def exec_op_def exec_csr_def csr_update_plain after_access_def write_back_def)

lemma mret_any_level:
  assumes "d_op d = MRET" "d_rd d = 0"
  shows "\<exists>m'. execute fuel pc npc d m = Inr (csrs m MEPC, m') \<and> priv m' = ucast (BITS (csrs m MSTATUS) 12 11)"
  using assms by (simp add: execute_def exec_op_def exec_xret_def trap_exit_M write_back_def priv_def)

text \<open>C17.  Levels are not enforced.  Whatever the level, also in user mode, the two instructions
  \<open>csrrw x0, mstatus, rs1\<close> and \<open>mret\<close> take the hart to the level bits 11 and 12 of \<open>rs1\<close> name, machine
  mode included, where the ISA raises an illegal instruction exception at each of them.\<close>

theorem privilege_unchecked:
  "\<exists>d e m1 m2. decode pc (encode (ICsr CSRRW 0 0x300 rs1)) = Inr (pc + 4, d) \<and>
     execute fuel pc (pc + 4) d m = Inr (pc + 4, m1) \<and>
     decode (pc + 4) 0x30200073 = Inr (pc + 8, e) \<and>
     execute fuel (pc + 4) (pc + 8) e m1 = Inr (csrs m MEPC, m2) \<and>
     priv m2 = ucast (BITS (m_reg m (ucast rs1)) 12 11)"
proof -
  obtain d where d: "decode pc (encode (ICsr CSRRW 0 0x300 rs1)) = Inr (pc + 4, d)" "meaning (ICsr CSRRW 0 0x300 rs1) d"
    using decode_insn by blast
  obtain e where e: "decode (pc + 4) 0x30200073 = Inr (pc + 8, e)" "d_op e = MRET" "d_rd e = 0"
    using decode_mret [of "pc + 4"] by (auto simp: add.assoc)
  let ?m1 = "m\<lparr>csrs := (csrs m)(MSTATUS := m_reg m (ucast rs1))\<rparr>"
  have "execute fuel pc (pc + 4) d m = Inr (pc + 4, ?m1)"
    using csr_write_any_level [OF d(2)] by (simp add: plain_csr_def)
  moreover obtain m2 where "execute fuel (pc + 4) (pc + 8) e ?m1 = Inr (csrs m MEPC, m2)"
      "priv m2 = ucast (BITS (m_reg m (ucast rs1)) 12 11)"
    using mret_any_level [OF e(2,3), of fuel "pc + 4" "pc + 8" ?m1] by auto
  ultimately show ?thesis
    using d(1) e(1) by blast
qed

end
