(* ===== verification/HartDeviates.thy ===== *)
theory HartDeviates
  imports HartRel Privilege
begin

text \<open>
  Where the code leaves the privileged architecture, so that the reference interpreter of theory
  \<open>Hart\<close> has to stop: beside the missing checks of \<open>mmu.c\<close> (theory \<open>Sv39\<close>) and of the levels
  (theory \<open>Privilege\<close>), fetches at the end of a page, the enable bits of the levels above the current
  one, and \<open>sstatus\<close> and \<open>sie\<close>, which are registers of their own.
\<close>

lemma fetch_past_page:
  assumes "unat (m_pc m) mod 4096 = 4094" "mmu m (m_pc m) = Inr (Some a, m)" "bus_ok m a 2"
    and "mmu m (m_pc m + 2) = Inr (None, m)"
  shows "\<exists>i. fetch m = and_then (raise_except (m_pc m) CAUSE_INST_PAGE_FAULT (m_pc m + 2) m) (\<lambda>(r, m). Inr (r, i, m))"
  using assms by (auto simp: fetch_def Let_def half_page as_read_def bus_read_ok)

lemma interrupt_held_back:
  assumes "priv s = U_MODE" "plic_interrupt p s = Inr (0, p', s)" "timer_intr c" "bit (csrs s MIDELEG) 5"
    and "\<not> bit (csrs s SSTATUS) BIT_SIE_POS"
  shows "handle_interrupt pc p c s = Inr (0, p', s)"
proof -
  have "clint_interrupt c = TIMER_INTR_TYPE"
    using assms(3) by (simp add: clint_interrupt_def)
  moreover have "intr_target TIMER_INTR_TYPE s = S_MODE" "\<not> intr_on TIMER_INTR_TYPE S_MODE s"
    using assms(1,4,5) by (simp_all add: intr_target_def intr_on_def intr_pos_def)
  ultimately show ?thesis
    using handle_interrupt_eq(2) [OF assms(2) refl, of c pc] by simp
qed

lemma status_not_shared:
  assumes "meaning (ICsr CSRRS 0 csr rs1) d" "ucast csr = MSTATUS \<or> ucast csr = MIE"
  shows "\<exists>m'. execute fuel pc npc d m = Inr (npc, m') \<and> csrs m' SSTATUS = csrs m SSTATUS \<and> csrs m' SIE = csrs m SIE"
proof -
  have plain: "plain_csr (ucast csr)"
    using assms(2) by auto
  have "d_rd d = ucast (0 :: regno)"
    using assms(1) by (simp add: meaning_def)
  from execute_Rd [OF exec_csr_plain [OF assms(1) plain refl, of fuel pc npc] this] show ?thesis
    using assms(2) by (auto simp: put_reg_def)
qed

text \<open>C18.  Where trap handling and fetching are not the architecture's.  A fetch that starts two bytes
  before the end of a page faults when the next page does not translate, whatever the halfword it
  starts with, also a complete compressed instruction.  In user mode a timer interrupt delegated to
  supervisor mode is not taken while \<open>sstatus.SIE\<close> is clear; the architecture takes it, because the
  bit of a level says nothing below that level.  And setting bits of \<open>mstatus\<close> or \<open>mie\<close> changes
  neither \<open>sstatus\<close> nor \<open>sie\<close>, which in the architecture are views of them.\<close>

theorem privileged_deviates:
  "(unat (m_pc m) mod 4096 = 4094 \<and> mmu m (m_pc m) = Inr (Some a, m) \<and> bus_ok m a 2 \<and>
      mmu m (m_pc m + 2) = Inr (None, m) \<longrightarrow>
    (\<exists>i. fetch m = and_then (raise_except (m_pc m) CAUSE_INST_PAGE_FAULT (m_pc m + 2) m) (\<lambda>(r, m). Inr (r, i, m)))) \<and>
   (priv m = U_MODE \<and> plic_interrupt p m = Inr (0, p', m) \<and> timer_intr c \<and> bit (csrs m MIDELEG) 5 \<and>
      \<not> bit (csrs m SSTATUS) BIT_SIE_POS \<longrightarrow> handle_interrupt pc p c m = Inr (0, p', m)) \<and>
   (meaning (ICsr CSRRS 0 csr rs1) d \<and> (ucast csr = MSTATUS \<or> ucast csr = MIE) \<longrightarrow>
    (\<exists>m'. execute fuel pc npc d m = Inr (npc, m') \<and> csrs m' SSTATUS = csrs m SSTATUS \<and> csrs m' SIE = csrs m SIE))"
  using fetch_past_page interrupt_held_back status_not_shared by blast

theorem privileged_deviates_witness:
  "\<exists>d m'. decode 0x1000 (encode (ICsr CSRRS 0 0x300 1)) = Inr (0x1004, d) \<and>
     execute 1 0x1000 0x1004 d demo_x1 = Inr (0x1004, m') \<and> csrs m' SSTATUS = csrs demo_x1 SSTATUS"
proof -
  obtain d where d: "decode 0x1000 (encode (ICsr CSRRS 0 0x300 1)) = Inr (0x1004, d)" "meaning (ICsr CSRRS 0 0x300 1) d"
    using decode_insn [of "0x1000" "ICsr CSRRS 0 0x300 1"] by auto
  have "\<exists>m'. execute 1 0x1000 0x1004 d demo_x1 = Inr (0x1004, m') \<and> csrs m' SSTATUS = csrs demo_x1 SSTATUS \<and>
      csrs m' SIE = csrs demo_x1 SIE"
    by (rule privileged_deviates [THEN conjunct2, THEN conjunct2, rule_format, of "0x300" 1]) (simp add: d(2))
  with d(1) show ?thesis
    by blast
qed

end
