(* ===== verification/HartRefine.thy ===== *)
theory HartRefine
  imports HartRel
begin

text \<open>
  The main loop refines the reference interpreter of theory \<open>Hart\<close>, at every privilege level and
  with the interrupt lines changing between its passes.
\<close>

section \<open>Instructions\<close>

definition hrefines :: "(u64 \<times> machine) result \<Rightarrow> hart \<Rightarrow> bool" where
  "hrefines r s \<longleftrightarrow> (\<exists>pc m. r = Inr (pc, m) \<and> hart_rel (m\<lparr>m_pc := pc\<rparr>) s)"

lemma hrefines_put:
  assumes "exec_op fuel pc npc d m = Inr (Rd v, m_pc m1 + len, False, m1)" "d_rd d = ucast rd" "hart_rel m1 s"
  shows "hrefines (execute fuel pc npc d m) (hart_put len rd v s)"
  using hart_rel_put [OF assms(3), where rd = rd and v = v and len = len] by (simp add: hrefines_def execute_Rd [OF assms(1,2)])

lemma hrefines_next:
  assumes "exec_op fuel pc npc d m = Inr (Rd_none, m_pc m1 + len, False, m1)" "d_rd d = 0" "hart_rel m1 s"
  shows "hrefines (execute fuel pc npc d m) (hart_next len s)"
  using hart_rel_next [OF assms(3), of len] by (simp add: hrefines_def execute_no_Rd [OF assms(1,2)])

lemma register_refines:
  assumes "hart_rel m s" "register_insn i" "meaning i d" "isa_exec len i (hart_core s) = Some c"
  shows "hrefines (execute fuel (m_pc m) (m_pc m + len) d m) (s\<lparr>h_regs := i_regs c, h_pc := i_pc c\<rparr>)"
proof -
  from register_step [OF assms(2-4), where m = m and pc = "m_pc m" and fuel = fuel] obtain R where
    "execute fuel (m_pc m) (m_pc m + len) d m = Inr (i_pc c, m\<lparr>m_reg := R\<rparr>)"
    "i_regs c = (\<lambda>r. R (ucast r))" "R 0 = m_reg m 0"
    by (auto simp: hart_core_def same_registers_def hart_rel_core [OF assms(1)])
  with assms(1) show ?thesis
    by (simp add: hrefines_def hart_rel_defs bus_bytes_def)
qed

lemma load_refines:
  assumes "hart_rel m s" "meaning (ILoad l rd rs1 imm) d"
    and "hart_access Load_access (load_bytes l) (h_regs s rs1 + scast imm) s = Value a"
  shows "hrefines (execute fuel (m_pc m) (m_pc m + len) d m) (hart_put len rd (isa_load l (h_mem s) a) s)"
proof -
  have "access_size (load_size l)"
    by (cases l) (simp_all add: load_size_def access_size_def)
  from read_value [OF assms(1) _ this, of Load_access "h_regs s rs1 + scast imm" a] assms(3)
  have "as_read m (m_reg m (ucast rs1) + scast imm) (load_size l) = Inr (load_le (h_mem s) a (load_bytes l), False, m)"
    by (simp add: isa_load_value(1) hart_rel_core [OF assms(1)])
  with assms(2) show ?thesis
    by (intro hrefines_put [OF _ _ assms(1)])
      (simp_all add: meaning_def exec_op_def exec_load_def after_access_def isa_load_value Let_def)
qed

lemma store_refines_hart:
  assumes "hart_rel m s" "meaning (IStore st rs2 rs1 imm) d"
    and "hart_access Store_access (store_bytes_of st) (h_regs s rs1 + scast imm) s = Value a"
  shows "hrefines (execute (Suc n) (m_pc m) (m_pc m + len) d m)
    (hart_next len (s\<lparr>h_mem := store_le (h_mem s) a (h_regs s rs2) (store_bytes_of st)\<rparr>))"
proof -
  have sz: "access_size (store_size st)" "store_bytes_of st = unat (store_size st)"
    by (cases st; simp add: store_size_def store_bytes_of_def access_size_def)+
  obtain r m1 where m1: "as_write (Suc n) m (h_regs s rs1 + scast imm) (store_size st) (h_regs s rs2) PARAMS_NONE =
      Inr (r, False, m1)"
    "hart_rel m1 (s\<lparr>h_mem := store_le (h_mem s) a (amo_new (store_size st) r (h_regs s rs2) PARAMS_NONE)
      (unat (store_size st))\<rparr>)" "m_pc m1 = m_pc m"
    using write_value [OF assms(1) _ sz(1)] assms(3) sz(2) by metis
  show ?thesis
    by (rule hrefines_next [where ?m1.0 = m1])
      (use assms(2) sz m1 in \<open>simp_all add: meaning_def exec_op_def exec_store_def after_access_def Let_def
        amo_new_None hart_rel_core [OF assms(1)]\<close>)
qed

lemma amo_refines_hart:
  assumes "hart_rel m s" "meaning (IAmo op aq rl rd rs1 rs2) d" "amo_size op = 8" "amo_params op \<noteq> PARAMS_LR_SC"
    and "hart_access Store_access 8 (h_regs s rs1) s = Value a"
  defines "old \<equiv> load_le (h_mem s) a 8"
  shows "hrefines (execute (Suc n) (m_pc m) (m_pc m + len) d m)
    (hart_put len rd old (s\<lparr>h_mem := store_le (h_mem s) a (amo_result (amo_params op) old (h_regs s rs2)) 8\<rparr>))"
proof -
  have "op \<noteq> LR_D" "op \<noteq> LR_W"
    using assms(4) by (auto simp: amo_params_def)
  obtain r m1 where m1: "as_write (Suc n) m (h_regs s rs1) 8 (h_regs s rs2) (amo_params op) = Inr (r, False, m1)"
    "r = amo_old (m_ram m) (a - RAM_ADDRESS_SPACE_START) 8 (amo_params op)"
    "hart_rel m1 (s\<lparr>h_mem := store_le (h_mem s) a (amo_new 8 r (h_regs s rs2) (amo_params op)) 8\<rparr>)" "m_pc m1 = m_pc m"
    using assms(5) by (rule_tac write_value [OF assms(1), of Store_access 8 "h_regs s rs1" a n "h_regs s rs2" "amo_params op"])
      (simp_all add: access_size_def)
  have r: "r = old"
    using m1(2) assms(4) by (simp add: amo_old_def old_def bus_bytes_def load_le_shift hart_rel_core [OF assms(1)])
  show ?thesis
    by (rule hrefines_put [where ?m1.0 = m1])
      (use assms(2,3,4) m1 \<open>op \<noteq> LR_D\<close> \<open>op \<noteq> LR_W\<close> in \<open>simp_all add: meaning_def exec_op_def exec_amo_def after_access_def
        Let_def r amo_new_def amo64_result hart_rel_core [OF assms(1)]\<close>)
qed

subsection \<open>CSR instructions\<close>

lemma csr_lists_plain: "csr_readable a \<or> csr_holds a v \<or> a \<in> {MIE, SIE, MSTATUS, SSTATUS} \<Longrightarrow> plain_csr a"
  by (auto simp: csr_readable_def csr_holds_def plain_csr_def)

lemma csr_holds_compared: "csr_holds a v \<or> a \<in> {MIE, SIE} \<Longrightarrow> a \<notin> {MSTATUS, SSTATUS, MIP, SIP}"
  by (auto simp: csr_holds_def)

lemma csr_readable_compared: "csr_readable a \<Longrightarrow> a \<notin> {MSTATUS, SSTATUS, MIP, SIP}"
  by (auto simp: csr_readable_def)

lemma hart_rel_csr_write:
  assumes "hart_rel m s" "a \<notin> {MSTATUS, SSTATUS, MIP, SIP}"
  shows "hart_rel (m\<lparr>csrs := (csrs m)(a := v)\<rparr>) (s\<lparr>h_csrs := (h_csrs s)(a := v)\<rparr>)"
  by (rule hart_relI; insert hart_relD [OF assms(1)] assms(2))
    (simp_all add: hart_ready_def same_core_state_def same_csrs_def same_status_def same_lines_def bus_bytes_def)

text \<open>Setting and clearing bits of the status word: a bit of the operand becomes known.\<close>

lemma bit_csr_new:
  "x \<notin> {CSRRW, CSRRWI} \<Longrightarrow>
   bit (csr_new x w src) n \<longleftrightarrow> (if bit src n then x \<in> {CSRRS, CSRRSI} else bit w n)"
  by (cases x) (auto simp: csr_new_def bit_simps dest: bit_imp_le_length)

lemma within_bits:
  fixes src k :: u64
  assumes "src AND NOT k = 0" "bit src n"
  shows "bit k n"
proof -
  have "bit (src AND NOT k) n \<longleftrightarrow> \<not> bit k n"
    using assms(2) bit_imp_le_length [OF assms(2)] by (simp add: bit_and_iff bit_not_iff)
  with assms(1) show ?thesis
    by simp
qed

lemma status_written:
  assumes "hart_rel m s" "x \<notin> {CSRRW, CSRRWI}"
    and "a = MSTATUS \<and> src AND NOT 0x1888 = 0 \<or> a = SSTATUS \<and> src AND NOT 0xC0122 = 0"
  shows "hart_rel (m\<lparr>csrs := (csrs m)(a := csr_new x (csrs m a) src)\<rparr>)
    (s\<lparr>h_mstatus := csr_new x (h_mstatus s) src, h_known := h_known s OR src\<rparr>)"
proof -
  note parts = hart_relD [OF assms(1)]
  have a: "a = MSTATUS \<or> a = SSTATUS"
    using assms(3) by blast
  have M: "\<not> bit src 1 \<and> \<not> bit src 5 \<and> \<not> bit src 8" if "a = MSTATUS"
    using within_bits [of src "0x1888" 1] within_bits [of src "0x1888" 5] within_bits [of src "0x1888" 8] assms(3) that
    by (auto simp: bit_numeral_rec)
  have S: "\<not> bit src 3 \<and> \<not> bit src 7 \<and> \<not> bit src 11 \<and> \<not> bit src 12" if "a = SSTATUS"
    using within_bits [of src "0xC0122" 3] within_bits [of src "0xC0122" 7] within_bits [of src "0xC0122" 11]
      within_bits [of src "0xC0122" 12] assms(3) that
    by (auto simp: bit_numeral_rec)
  show ?thesis
  proof (rule hart_relI)
    show "same_status (m\<lparr>csrs := (csrs m)(a := csr_new x (csrs m a) src)\<rparr>)
        (s\<lparr>h_mstatus := csr_new x (h_mstatus s) src, h_known := h_known s OR src\<rparr>)"
      using a
    proof
      assume "a = MSTATUS"
      then show ?thesis
        using parts(4) M by (simp add: same_status_def bit_csr_new [OF assms(2)] bit_or_iff)
    next
      assume "a = SSTATUS"
      then show ?thesis
        using parts(4) S by (simp add: same_status_def bit_csr_new [OF assms(2)] bit_or_iff)
    qed
  qed (use parts a in \<open>auto simp: hart_ready_def same_core_state_def same_csrs_def same_lines_def bus_bytes_def\<close>)
qed

lemma csr_refines:
  assumes "hart_rel m s" "meaning (ICsr x rd csr rs1) d" "hart_csr len x rd (ucast csr) rs1 s = Value s'"
  shows "hrefines (execute fuel (m_pc m) (m_pc m + len) d m) s'"
proof -
  let ?a = "ucast csr :: u32"
  define src where "src = csr_source (h_regs s) x rs1"
  define m1 where "m1 = m\<lparr>csrs := (csrs m)(?a := csr_new x (csrs m ?a) src)\<rparr>"
  have exec: "exec_op fuel (m_pc m) (m_pc m + len) d m = Inr (Rd (csrs m ?a), m_pc m1 + len, False, m1)"
    if "plain_csr ?a"
    using exec_csr_plain [OF assms(2) that hart_rel_core(1) [OF assms(1)]] by (simp add: m1_def src_def)
  have rd: "d_rd d = ucast rd"
    using assms(2) by (simp add: meaning_def)
  note put = hrefines_put [where ?m1.0 = m1, OF exec rd]
  have csr: "h_csrs s ?a = csrs m ?a" if "?a \<notin> {MSTATUS, SSTATUS, MIP, SIP}"
    using hart_rel_csr [OF assms(1) that] .
  consider
      (old) "csr_only_reads x rs1" "csr_readable ?a" "s' = hart_put len rd (h_csrs s ?a) s"
    | (update) "csr_holds ?a (csr_new x (h_csrs s ?a) src) \<or> ?a \<in> {MIE, SIE}"
        "s' = hart_put len rd (h_csrs s ?a) (s\<lparr>h_csrs := (h_csrs s)(?a := csr_new x (h_csrs s ?a) src)\<rparr>)"
    | (status) "rd = 0" "x \<notin> {CSRRW, CSRRWI}"
        "?a = MSTATUS \<and> src AND NOT 0x1888 = 0 \<or> ?a = SSTATUS \<and> src AND NOT 0xC0122 = 0"
        "s' = hart_next len (s\<lparr>h_mstatus := csr_new x (h_mstatus s) src, h_known := h_known s OR src\<rparr>)"
    using assms(3) by (auto simp: hart_csr_def Let_def src_def [symmetric] split: if_splits)
  then show ?thesis
  proof cases
    case old
    have "csr_new x (csrs m ?a) src = csrs m ?a"
      using old(1) hart_rel_core(1,5) [OF assms(1)]
      by (cases x) (simp_all add: csr_only_reads_def csr_new_def csr_source_def src_def)
    then have "m1 = m"
      by (simp add: m1_def)
    then show ?thesis
      using put [of s] csr_lists_plain [of ?a] csr [OF csr_readable_compared] old assms(1) by simp
  next
    case update
    then have "hart_rel m1 (s\<lparr>h_csrs := (h_csrs s)(?a := csr_new x (h_csrs s ?a) src)\<rparr>)"
      unfolding m1_def using hart_rel_csr_write [OF assms(1) csr_holds_compared] csr [OF csr_holds_compared] by metis
    moreover have "plain_csr ?a"
      using update(1) csr_lists_plain [of ?a "csr_new x (h_csrs s ?a) src"] by blast
    ultimately show ?thesis
      using put csr [OF csr_holds_compared [OF update(1)]] update(2) by simp
  next
    case status
    have rel: "hart_rel m1 (s\<lparr>h_mstatus := csr_new x (h_mstatus s) src, h_known := h_known s OR src\<rparr>)"
      unfolding m1_def using status_written [OF assms(1) status(2,3)] .
    have "plain_csr ?a"
      using status(3) by (intro csr_lists_plain) auto
    from put [OF this rel] show ?thesis
      using status(1,4) by (simp add: hart_put_def hart_next_def)
  qed
qed

subsection \<open>Every instruction\<close>

lemma exec_value_refines:
  assumes "hart_rel m s" "meaning i d" "hart_exec len i s = Value s'"
  shows "hrefines (execute (Suc n) (m_pc m) (m_pc m + len) d m) s'"
proof (cases "register_insn i")
  case True
  then obtain c where "isa_exec len i (hart_core s) = Some c" "s' = s\<lparr>h_regs := i_regs c, h_pc := i_pc c\<rparr>"
    using assms(3) by (cases i) (auto simp: hart_exec_def register_insn_def split: option.splits)
  then show ?thesis
    using register_refines [OF assms(1) True assms(2)] by simp
next
  case False
  then show ?thesis
    using assms load_refines [OF assms(1)] store_refines_hart [OF assms(1)] amo_refines_hart [OF assms(1)]
      csr_refines [OF assms(1)]
    by (cases i) (auto simp: hart_exec_def register_insn_def on_value_iffs Let_def split: if_splits)
qed

lemma exec_fault_refines:
  assumes "hart_rel m s" "meaning i d" "hart_exec len i s = Page_fault va" "hart_except (access_cause i) va s = Some s'"
  shows "hrefines (execute (Suc n) (m_pc m) (m_pc m + len) d m) s'"
proof -
  note fault = access_fault [OF assms(1)]
  have "accesses d \<and> access_of d m = va \<and> fault_cause d = access_cause i \<and> mmu m va = Inr (None, m)"
    using assms(2,3)
    by (cases i) (auto simp: hart_exec_def meaning_def on_value_iffs hart_csr_def Let_def accesses_def access_of_def
        fault_cause_def access_cause_def hart_rel_core [OF assms(1)] split: if_splits option.splits dest!: fault)
  then have "execute (Suc n) (m_pc m) (m_pc m + len) d m = raise_except (m_pc m) (access_cause i) va m"
    using execute_fault [of d m m "Suc n" "m_pc m" "m_pc m + len"] by simp
  moreover have "access_cause i < 32"
    by (simp add: access_cause_def split: insn.split)
  ultimately show ?thesis
    using except_refines [OF assms(1,4)] by (auto simp: hrefines_def)
qed

lemma ecall_refines_hart:
  assumes "hart_rel m s" "d_op d = ECALL" "d_rd d = 0" "hart_except (8 + ucast (h_lvl s)) 0 s = Some s'"
  shows "hrefines (execute fuel (m_pc m) npc d m) s'"
proof -
  have "cur_priv m = U_MODE \<or> cur_priv m = S_MODE \<or> cur_priv m = M_MODE"
    using hart_relD(1) [OF assms(1)] by (simp add: hart_ready_def)
  then have "8 + ucast (h_lvl s) < (32 :: u64)"
    by (auto simp: hart_rel_core [OF assms(1)])
  from except_refines [OF assms(1,4) this] show ?thesis
    using assms(2,3)
    by (auto simp: hrefines_def execute_def exec_op_def exec_ecall_def write_back_def priv_def hart_rel_core [OF assms(1)])
qed

lemma previous_level:
  assumes "bit w 12 \<longrightarrow> bit w 11"
  shows "ucast (BITS (w :: u64) 12 11) = (if bit w 12 then 3 else if bit w 11 then 1 else 0 :: u32)"
proof (rule bit_word_eqI)
  fix n
  assume n: "n < LENGTH(32)"
  have mask: "(3 :: u32) = mask 2" "(1 :: u32) = mask 1"
    by (simp_all add: mask_eq_exp_minus_1)
  have "n = 0 \<or> n = 1 \<or> 2 \<le> n"
    by linarith
  then show "bit (ucast (BITS w 12 11) :: u32) n = bit (if bit w 12 then 3 else if bit w 11 then 1 else 0 :: u32) n"
    unfolding mask using n assms by (elim disjE) (auto simp: word_bits bit_simps)
qed

lemma all_known_simps [simp]:
  "all_known [] s" "all_known (n # ns) s \<longleftrightarrow> bit (h_known s) n \<and> all_known ns s"
  by (simp_all add: all_known_def)

lemma mret_refines:
  assumes "hart_rel m s" "d_op d = MRET" "d_rd d = 0" "hart_mret s = Some s'"
  shows "hrefines (execute fuel (m_pc m) npc d m) s'"
proof -
  note parts = hart_relD [OF assms(1)]
  let ?w = "csrs m MSTATUS"
  let ?m' = "m\<lparr>cur_priv := ucast (BITS ?w 12 11),
    csrs := (csrs m)(MSTATUS := SET_BIT ?w BIT_MIE_POS (BIT ?w BIT_MPIE_POS)), m_pc := csrs m MEPC\<rparr>"
  have known: "bit (h_known s) 7" "bit (h_known s) 11" "bit (h_known s) 12"
    using assms(4) by (auto simp: hart_mret_def Let_def split: if_splits)
  then have bits: "bit (h_mstatus s) 7 = bit ?w 7" "bit (h_mstatus s) 11 = bit ?w 11" "bit (h_mstatus s) 12 = bit ?w 12"
    using parts(4) by (simp_all add: same_status_def)
  have s': "h_pc s' = csrs m MEPC" "h_lvl s' = ucast (BITS ?w 12 11)" "h_regs s' = h_regs s" "h_mem s' = h_mem s"
    "h_csrs s' = h_csrs s"
    "h_mstatus s' = put_bit 3 (bit ?w 7) (put_bit 7 True (put_bit 11 False (put_bit 12 False (h_mstatus s))))"
    "h_known s' = put_bit 3 True (put_bit 7 False (put_bit 11 False (put_bit 12 False (h_known s))))"
    "h_timer s' = h_timer s" "h_soft s' = h_soft s" "h_ext s' = h_ext s"
    using assms(4) hart_rel_csr [OF assms(1), of MEPC] bits
    by (auto simp: hart_mret_def Let_def previous_level split: if_splits)
  have lvl: "ucast (BITS ?w 12 11) \<in> {U_MODE, S_MODE, M_MODE}"
    using assms(4) bits by (auto simp: hart_mret_def Let_def previous_level split: if_splits)
  have "hart_rel ?m' s'"
  proof (rule hart_relI)
    show "same_status ?m' s'"
      using parts(4) by (simp add: same_status_def s' word_bits)
  qed (use parts s' lvl in \<open>simp_all add: hart_ready_def same_core_state_def same_csrs_def same_lines_def bus_bytes_def\<close>)
  then show ?thesis
    using assms(2,3) by (simp add: hrefines_def execute_def exec_op_def exec_xret_def trap_exit_M write_back_def)
qed

lemma sret_refines:
  assumes "hart_rel m s" "d_op d = SRET" "d_rd d = 0" "hart_sret s = Some s'"
  shows "hrefines (execute fuel (m_pc m) npc d m) s'"
proof -
  note parts = hart_relD [OF assms(1)]
  let ?w = "csrs m SSTATUS"
  let ?lvl = "if bit ?w BIT_SPP_POS then S_MODE else U_MODE"
  let ?m' = "m\<lparr>cur_priv := ?lvl,
    csrs := (csrs m)(SSTATUS := SET_BIT ?w BIT_SIE_POS (BIT ?w BIT_SPIE_POS)), m_pc := csrs m SEPC\<rparr>"
  have known: "bit (h_known s) 5" "bit (h_known s) 8"
    using assms(4) by (auto simp: hart_sret_def Let_def split: if_splits)
  then have bits: "bit (h_mstatus s) 5 = bit ?w 5" "bit (h_mstatus s) 8 = bit ?w 8"
    using parts(4) by (simp_all add: same_status_def)
  have s': "h_pc s' = csrs m SEPC" "h_lvl s' = ?lvl" "h_regs s' = h_regs s" "h_mem s' = h_mem s"
    "h_csrs s' = h_csrs s" "h_mstatus s' = put_bit 1 (bit ?w 5) (put_bit 5 True (put_bit 8 False (h_mstatus s)))"
    "h_known s' = put_bit 1 True (put_bit 5 False (put_bit 8 False (h_known s)))"
    "h_timer s' = h_timer s" "h_soft s' = h_soft s" "h_ext s' = h_ext s"
    using assms(4) hart_rel_csr [OF assms(1), of SEPC] bits
    by (auto simp: hart_sret_def Let_def split: if_splits)
  have "hart_rel ?m' s'"
  proof (rule hart_relI)
    show "same_status ?m' s'"
      using parts(4) by (simp add: same_status_def s' word_bits)
  qed (use parts s' in \<open>simp_all add: hart_ready_def same_core_state_def same_csrs_def same_lines_def bus_bytes_def\<close>)
  then show ?thesis
    using assms(2,3) by (simp add: hrefines_def execute_def exec_op_def exec_xret_def trap_exit_S write_back_def)
qed

section \<open>Passes of the main loop\<close>

lemma hart_pass:
  assumes "hart_rel m s" "running s w" "decode (m_pc m) w = Inr (m_pc m + len, d)"
    and "\<And>m1. hart_rel m1 s \<Longrightarrow> hrefines (execute (Suc n) (m_pc m1) (m_pc m1 + len) d m1) s'"
  shows "\<exists>m'. cpu_step (Suc n) m = Inr m' \<and> hart_rel m' s'"
proof -
  from assms(2) have run: "undisturbed s" "0x1000 \<le> m_pc m" "hart_fetch s = Value w"
    by (simp_all add: running_def hart_rel_core [OF assms(1)])
  obtain m1 where m1: "interrupt_step m = Inr (0, m1)" "hart_rel m1 s"
    using interrupt_quiet [OF assms(1) run(1)] .
  have pc: "m_pc m1 = m_pc m"
    using hart_rel_core(2) [OF m1(2)] hart_rel_core(2) [OF assms(1)] by simp
  have "fetch m1 = Inr (0, w, m1)"
    using fetch_refines [OF m1(2)] run(3) by blast
  moreover obtain pc' m2 where "execute (Suc n) (m_pc m) (m_pc m + len) d m1 = Inr (pc', m2)"
    "hart_rel (m2\<lparr>m_pc := pc'\<rparr>) s'"
    using assms(4) [OF m1(2)] by (auto simp: hrefines_def pc)
  ultimately show ?thesis
    using m1(1) assms(3) run(2) pc by (simp add: cpu_step_def)
qed

lemma hart_pass_trap:
  assumes "hart_rel m s" "undisturbed s" "0x1000 \<le> h_pc s" "hart_fetch s = Page_fault va"
    and "hart_except 12 va s = Some s'"
  shows "\<exists>m'. cpu_step (Suc n) m = Inr m' \<and> hart_rel m' s'"
proof -
  obtain m1 where m1: "interrupt_step m = Inr (0, m1)" "hart_rel m1 s"
    using interrupt_quiet [OF assms(1,2)] .
  obtain i where "fetch m1 = and_then (raise_except (m_pc m1) 12 va m1) (\<lambda>(r, m). Inr (r, i, m))"
    using fetch_refines [OF m1(2)] assms(4) by auto
  moreover obtain m2 where "raise_except (m_pc m1) 12 va m1 = Inr (h_pc s', m2)" "h_pc s' \<noteq> 0"
    "hart_rel (m2\<lparr>m_pc := h_pc s'\<rparr>) s'"
    using except_refines [OF m1(2) assms(5)] by auto
  ultimately show ?thesis
    using m1(1) assms(3) by (simp add: cpu_step_def hart_rel_core [OF assms(1)])
qed

lemma hart_pass_interrupt:
  assumes "hart_rel m s" "takes t s" "0x1000 \<le> h_pc s"
    and "hart_trap (hart_target t s) (0x8000000000000000 + of_nat (intr_pos t (hart_target t s))) 0 s = Some s'"
  shows "\<exists>m'. cpu_step (Suc n) m = Inr m' \<and> hart_rel m' s'"
proof -
  obtain m1 where "interrupt_step m = Inr (h_pc s', m1)" "h_pc s' \<noteq> 0" "hart_rel (m1\<lparr>m_pc := h_pc s'\<rparr>) s'"
    using interrupt_taken [OF assms(1,2)] assms(4) by auto
  then show ?thesis
    using assms(3) by (simp add: cpu_step_def hart_rel_core [OF assms(1)])
qed

text \<open>Decoding.\<close>

lemma low_half_word: "w = low_half (ucast (drop_bit 16 w)) (ucast w)"
  by (rule bit_word_eqI) (auto simp: low_half_def bit_simps)

lemma decode_reads_as:
  assumes "reads_as w len e" "(\<exists>i. e = Insn i) \<or> e = Nop"
  obtains d where "decode pc w = Inr (pc + len, d)" "expansion_meaning e d"
proof -
  consider (full) i where "len = 4" "e = Insn i" "w = encode i"
    | (compressed) c where "len = 2" "e = expand c" "ucast w = c_encode c" "c_legal c"
    using assms(1) unfolding reads_as_def by blast
  then show thesis
  proof cases
    case full
    obtain d where "decode pc (encode i) = Inr (pc + 4, d)" "meaning i d"
      using decode_insn by blast
    with full that show thesis
      by (auto simp: expansion_meaning_def)
  next
    case compressed
    then have "\<forall>r u. c \<noteq> C_FSDSP r u"
      using assms(2) by (auto simp: expand_def)
    from decode_compressed [OF compressed(4) this] low_half_word [of w] compressed that show thesis
      by metis
  qed
qed

definition decodes_to :: "u32 \<Rightarrow> op_t \<Rightarrow> bool" where
  "decodes_to w x \<longleftrightarrow> w AND 3 = 3 \<and> (case dec32 w of Inr d \<Rightarrow> d_op d = x \<and> d_rd d = 0 | Inl _ \<Rightarrow> False)"

lemma decode_word:
  assumes "decodes_to w x"
  obtains d where "decode pc w = Inr (pc + 4, d)" "d_op d = x" "d_rd d = 0"
  using assms by (auto simp: decodes_to_def decode_def split: sum.splits)

lemma system_words:
  "decodes_to 0x73 ECALL" "decodes_to 0x30200073 MRET" "decodes_to 0x10200073 SRET"
  "decodes_to 0x0FF0000F FENCE" "decodes_to 0x0000100F FENCE_I" "decodes_to 0x12000073 SFENCE_VMA"
  "decodes_to 0x10500073 WFI"
  by code_simp+

lemma decode_hint:
  assumes "hint_word w s"
  obtains d where "decode pc w = Inr (pc + 4, d)" "d_op d \<in> {FENCE, FENCE_I, SFENCE_VMA, WFI}" "d_rd d = 0"
proof -
  have "w = 0x0FF0000F \<or> w = 0x0000100F \<or> w = 0x12000073 \<or> w = 0x10500073"
    using assms by (auto simp: hint_word_def)
  then obtain x where "decodes_to w x" "x \<in> {FENCE, FENCE_I, SFENCE_VMA, WFI}"
    using system_words(4-7) by blast
  with that decode_word show thesis
    by metis
qed

lemma cpu_step_hart:
  assumes "hart_rel m s" "hart_step s s'"
  shows "\<exists>m'. cpu_step (Suc n) m = Inr m' \<and> hart_rel m' s'"
  using assms(2)
proof cases
  case (interrupt t)
  then show ?thesis
    using hart_pass_interrupt [OF assms(1)] by blast
next
  case (fetch_fault va)
  then show ?thesis
    using hart_pass_trap [OF assms(1)] by blast
next
  case (insn w len i)
  obtain d where d: "decode (m_pc m) w = Inr (m_pc m + len, d)" "expansion_meaning (Insn i) d"
    using decode_reads_as [OF insn(2)] by blast
  show ?thesis
    by (rule hart_pass [OF assms(1) insn(1) d(1)])
      (use d(2) insn(3) in \<open>auto simp: expansion_meaning_def intro: exec_value_refines\<close>)
next
  case (access_fault w len i va)
  obtain d where d: "decode (m_pc m) w = Inr (m_pc m + len, d)" "expansion_meaning (Insn i) d"
    using decode_reads_as [OF access_fault(2)] by blast
  show ?thesis
    by (rule hart_pass [OF assms(1) access_fault(1) d(1)])
      (use d(2) access_fault(3,4) in \<open>auto simp: expansion_meaning_def intro: exec_fault_refines\<close>)
next
  case (nop w len)
  obtain d where d: "decode (m_pc m) w = Inr (m_pc m + len, d)" "expansion_meaning Nop d"
    using decode_reads_as [OF nop(3)] by blast
  show ?thesis
    unfolding nop(1)
    by (rule hart_pass [OF assms(1) nop(2) d(1)], rule hrefines_next)
      (use d(2) in \<open>auto simp: expansion_meaning_def exec_op_def\<close>)
next
  case (hint w)
  obtain d where d: "decode (m_pc m) w = Inr (m_pc m + 4, d)" "d_op d \<in> {FENCE, FENCE_I, SFENCE_VMA, WFI}" "d_rd d = 0"
    using decode_hint [OF hint(3)] .
  show ?thesis
    unfolding hint(1)
    by (rule hart_pass [OF assms(1) hint(2) d(1)], rule hrefines_next) (use d(2,3) in \<open>auto simp: exec_op_def\<close>)
next
  case ecall
  obtain d where d: "decode (m_pc m) 0x73 = Inr (m_pc m + 4, d)" "d_op d = ECALL" "d_rd d = 0"
    using decode_word [OF system_words(1)] .
  show ?thesis
    by (rule hart_pass [OF assms(1) ecall(1) d(1)]) (rule ecall_refines_hart [OF _ d(2,3) ecall(2)])
next
  case mret
  obtain d where d: "decode (m_pc m) 0x30200073 = Inr (m_pc m + 4, d)" "d_op d = MRET" "d_rd d = 0"
    using decode_word [OF system_words(2)] .
  show ?thesis
    by (rule hart_pass [OF assms(1) mret(1) d(1)]) (rule mret_refines [OF _ d(2,3) mret(2)])
next
  case sret
  obtain d where d: "decode (m_pc m) 0x10200073 = Inr (m_pc m + 4, d)" "d_op d = SRET" "d_rd d = 0"
    using decode_word [OF system_words(3)] .
  show ?thesis
    by (rule hart_pass [OF assms(1) sret(1) d(1)]) (rule sret_refines [OF _ d(2,3) sret(2)])
qed

section \<open>Runs\<close>

text \<open>The events on the machine; the threads of the timer and of the serial port make such events.\<close>

definition machine_event :: "nat \<Rightarrow> event \<Rightarrow> machine \<Rightarrow> machine result" where
  "machine_event fuel e m = (case e of
     Pass \<Rightarrow> cpu_step fuel m
   | Devices c p u k \<Rightarrow> Inr (m\<lparr>m_clint := c, m_plic := p, m_uart := u, h_reads := k\<rparr>))"

lemma uart_thread_event:
  "uart_routine ch (m_uart m) (m_plic m) = Inr (u, p) \<Longrightarrow>
   machine_event fuel (Devices (m_clint m) p u (h_reads m)) m = Inr (m\<lparr>m_uart := u, m_plic := p\<rparr>)"
  by (simp add: machine_event_def)

lemma timer_thread_event:
  assumes "clint_routine (m_clint m) m = (c, m')"
  shows "\<exists>k. machine_event fuel (Devices c (m_plic m) (m_uart m) k) m = Inr (m'\<lparr>m_clint := c\<rparr>)"
proof -
  have "same_but_reads m m'"
    using assms same_but_reads_clocks(1) [of m]
    by (auto simp: clint_routine_def Let_def split_def split: if_splits)
  then obtain k where "m' = m\<lparr>h_reads := k\<rparr>"
    unfolding same_but_reads_def by blast
  then show ?thesis
    by (intro exI [of _ k]) (simp add: machine_event_def)
qed

lemma machine_event_refines:
  assumes "hart_rel m s" "hart_event e s s'"
  shows "\<exists>m'. machine_event (Suc n) e m = Inr m' \<and> hart_rel m' s'"
proof (cases e)
  case Pass
  then show ?thesis
    using cpu_step_hart [OF assms(1)] assms(2) by (simp add: hart_event_def machine_event_def)
next
  case (Devices c p u k)
  then have "plic_sound p" "s' = set_lines c p s"
    using assms(2) by (simp_all add: hart_event_def)
  then have "hart_rel (m\<lparr>m_clint := c, m_plic := p, m_uart := u, h_reads := k\<rparr>) s'"
    using hart_relD [OF assms(1)]
    by (intro hart_relI) (simp_all add: hart_ready_def same_core_state_def same_csrs_def same_status_def same_lines_def
        bus_bytes_def set_lines_def)
  with Devices show ?thesis
    by (simp add: machine_event_def)
qed

interpretation hart_cpu: simulation "machine_event (Suc n)" hart_event hart_rel for n
  by unfold_locales (rule machine_event_refines)

text \<open>C2.  The main loop runs programs as the privileged architecture says, at every level: for every
  run of the reference interpreter, in which instructions, page faults, environment calls,
  interrupts and returns from traps alternate with changes of the interrupt lines, as many passes
  of the main loop run without panic or undefined behaviour and end in a machine with the level,
  the registers, the program counter, the memory, the CSRs and the known status bits of the
  reference.\<close>

theorem cpu_refines_hart:
  assumes "hart_rel m s" "spec_run hart_event es s s'"
  shows "\<exists>m'. run (machine_event (Suc n)) es m = Inr m' \<and> hart_rel m' s'"
  using hart_cpu.runs [OF assms(2,1)] .

text \<open>
  A user behind a page table with two large pages, one for users at 0 and one for the supervisor at
  \<open>0x80000000\<close>, both the start of RAM: an environment call, the supervisor's \<open>sret\<close>, the timer, and
  the interrupt it causes.
\<close>

definition demo_user_csrs :: "u32 \<Rightarrow> u64" where
  "demo_user_csrs = (\<lambda>_. 0)(SATP := 0x8000000000080001, STVEC := 0x80003000, MEDELEG := 0x100, MIDELEG := 0x20,
     SIE := 0x20, SSTATUS := 2)"

definition demo_user_ram :: "u64 \<Rightarrow> u8" where
  "demo_user_ram = (\<lambda>_. 0)(0x1000 := 0xDF, 0x1003 := 0x20, 0x1010 := 0xCF, 0x1013 := 0x20, 0x2000 := 0x73,
     0x3000 := 0x73, 0x3002 := 0x20, 0x3003 := 0x10)"

definition demo_user :: machine where
  "demo_user = demo_machine\<lparr>cur_priv := U_MODE, csrs := demo_user_csrs, m_pc := 0x2000, m_plic := plic_init,
     m_clint := clint_init, m_ram := ram_init\<lparr>ram_mem := demo_user_ram\<rparr>\<rparr>"

definition demo_hart :: hart where
  "demo_hart = \<lparr>h_regs = \<lambda>_. 0, h_pc = 0x2000, h_mem = \<lambda>a. demo_user_ram (a - 0x80000000), h_lvl = U_MODE,
     h_csrs = demo_user_csrs, h_mstatus = 2, h_known = 2, h_timer = False, h_soft = False,
     h_ext = plic_external plic_init\<rparr>"

definition demo_called :: hart where
  "demo_called = the (hart_except 8 0 demo_hart)"

definition demo_back :: hart where
  "demo_back = the (hart_sret demo_called)"

definition demo_timer :: hart where
  "demo_timer = set_lines (clint_init\<lparr>timer_intr := True\<rparr>) plic_init demo_back"

definition demo_interrupted :: hart where
  "demo_interrupted = the (hart_trap (hart_target TIMER_INTR_TYPE demo_timer)
     (0x8000000000000000 + of_nat (intr_pos TIMER_INTR_TYPE (hart_target TIMER_INTR_TYPE demo_timer))) 0 demo_timer)"

lemma demo_user_fields:
  "m_reg demo_user = (\<lambda>_. 0)" "m_pc demo_user = 0x2000" "m_as demo_user = root_as"
  "bus_bytes demo_user = (\<lambda>a. demo_user_ram (a - 0x80000000))" "ram_size (m_ram demo_user) = 0x80000000"
  "cur_priv demo_user = U_MODE" "csrs demo_user = demo_user_csrs" "m_plic demo_user = plic_init"
  "m_clint demo_user = clint_init"
  by (simp_all add: demo_user_def demo_machine_fields ram_init_def bus_bytes_def)

lemma plic_init_sound: "plic_sound plic_init"
  by (simp add: plic_sound_def plic_init_inv) (simp add: plic_init_def eval_nat_numeral)

lemma demo_user_rel: "hart_rel demo_user demo_hart"
proof (rule hart_relI)
  have "csrs demo_user SSTATUS = 2"
    by (simp add: demo_user_fields demo_user_csrs_def)
  then show "same_status demo_user demo_hart"
    by (simp add: same_status_def demo_hart_def bit_numeral_rec)
qed (simp_all add: demo_user_fields demo_hart_def hart_ready_def same_core_state_def same_csrs_def same_lines_def
    clint_init_def plic_init_sound)

lemma hart_leaf:
  assumes "h_lvl s \<noteq> M_MODE" "drop_bit 60 (h_csrs s SATP) = 8" "canonical va" "unat va mod 4096 + n \<le> 4096"
    and "in_ram (take_bit 44 (h_csrs s SATP) * 4096 + vpn va 2 * 8) 8"
    and "load_le (h_mem s) (take_bit 44 (h_csrs s SATP) * 4096 + vpn va 2 * 8) 8 = pte"
    and "bit pte 0" "bit pte 1" "drop_bit 54 pte = 0" "permitted acc (h_lvl s) (h_mstatus s) pte"
    and "take_bit 18 (drop_bit 10 pte) = 0"
  shows "hart_translate acc n va s = Value (push_bit 30 (take_bit 26 (drop_bit 28 pte)) + take_bit 30 va)"
  using assms by (simp add: hart_translate_def Let_def hart_walk.simps [of _ _ 2])

lemma demo_pages:
  assumes "h_mem s = (\<lambda>a. demo_user_ram (a - 0x80000000))" "h_csrs s SATP = 0x8000000000080001"
  shows "h_lvl s = U_MODE \<Longrightarrow> h_pc s = 0x2000 \<Longrightarrow> hart_fetch s = Value 0x73"
    and "h_lvl s = S_MODE \<Longrightarrow> h_pc s = 0x80003000 \<Longrightarrow> hart_fetch s = Value 0x10200073"
proof -
  have root: "drop_bit 60 (0x8000000000080001 :: u64) = 8" "take_bit 44 (0x8000000000080001 :: u64) = 0x80001"
    by code_simp+
  have va: "canonical 0x2000" "canonical 0x80003000" "vpn 0x2000 2 = 0" "vpn 0x80003000 2 = 2"
    by code_simp+
  have pte: "load_le (\<lambda>a. demo_user_ram (a - 0x80000000)) 0x80001000 8 = 0x200000DF"
    "load_le (\<lambda>a. demo_user_ram (a - 0x80000000)) 0x80001010 8 = 0x200000CF"
    by code_simp+
  have insns: "load_le (\<lambda>a. demo_user_ram (a - 0x80000000)) 0x80002000 4 = 0x73"
    "load_le (\<lambda>a. demo_user_ram (a - 0x80000000)) 0x80003000 4 = 0x10200073"
    by code_simp+
  have leaf: "bit (0x200000DF :: u64) 0" "bit (0x200000DF :: u64) 1" "drop_bit 54 (0x200000DF :: u64) = 0"
    "take_bit 18 (drop_bit 10 (0x200000DF :: u64)) = 0"
    "bit (0x200000CF :: u64) 0" "bit (0x200000CF :: u64) 1" "drop_bit 54 (0x200000CF :: u64) = 0"
    "take_bit 18 (drop_bit 10 (0x200000CF :: u64)) = 0"
    by code_simp+
  have ok: "permitted Fetch_access U_MODE w 0x200000DF" "permitted Fetch_access S_MODE w 0x200000CF" for w
    by (simp_all add: permitted_def bit_numeral_rec)
  have pa: "push_bit 30 (take_bit 26 (drop_bit 28 (0x200000DF :: u64))) + take_bit 30 0x2000 = 0x80002000"
    "push_bit 30 (take_bit 26 (drop_bit 28 (0x200000CF :: u64))) + take_bit 30 0x80003000 = 0x80003000"
    by code_simp+
  {
    assume "h_lvl s = U_MODE" "h_pc s = 0x2000"
    moreover from this have "hart_translate Fetch_access 4 0x2000 s = Value 0x80002000"
      using hart_leaf [of s "0x2000" 4 "0x200000DF" Fetch_access] pa ok(1) leaf pte(1) va root assms
      by (simp add: in_ram_def)
    ultimately show "hart_fetch s = Value 0x73"
      using assms(1) insns by (simp add: hart_fetch_def hart_access_def in_ram_def Let_def)
  next
    assume "h_lvl s = S_MODE" "h_pc s = 0x80003000"
    moreover from this have "hart_translate Fetch_access 4 0x80003000 s = Value 0x80003000"
      using hart_leaf [of s "0x80003000" 4 "0x200000CF" Fetch_access] pa ok(2) leaf pte(2) va root assms
      by (simp add: in_ram_def)
    ultimately show "hart_fetch s = Value 0x10200073"
      using assms(1) insns by (simp add: hart_fetch_def hart_access_def in_ram_def Let_def)
  }
qed

lemma the_Some: "\<not> Option.is_none x \<Longrightarrow> the x = y \<Longrightarrow> x = Some y"
  by (cases x) simp_all

lemma demo_steps:
  "hart_step demo_hart demo_called" "hart_step demo_called demo_back" "hart_step demo_timer demo_interrupted"
proof -
  have mem: "h_mem demo_hart = (\<lambda>a. demo_user_ram (a - 0x80000000))" "h_mem demo_called = h_mem demo_hart"
    "h_csrs demo_hart SATP = 0x8000000000080001" "h_csrs demo_called SATP = 0x8000000000080001"
    by (simp_all add: demo_called_def hart_except_def hart_trap_def demo_hart_def demo_user_csrs_def bit_numeral_rec)
  have "undisturbed demo_hart" "\<not> Option.is_none (hart_except 8 0 demo_hart)" "h_lvl demo_hart = 0"
    "h_pc demo_hart = 0x2000"
    by code_simp+
  then show "hart_step demo_hart demo_called"
    using hart_step.ecall [of demo_hart demo_called] demo_pages(1) [OF mem(1,3)]
      the_Some [of "hart_except 8 0 demo_hart" demo_called]
    by (simp add: demo_called_def [symmetric] running_def)
  have "undisturbed demo_called" "\<not> Option.is_none (hart_sret demo_called)" "h_lvl demo_called = 1"
    "h_pc demo_called = 0x80003000"
    by code_simp+
  then show "hart_step demo_called demo_back"
    using hart_step.sret [of demo_called demo_back] demo_pages(2) [OF _ mem(4)] mem(1,2)
      the_Some [of "hart_sret demo_called" demo_back]
    by (simp add: demo_back_def [symmetric] running_def)
  have "takes TIMER_INTR_TYPE demo_timer" "0x1000 \<le> h_pc demo_timer"
    "\<not> Option.is_none (hart_trap (hart_target TIMER_INTR_TYPE demo_timer)
      (0x8000000000000000 + of_nat (intr_pos TIMER_INTR_TYPE (hart_target TIMER_INTR_TYPE demo_timer))) 0 demo_timer)"
    by code_simp+
  then show "hart_step demo_timer demo_interrupted"
    by (intro hart_step.interrupt the_Some) (simp_all add: demo_interrupted_def)
qed

definition demo_events :: "event list" where
  "demo_events = [Pass, Pass, Devices (clint_init\<lparr>timer_intr := True\<rparr>) plic_init (uart_init 0) 0, Pass]"

theorem cpu_refines_hart_witness:
  "\<exists>m'. run (machine_event 1) demo_events demo_user = Inr m' \<and> cur_priv m' = S_MODE \<and> m_pc m' = 0x80003000 \<and>
    csrs m' SCAUSE = 0x8000000000000005 \<and> csrs m' SEPC = 0x2000"
proof -
  have "spec_run hart_event demo_events demo_hart demo_interrupted"
    using demo_steps plic_init_sound unfolding demo_events_def
    by (auto intro!: spec_run.intros simp: hart_event_def demo_timer_def)
  from cpu_refines_hart [OF demo_user_rel this, of 0] obtain m' where
    m': "run (machine_event 1) demo_events demo_user = Inr m'" "hart_rel m' demo_interrupted"
    by auto
  have "h_lvl demo_interrupted = S_MODE" "h_pc demo_interrupted = 0x80003000"
    "h_csrs demo_interrupted SCAUSE = 0x8000000000000005" "h_csrs demo_interrupted SEPC = 0x2000"
    by code_simp+
  with m' show ?thesis
    using hart_rel_core [OF m'(2)] hart_rel_csr [OF m'(2), of SCAUSE] hart_rel_csr [OF m'(2), of SEPC] by auto
qed

end
