(* ===== verification/BlockIo.thy ===== *)
theory BlockIo
  imports Memory
begin

text \<open>
  The block device at work: what carrying out a request does to RAM, the disk image, the used
  ring, the interrupt status and the PLIC, when the buffers and rings of the driver are in RAM.
\<close>

lemma plic_signal_pending:
  assumes "plic_inv p" "irq \<noteq> 0" "irq < 160"
  shows "\<exists>p'. plic_signal irq p = Inr p' \<and>
    (\<forall>w k. bit (plic_pending p' ! w) k \<longleftrightarrow>
       bit (plic_pending p ! w) k \<or> w = unat irq div 32 \<and> k = unat irq mod 32)"
proof -
  let ?w = "unat irq div 32" and ?k = "unat irq mod 32"
  have irq: "unat irq < 160" using assms(3) by (simp add: word_less_nat_alt)
  then have w: "?w < length (plic_pending p)" using assms(1) by (simp add: plic_inv_def)
  have "plic_signal irq p =
      Inr (p\<lparr>plic_pending := (plic_pending p)[?w := plic_pending p ! ?w OR push_bit ?k 1]\<rparr>)"
    using assms(2) w
    by (simp add: plic_signal_def bit_pos_def array_get_def array_set_def unat_div unat_mod)
  then show ?thesis using bit_update_or [OF w, of ?k] by auto
qed

section \<open>Stores that only change RAM\<close>

definition put_bytes :: "machine \<Rightarrow> (u64 \<Rightarrow> u8) \<Rightarrow> machine" where
  "put_bytes m b = m\<lparr>m_ram := (m_ram m)\<lparr>ram_mem := (\<lambda>a. b (a + RAM_ADDRESS_SPACE_START))\<rparr>\<rparr>"

lemma put_bytes_simps [simp]:
  "bus_bytes (put_bytes m b) = b" "put_bytes (put_bytes m b) c = put_bytes m c"
  "put_bytes m (bus_bytes m) = m" "bus_ok (put_bytes m b) = bus_ok m"
  "m_blk (put_bytes m b) = m_blk m" "m_plic (put_bytes m b) = m_plic m"
  "m_as (put_bytes m b) = m_as m" "ram_size (m_ram (put_bytes m b)) = ram_size (m_ram m)"
  by (simp_all add: put_bytes_def bus_bytes_def bus_ok_def fun_eq_iff)

definition no_ram :: "machine \<Rightarrow> machine" where
  "no_ram m = m\<lparr>m_ram := ram_init\<rparr>"

lemma no_ram_put [simp]: "no_ram (put_bytes m b) = no_ram m"
  by (simp add: no_ram_def put_bytes_def)

lemma put_bytes_eqI:
  assumes "no_ram m' = no_ram m" "ram_size (m_ram m') = ram_size (m_ram m)"
  shows "m' = put_bytes m (bus_bytes m')"
proof -
  have "m' = (no_ram m')\<lparr>m_ram := m_ram m'\<rparr>" by (simp add: no_ram_def)
  also have "\<dots> = m\<lparr>m_ram := m_ram m'\<rparr>" by (simp add: assms(1)) (simp add: no_ram_def)
  also have "m_ram m' = (m_ram (put_bytes m (bus_bytes m')))"
    using assms(2) by (simp add: put_bytes_def bus_bytes_def)
  finally show ?thesis by (simp add: put_bytes_def)
qed

lemma bus_store:
  assumes "bus_ok m a sz"
  shows "\<exists>x. bus_write (Suc n) PARAMS_NONE m a v sz =
    Inr (x, put_bytes m (store_le (bus_bytes m) a v (unat sz)))"
proof -
  have sz: "access_size sz" using assms by (simp add: bus_ok_def)
  have "store_le (ram_mem (m_ram m)) (a - RAM_ADDRESS_SPACE_START) v (unat sz) =
      (\<lambda>b. store_le (bus_bytes m) a v (unat sz) (b + RAM_ADDRESS_SPACE_START))"
  proof
    fix x
    show "store_le (ram_mem (m_ram m)) (a - RAM_ADDRESS_SPACE_START) v (unat sz) x =
        store_le (bus_bytes m) a v (unat sz) (x + RAM_ADDRESS_SPACE_START)"
      using fun_cong [OF store_le_shift [of "ram_mem (m_ram m)" a RAM_ADDRESS_SPACE_START v "unat sz"],
          of "x + RAM_ADDRESS_SPACE_START"]
      by (simp only: bus_bytes_def add_diff_cancel_right')
  qed
  then show ?thesis
    using bus_write_ok [OF assms, of n PARAMS_NONE v] amo_new_None [OF sz]
    by (simp add: put_bytes_def del: bus_write.simps)
qed

interpretation bus_frame: byte_memory bus_read "bus_write (Suc n) PARAMS_NONE"
  "\<lambda>m a sz. bus_ok m a sz \<and> no_ram m = F" bus_bytes for n F
proof unfold_locales
  fix m a sz v
  assume ok: "bus_ok m a sz \<and> no_ram m = F"
  then show "unat sz \<le> 8" "bus_read m a sz = Inr (load_le (bus_bytes m) a (unat sz), m)"
    by (auto intro: bus_ram.ok_size bus_read_ok)
  show "\<exists>r m'. bus_write (Suc n) PARAMS_NONE m a v sz = Inr (r, m') \<and>
      bus_bytes m' = store_le (bus_bytes m) a v (unat sz) \<and>
      (\<forall>b t. (bus_ok m' b t \<and> no_ram m' = F) = (bus_ok m b t \<and> no_ram m = F))"
    using bus_store [of m a sz n v] ok by (auto simp del: bus_write.simps)
qed

definition in_ram_region :: "machine \<Rightarrow> u64 \<Rightarrow> nat \<Rightarrow> bool" where
  "in_ram_region m a n \<longleftrightarrow> m_as m = root_as \<and> ram_size (m_ram m) = 0x80000000 \<and>
     0x80000000 \<le> unat a \<and> unat a + n \<le> 0x100000000"

lemma in_ram_region_put [simp]: "in_ram_region (put_bytes m b) = in_ram_region m"
  by (simp add: in_ram_region_def fun_eq_iff)

lemma in_ram_blob_ok: "in_ram_region m a n \<Longrightarrow> blob_ok bus_ok m a n"
  by (auto simp: in_ram_region_def blob_ok_def bus_ok_def)

lemma as_write_blob_put:
  assumes "in_ram_region m a (length bs)" "a mod 8 = 0"
  shows "as_write_blob (bus_write (Suc n) PARAMS_NONE) a bs m = Inr (put_bytes m (store_bytes (bus_bytes m) a bs))"
proof -
  have "blob_ok (\<lambda>m' a sz. bus_ok m' a sz \<and> no_ram m' = no_ram m) m a (length bs)"
    using in_ram_blob_ok [OF assms(1)] by (simp add: blob_ok_def)
  then obtain m' where m': "write_blob_dwords (bus_write (Suc n) PARAMS_NONE) a bs m = Inr m'"
      "bus_bytes m' = store_bytes (bus_bytes m) a bs"
      "\<forall>b t. (bus_ok m' b t \<and> no_ram m' = no_ram m) = (bus_ok m b t \<and> no_ram m = no_ram m)"
    using bus_frame.write_blob_dwords_ok by blast
  have "bus_ok m 0x80000000 1"
    using assms(1) by (simp add: in_ram_region_def bus_ok_def access_size_def)
  then have "no_ram m' = no_ram m" "bus_ok m' 0x80000000 1" using m'(3) by blast+
  then have "m' = put_bytes m (bus_bytes m')"
    using assms(1) by (intro put_bytes_eqI) (simp_all add: bus_ok_def in_ram_region_def)
  then show ?thesis using m'(1,2) assms(2) by (simp add: as_write_blob_def)
qed

lemma as_read_blob_ram:
  "in_ram_region m a n \<Longrightarrow> a mod 8 = 0 \<Longrightarrow>
   as_read_blob bus_read a n m = Inr (map (\<lambda>i. bus_bytes m (a + of_nat i)) [0..<n], m)"
  using bus_ram.read_blob_dwords_ok [OF in_ram_blob_ok] by (simp add: as_read_blob_def)

section \<open>Regions apart\<close>

definition apart :: "u64 \<Rightarrow> nat \<Rightarrow> u64 \<Rightarrow> nat \<Rightarrow> bool" where
  "apart a n b k \<longleftrightarrow> unat a + n \<le> unat b \<or> unat b + k \<le> unat a"

lemma unat_plus_nat: "unat a + i < 2 ^ 64 \<Longrightarrow> unat (a + of_nat i :: u64) = unat a + i"
  by (simp add: unat_word_ariths take_bit_nat_eq_self unat_of_nat)

lemma apart_disjoint:
  assumes "apart a n b k" "unat a + n \<le> 2 ^ 64" "unat b + k \<le> 2 ^ 64"
  shows "disjoint_access a n b k"
  unfolding disjoint_access_def
proof (intro allI impI)
  fix i j
  assume "i < n" "j < k"
  then have "unat (a + of_nat i) = unat a + i" "unat (b + of_nat j) = unat b + j"
    using assms(2,3) by (auto intro!: unat_plus_nat)
  then show "a + of_nat i \<noteq> b + of_nat j"
    using assms(1) \<open>i < n\<close> \<open>j < k\<close> by (auto simp: apart_def)
qed

section \<open>Completing a request\<close>

text \<open>The place of the next used element, and the ring it is in.\<close>

definition used_slot :: "machine \<Rightarrow> nat" where
  "used_slot m = unat (used_idx (the_vq m)) mod unat (vring_num (the_vring m))"

definition used_elem :: "machine \<Rightarrow> u64" where
  "used_elem m = vring_used (the_vring m) + of_nat (4 + 8 * used_slot m)"

definition used_ring_ok :: "machine \<Rightarrow> bool" where
  "used_ring_ok m \<longleftrightarrow> 0 < vring_num (the_vring m) \<and>
     in_ram_region m (vring_used (the_vring m)) (4 + 8 * unat (vring_num (the_vring m)))"

lemma used_elem_unat:
  assumes "used_ring_ok m"
  shows "unat (used_elem m) = unat (vring_used (the_vring m)) + 4 + 8 * used_slot m"
    and "used_slot m < unat (vring_num (the_vring m))"
    and "unat (used_elem m + 4) = unat (used_elem m) + 4"
    and "unat (vring_used (the_vring m) + 2) = unat (vring_used (the_vring m)) + 2"
proof -
  let ?u = "vring_used (the_vring m)" and ?n = "unat (vring_num (the_vring m))"
  have u: "0 < ?n" "unat ?u + (4 + 8 * ?n) \<le> 0x100000000"
    using assms by (auto simp: used_ring_ok_def in_ram_region_def word_less_nat_alt)
  then show slot: "used_slot m < ?n" by (simp add: used_slot_def)
  show e: "unat (used_elem m) = unat ?u + 4 + 8 * used_slot m"
    unfolding used_elem_def using u slot by (subst unat_plus_nat) simp_all
  show "unat (used_elem m + 4) = unat (used_elem m) + 4"
    using unat_plus_nat [of "used_elem m" 4] e u slot by simp
  show "unat (?u + 2) = unat ?u + 2"
    using unat_plus_nat [of ?u 2] u by simp
qed

definition completed_bytes :: "vq_request_t \<Rightarrow> u64 \<Rightarrow> machine \<Rightarrow> u64 \<Rightarrow> u8" where
  "completed_bytes r st m =
     store_le (store_le (store_le (store_le (bus_bytes m) st 0 1)
       (used_elem m) (ucast (req_index r)) 4) (used_elem m + 4) (ucast (req_in_len r)) 4)
       (vring_used (the_vring m) + 2) (ucast (used_idx (the_vq m) + 1)) 2"

definition completed :: "vq_request_t \<Rightarrow> u64 \<Rightarrow> plic_t \<Rightarrow> machine \<Rightarrow> machine" where
  "completed r st p m =
     (put_bytes m (completed_bytes r st m))
       \<lparr>m_blk := (m_blk m)\<lparr>vdev_vq := (vdev_vq (m_blk m))\<lparr>used_idx := used_idx (vdev_vq (m_blk m)) + 1\<rparr>,
                        vdev_isr := vdev_isr (m_blk m) OR 1\<rparr>,
        m_plic := p\<rparr>"

lemma unat_widen: "unat (ucast (x :: u16) :: u32) = unat x"
  by transfer (simp add: take_bit_int_eq_self)

lemma of_nat_unat_u64: "of_nat (unat (x :: u32)) = (ucast x :: u64)"
  by simp

lemma bus_store_steps:
  assumes "bus_ok m a sz"
  obtains x where "bus_write (Suc n) PARAMS_NONE m a v sz =
    Inr (x, put_bytes m (store_le (bus_bytes m) a v (unat sz)))"
  using bus_store [OF assms] by blast

lemma complete_ok:
  assumes "array_get ''_complete'' (req_iov r) (unat (req_num r - 1)) = Inr iov"
    and "in_ram_region m (iov_base iov) 1" "used_ring_ok m"
    and "plic_signal (vdev_irq_num (m_blk m)) (m_plic m) = Inr p"
  shows "complete (bus_write (Suc n) PARAMS_NONE) r m = Inr (completed r (iov_base iov) p m)"
proof -
  let ?wr = "bus_write (Suc n) PARAMS_NONE" and ?st = "iov_base iov"
  let ?u = "vring_used (the_vring m)" and ?num = "vring_num (the_vring m)" and ?e = "used_elem m"
  note e = used_elem_unat [OF assms(3)]
  have ram: "m_as m = root_as" "ram_size (m_ram m) = 0x80000000" and num: "?num \<noteq> 0"
    and u: "0x80000000 \<le> unat ?u" "unat ?u + (4 + 8 * unat ?num) \<le> 0x100000000"
    using assms(3) by (auto simp: used_ring_ok_def in_ram_region_def)
  have ok: "bus_ok m ?st 1" "bus_ok m ?e 4" "bus_ok m (?e + 4) 4" "bus_ok m (?u + 2) 2"
    using assms(2) ram u e by (auto simp: bus_ok_def access_size_def in_ram_region_def)
  have slot: "?u + (4 + 8 * ucast (ucast (used_idx (the_vq m)) mod ?num)) = ?e"
    by (simp add: used_elem_def used_slot_def unat_mod unat_widen flip: of_nat_unat_u64)
  define m1 where "m1 = put_bytes m (store_le (bus_bytes m) ?st 0 1)"
  define m2 where "m2 = put_bytes m (store_le (bus_bytes m1) ?e (ucast (req_index r)) 4)"
  define m3 where "m3 = put_bytes m (store_le (bus_bytes m2) (?e + 4) (ucast (req_in_len r)) 4)"
  define m4 where "m4 = map_vq (\<lambda>q. q\<lparr>used_idx := used_idx q + 1\<rparr>) m3"
  define m5 where "m5 = put_bytes m4 (store_le (bus_bytes m4) (?u + 2) (ucast (used_idx (the_vq m) + 1)) 2)"
  have "bus_ok m4 (?u + 2) 2"
    using ok(4) by (simp add: m4_def m3_def map_vq_def bus_ok_def put_bytes_def)
  then obtain x1 x2 x3 x4 where x: "?wr m ?st 0 1 = Inr (x1, m1)"
    "?wr m1 ?e (ucast (req_index r)) 4 = Inr (x2, m2)"
    "?wr m2 (?e + 4) (ucast (req_in_len r)) 4 = Inr (x3, m3)"
    "?wr m4 (?u + 2) (ucast (used_idx (the_vq m) + 1)) 2 = Inr (x4, m5)"
    using bus_store [OF ok(1), of n 0] bus_store [of m1 ?e 4 n "ucast (req_index r)"]
      bus_store [of m2 "?e + 4" 4 n "ucast (req_in_len r)"]
      bus_store [of m4 "?u + 2" 2 n "ucast (used_idx (the_vq m) + 1)"] ok
    by (auto simp: m1_def m2_def m3_def m5_def simp del: bus_write.simps store_le.simps)
  have blk: "the_vq m1 = the_vq m" "the_vring m1 = the_vring m"
    "used_idx (the_vq m4) = used_idx (the_vq m) + 1" "the_vring m4 = the_vring m"
    "vdev_irq_num (m_blk m5) = vdev_irq_num (m_blk m)" "m_plic m5 = m_plic m"
    by (simp_all add: the_vq_def the_vring_def map_vq_def m1_def m2_def m3_def m4_def m5_def put_bytes_def)
  have "vring_used_write ?wr r m1 = Inr m5"
    unfolding vring_used_write_def vring_used_idx_set_def Let_def blk slot
    using num by (simp add: x blk m4_def [symmetric] del: bus_write.simps store_le.simps)
  then have "complete ?wr r m =
      Inr (m5\<lparr>m_blk := (m_blk m5)\<lparr>vdev_isr := vdev_isr (m_blk m5) OR 1\<rparr>, m_plic := p\<rparr>)"
    using assms(1,4) by (simp add: complete_def x blk Let_def del: bus_write.simps store_le.simps array_get_eq_Inr)
  also have "m5\<lparr>m_blk := (m_blk m5)\<lparr>vdev_isr := vdev_isr (m_blk m5) OR 1\<rparr>, m_plic := p\<rparr> =
      completed r ?st p m"
    by (simp add: completed_def completed_bytes_def m5_def m4_def m3_def m2_def m1_def map_vq_def
        put_bytes_def bus_bytes_def the_vq_def del: store_le.simps)
  finally show ?thesis .
qed

text \<open>What the driver sees of a completed request.\<close>

definition request_done :: "machine \<Rightarrow> vq_request_t \<Rightarrow> iovec_t \<Rightarrow> machine \<Rightarrow> bool" where
  "request_done m r st m' \<longleftrightarrow>
     bus_read m' (iov_base st) 1 = Inr (0, m') \<and>
     bus_read m' (used_elem m) 4 = Inr (ucast (req_index r), m') \<and>
     bus_read m' (used_elem m + 4) 4 = Inr (ucast (req_in_len r), m') \<and>
     bus_read m' (vring_used (the_vring m) + 2) 2 = Inr (ucast (used_idx (the_vq m) + 1), m') \<and>
     used_idx (the_vq m') = used_idx (the_vq m) + 1 \<and> bit (vdev_isr (m_blk m')) 0 \<and>
     (\<forall>w k. bit (plic_pending (m_plic m') ! w) k \<longleftrightarrow>
        bit (plic_pending (m_plic m) ! w) k \<or> w = 0 \<and> k = 1)"

abbreviation (input) ring_len :: "machine \<Rightarrow> nat" where
  "ring_len m \<equiv> 4 + 8 * unat (vring_num (the_vring m))"

lemma bus_ok_completed [simp]: "bus_ok (completed r st p m) = bus_ok m"
  by (simp add: completed_def bus_ok_def put_bytes_def fun_eq_iff)

lemma bus_bytes_completed [simp]: "bus_bytes (completed r st p m) = completed_bytes r st m"
  by (simp add: completed_def bus_bytes_def put_bytes_def fun_eq_iff)

lemma load_after:
  assumes "apart a n b k" "unat a + n \<le> 0x100000000" "unat b + k \<le> 0x100000000"
  shows "load_le (store_le mem b v k) a n = load_le mem a n"
  using assms by (intro load_store_le_disjoint apart_disjoint) simp_all

lemma completed_outside:
  assumes "used_ring_ok m" "in_ram_region m st 1" "unat a + n \<le> 0x100000000"
    and "apart a n st 1" "apart a n (vring_used (the_vring m)) (ring_len m)" "i < n"
  shows "completed_bytes r st m (a + of_nat i) = bus_bytes m (a + of_nat i)"
proof -
  note e = used_elem_unat [OF assms(1)]
  have u: "unat (vring_used (the_vring m)) + ring_len m \<le> 0x100000000" "unat st + 1 \<le> 0x100000000"
    using assms(1,2) by (auto simp: used_ring_ok_def in_ram_region_def)
  have out: "store_le mem b v k (a + of_nat i) = mem (a + of_nat i)"
    if "apart a n b k" "unat b + k \<le> 0x100000000" for mem b v k
  proof -
    have "disjoint_access a n b k" using that assms(3) by (intro apart_disjoint) simp_all
    then show ?thesis using assms(6) by (intro store_le_outside) (auto simp: disjoint_access_def)
  qed
  have "apart a n (used_elem m) 4" "apart a n (used_elem m + 4) 4" "apart a n (vring_used (the_vring m) + 2) 2"
    using assms(5) e u by (auto simp: apart_def)
  then show ?thesis
    using assms(4) e u by (simp add: completed_bytes_def out del: store_le.simps)
qed

lemma request_done_completed:
  assumes "used_ring_ok m" "in_ram_region m (iov_base st) 1"
    and "apart (iov_base st) 1 (vring_used (the_vring m)) (ring_len m)"
    and "plic_inv (m_plic m)" "plic_signal 1 (m_plic m) = Inr p"
  shows "request_done m r st (completed r (iov_base st) p m)"
proof -
  let ?m = "completed r (iov_base st) p m" and ?B = "completed_bytes r (iov_base st) m"
  let ?u = "vring_used (the_vring m)" and ?e = "used_elem m" and ?s = "iov_base st"
  note e = used_elem_unat [OF assms(1)]
  have u: "0x80000000 \<le> unat ?u" "unat ?u + ring_len m \<le> 0x100000000" "unat ?s + 1 \<le> 0x100000000"
    using assms(1,2) by (auto simp: used_ring_ok_def in_ram_region_def)
  have ok: "bus_ok m ?s 1" "bus_ok m ?e 4" "bus_ok m (?e + 4) 4" "bus_ok m (?u + 2) 2"
    using assms(1,2) u e by (auto simp: used_ring_ok_def bus_ok_def access_size_def in_ram_region_def)
  have apart: "apart ?s 1 ?e 4" "apart ?s 1 (?e + 4) 4" "apart ?s 1 (?u + 2) 2"
    "apart ?e 4 (?e + 4) 4" "apart ?e 4 (?u + 2) 2" "apart (?e + 4) 4 (?u + 2) 2"
    using assms(3) e u by (auto simp: apart_def)
  have rd: "bus_read ?m a sz = Inr (load_le ?B a (unat sz), ?m)" if "bus_ok m a sz" for a sz
    using bus_read_ok [of ?m a sz] that by simp
  have in_ram: "unat ?e + 4 \<le> 0x100000000" "unat (?e + 4) + 4 \<le> 0x100000000" "unat (?u + 2) + 2 \<le> 0x100000000"
    using e u by simp_all
  have low: "take_bit 32 (ucast w :: u64) = ucast w" "take_bit 16 (ucast v :: u64) = ucast v"
    for w :: u32 and v :: u16
    by (rule bit_word_eqI; auto simp: bit_simps dest: bit_imp_le_length)+
  have "load_le ?B ?s 1 = 0" "load_le ?B ?e 4 = ucast (req_index r)"
    "load_le ?B (?e + 4) 4 = ucast (req_in_len r)" "load_le ?B (?u + 2) 2 = ucast (used_idx (the_vq m) + 1)"
    using apart u in_ram
    by (simp_all add: completed_bytes_def load_after load_store_le low del: store_le.simps load_le.simps)
  then have "bus_read ?m ?s 1 = Inr (0, ?m)" "bus_read ?m ?e 4 = Inr (ucast (req_index r), ?m)"
    "bus_read ?m (?e + 4) 4 = Inr (ucast (req_in_len r), ?m)"
    "bus_read ?m (?u + 2) 2 = Inr (ucast (used_idx (the_vq m) + 1), ?m)"
    using rd ok by simp_all
  moreover have "bit (plic_pending p ! w) k \<longleftrightarrow> bit (plic_pending (m_plic m) ! w) k \<or> w = 0 \<and> k = 1" for w k
    using plic_signal_pending [OF assms(4), of 1] assms(5) by simp
  ultimately show ?thesis
    by (simp add: request_done_def completed_def the_vq_def bit_simps)
qed

section \<open>Requests of the driver\<close>

text \<open>
  A request with one data buffer, as a driver lays it out: a header the device reads, the
  buffer, and a byte for the status, all in RAM and clear of the used ring.
\<close>

definition blk_request :: "machine \<Rightarrow> vq_request_t \<Rightarrow> iovec_t \<Rightarrow> iovec_t \<Rightarrow> iovec_t \<Rightarrow> bool" where
  "blk_request m r hdr dat st \<longleftrightarrow>
     req_iov r = [hdr, dat, st] \<and> req_num r = 3 \<and>
     iov_len hdr = 16 \<and> iov_flags hdr = IO_VEC_F_READ \<and>
     iov_base hdr mod 8 = 0 \<and> iov_base dat mod 8 = 0 \<and>
     in_ram_region m (iov_base hdr) 16 \<and> in_ram_region m (iov_base dat) (unat (iov_len dat)) \<and>
     in_ram_region m (iov_base st) 1 \<and> used_ring_ok m \<and>
     apart (iov_base dat) (unat (iov_len dat)) (iov_base st) 1 \<and>
     apart (iov_base dat) (unat (iov_len dat)) (vring_used (the_vring m)) (ring_len m) \<and>
     apart (iov_base st) 1 (vring_used (the_vring m)) (ring_len m) \<and>
     plic_inv (m_plic m) \<and> vdev_irq_num (m_blk m) = 1"

definition request_type :: "machine \<Rightarrow> iovec_t \<Rightarrow> u32" where
  "request_type m hdr = ucast (load_le (bus_bytes m) (iov_base hdr) 4)"

definition request_sector :: "machine \<Rightarrow> iovec_t \<Rightarrow> u64" where
  "request_sector m hdr = load_le (bus_bytes m) (iov_base hdr + 8) 8"

lemma le_word_bytes: "n \<le> 8 \<Longrightarrow> le_word (map (\<lambda>i. mem (a + of_nat i)) [0..<n]) = load_le mem a n"
  by (rule bit_word_eqI) (auto simp: bit_le_word bit_load_le)

lemma do_request_kind:
  assumes "blk_request m r hdr dat st"
  shows "do_request bus_read wr r m =
    (if request_type m hdr = VIRTIO_BLK_T_OUT then handle_write bus_read wr r (request_sector m hdr) m
     else if request_type m hdr = 0 then handle_read wr r (request_sector m hdr) m
     else do_request bus_read wr r m)"
proof -
  let ?bs = "map (\<lambda>i. bus_bytes m (iov_base hdr + of_nat i)) [0..<16]"
  have hdr: "as_read_blob bus_read (iov_base hdr) 16 m = Inr (?bs, m)"
    using assms by (intro as_read_blob_ram) (simp_all add: blk_request_def)
  have "take 4 ?bs = map (\<lambda>i. bus_bytes m (iov_base hdr + of_nat i)) [0..<4]"
    by (simp add: take_map)
  moreover have "take 8 (drop 8 ?bs) = map (\<lambda>i. bus_bytes m (iov_base hdr + 8 + of_nat i)) [0..<8]"
    by (rule nth_equalityI) (simp_all add: add.assoc)
  ultimately have "le_word (take 4 ?bs) = load_le (bus_bytes m) (iov_base hdr) 4"
    "le_word (take 8 (drop 8 ?bs)) = request_sector m hdr"
    using le_word_bytes [of 4] le_word_bytes [of 8] by (simp_all add: request_sector_def)
  then have t: "ucast (le_word (take 4 ?bs)) = request_type m hdr"
    "le_word (take 8 (drop 8 ?bs)) = request_sector m hdr" by (simp_all add: request_type_def)
  have hdr0: "array_get ''_do_request'' (req_iov r) 0 = Inr hdr" "iov_len hdr = 16"
      "iov_flags hdr AND IO_VEC_F_READ \<noteq> 0"
    using assms by (simp_all add: blk_request_def)
  have "do_request bus_read wr r m =
      (let type = request_type m hdr; kind = type AND NOT (VIRTIO_BLK_T_OUT OR VIRTIO_BLK_T_BARRIER) in
       if kind = 0 then
         (if type AND VIRTIO_BLK_T_OUT \<noteq> 0 then handle_write bus_read wr r (request_sector m hdr) m
          else handle_read wr r (request_sector m hdr) m)
       else if kind = VIRTIO_BLK_T_FLUSH then handle_flush wr r m
       else Inl (Panic ''_do_request''))"
    unfolding do_request_def hdr0(1) and_then_Inr hdr prod.case t Let_def using hdr0(2,3) by simp
  then show ?thesis by (simp add: Let_def)
qed

lemma file_seek_ok:
  assumes "512 * unat sector < 2 ^ 63"
  shows "file_seek f sector = Inr (512 * unat sector)"
proof -
  have "unat sector < 0x40000000000000" using assms by simp
  then have "nat (uint sector) < 0x40000000000000" by (simp only: nat_uint_eq)
  then have u: "uint sector < 0x40000000000000" by linarith
  have "- (2 ^ 63) \<le> uint sector" "uint sector < 2 ^ 63"
    using u order.trans [OF _ uint_ge_0 [of sector], of "- (2 ^ 63)"] by simp_all
  then have "signed_take_bit 63 (uint sector) = uint sector" by (rule signed_take_bit_int_eq_self)
  then have "sint sector = uint sector" using sint_uint [of sector] by simp
  moreover have "\<not> uint sector * 512 < - 0x8000000000000000" "\<not> 0x8000000000000000 \<le> uint sector * 512"
      "\<not> uint sector * 512 < 0"
    using u uint_ge_0 [of sector] by linarith+
  moreover have "nat (uint sector * 512) = 512 * unat sector"
    by (simp only: nat_mult_distrib [OF uint_ge_0]) simp
  ultimately show ?thesis by (simp only: file_seek_def Let_def) (simp, use uint_ge_0 [of sector] in linarith)
qed

lemma third: "array_get f [x, y, z] 2 = Inr z"
  by (simp add: array_get_def numeral_2_eq_2)

lemma unat_two: "unat (2 :: u32) = 2"
  by simp

lemma complete_blk_request:
  assumes "blk_request m r hdr dat st"
  obtains p where "plic_signal 1 (m_plic m) = Inr p"
    "complete (bus_write (Suc n) PARAMS_NONE) r m = Inr (completed r (iov_base st) p m)"
    "request_done m r st (completed r (iov_base st) p m)"
proof -
  obtain p where p: "plic_signal 1 (m_plic m) = Inr p"
    using plic_signal_pending [of "m_plic m" 1] assms by (auto simp: blk_request_def)
  have "req_num r - 1 = 2" "req_iov r = [hdr, dat, st]" using assms by (simp_all add: blk_request_def)
  then have "array_get ''_complete'' (req_iov r) (unat (req_num r - 1)) = Inr st"
    by (simp only: third unat_two)
  then have "complete (bus_write (Suc n) PARAMS_NONE) r m = Inr (completed r (iov_base st) p m)"
    using assms p by (intro complete_ok) (simp_all add: blk_request_def)
  moreover have "request_done m r st (completed r (iov_base st) p m)"
    using assms p by (intro request_done_completed) (simp_all add: blk_request_def)
  ultimately show thesis using that p by blast
qed

text \<open>A read request, with the machine it ends in.\<close>

definition sectors :: "machine \<Rightarrow> iovec_t \<Rightarrow> iovec_t \<Rightarrow> u8 list \<Rightarrow> u8 list" where
  "sectors m hdr dat file = take (unat (iov_len dat)) (drop (512 * unat (request_sector m hdr)) file)"

definition filled :: "machine \<Rightarrow> iovec_t \<Rightarrow> iovec_t \<Rightarrow> u8 list \<Rightarrow> machine" where
  "filled m hdr dat file = put_bytes m (store_bytes (bus_bytes m) (iov_base dat) (sectors m hdr dat file))"

lemma blk_read_completed:
  assumes "blk_request m r hdr dat st" "request_type m hdr = 0" "blk_file (m_blk m) = Some file"
    and "512 * unat (request_sector m hdr) + unat (iov_len dat) \<le> length file" "length file < 2 ^ 63"
  obtains p where "plic_signal 1 (m_plic m) = Inr p"
    "do_request bus_read (bus_write (Suc n) PARAMS_NONE) r m = Inr (completed r (iov_base st) p (filled m hdr dat file))"
    "map (\<lambda>i. completed_bytes r (iov_base st) (filled m hdr dat file) (iov_base dat + of_nat i)) [0..<unat (iov_len dat)] =
       sectors m hdr dat file"
    "request_done m r st (completed r (iov_base st) p (filled m hdr dat file))"
proof -
  let ?len = "unat (iov_len dat)" and ?a = "iov_base dat" and ?data = "sectors m hdr dat file"
  let ?wr = "bus_write (Suc n) PARAMS_NONE" and ?m1 = "filled m hdr dat file"
  have len: "length ?data = ?len" using assms(4) by (simp add: sectors_def)
  have "in_ram_region m ?a (length ?data)" "?a mod 8 = 0"
    using assms(1) by (simp_all add: blk_request_def len)
  then have wr: "as_write_blob ?wr ?a ?data m = Inr ?m1" by (simp add: filled_def as_write_blob_put)
  have same: "m_blk ?m1 = m_blk m" "the_vq ?m1 = the_vq m" "the_vring ?m1 = the_vring m" "used_elem ?m1 = used_elem m"
      "m_plic ?m1 = m_plic m"
    by (simp_all add: filled_def the_vq_def the_vring_def used_elem_def used_slot_def)
  have req1: "blk_request ?m1 r hdr dat st"
    using assms(1) by (simp add: blk_request_def used_ring_ok_def same) (simp add: filled_def)
  then obtain p where p: "plic_signal 1 (m_plic ?m1) = Inr p" "complete ?wr r ?m1 = Inr (completed r (iov_base st) p ?m1)"
      "request_done ?m1 r st (completed r (iov_base st) p ?m1)"
    by (rule complete_blk_request)
  have segs: "req_iov r = [hdr, dat, st]" "req_num r = 3"
    using assms(1) by (simp_all add: blk_request_def)
  have "do_request bus_read ?wr r m = handle_read ?wr r (request_sector m hdr) m"
    by (subst do_request_kind [OF assms(1)]) (simp add: assms(2))
  also have "\<dots> = Inr (completed r (iov_base st) p ?m1)"
    using assms(4,5) len wr p(2)
    by (simp add: handle_read_def segs assms(3) file_seek_ok file_read_def Let_def flip: sectors_def
        del: bus_write.simps)
  finally have run: "do_request bus_read ?wr r m = Inr (completed r (iov_base st) p ?m1)" .
  have bytes: "map (\<lambda>i. completed_bytes r (iov_base st) ?m1 (?a + of_nat i)) [0..<?len] = ?data"
  proof (rule nth_equalityI)
    fix i
    assume "i < length (map (\<lambda>i. completed_bytes r (iov_base st) ?m1 (?a + of_nat i)) [0..<?len])"
    then have i: "i < ?len" by simp
    have "completed_bytes r (iov_base st) ?m1 (?a + of_nat i) = bus_bytes ?m1 (?a + of_nat i)"
      using req1 i by (intro completed_outside) (auto simp: blk_request_def in_ram_region_def)
    also have "\<dots> = ?data ! i"
    proof -
      have "unat (of_nat i :: u64) = i"
        using i assms(1) by (simp add: unat_of_nat take_bit_nat_eq_self blk_request_def in_ram_region_def)
      then show ?thesis using i len by (simp add: filled_def store_bytes_def)
    qed
    finally show "map (\<lambda>i. completed_bytes r (iov_base st) ?m1 (?a + of_nat i)) [0..<?len] ! i = ?data ! i"
      using i by simp
  qed (simp add: len)
  have "request_done m r st (completed r (iov_base st) p ?m1)"
    using p(3) by (simp add: request_done_def same)
  with that [OF _ run bytes] p(1) show thesis by (simp add: same)
qed

text \<open>C25.  A read request delivers the sectors it names: the device fills the buffer from the disk
  image, writes the status, publishes the used element and its index, and raises its interrupt.
\<close>

theorem blk_read_request:
  assumes "blk_request m r hdr dat st" "request_type m hdr = 0" "blk_file (m_blk m) = Some file"
    and "512 * unat (request_sector m hdr) + unat (iov_len dat) \<le> length file" "length file < 2 ^ 63"
  shows "\<exists>m'. do_request bus_read (bus_write (Suc n) PARAMS_NONE) r m = Inr m' \<and>
    as_read_blob bus_read (iov_base dat) (unat (iov_len dat)) m' =
      Inr (take (unat (iov_len dat)) (drop (512 * unat (request_sector m hdr)) file), m') \<and>
    blk_file (m_blk m') = Some file \<and> request_done m r st m'"
proof -
  let ?len = "unat (iov_len dat)" and ?a = "iov_base dat"
  obtain p where p: "do_request bus_read (bus_write (Suc n) PARAMS_NONE) r m =
      Inr (completed r (iov_base st) p (filled m hdr dat file))"
    "map (\<lambda>i. completed_bytes r (iov_base st) (filled m hdr dat file) (?a + of_nat i)) [0..<?len] = sectors m hdr dat file"
    "request_done m r st (completed r (iov_base st) p (filled m hdr dat file))"
    using blk_read_completed [OF assms, of n thesis] by blast
  let ?m' = "completed r (iov_base st) p (filled m hdr dat file)"
  have "in_ram_region ?m' ?a ?len" "?a mod 8 = 0"
    using assms(1) by (simp_all add: blk_request_def in_ram_region_def completed_def put_bytes_def filled_def)
  then have "as_read_blob bus_read ?a ?len ?m' = Inr (sectors m hdr dat file, ?m')"
    using p(2) by (simp add: as_read_blob_ram)
  moreover have "blk_file (m_blk ?m') = Some file"
    using assms(3) by (simp add: completed_def filled_def)
  ultimately show ?thesis
    using p(1,3) unfolding sectors_def by blast
qed

lemma file_write_data:
  assumes "data \<noteq> []"
  shows "take (length data) (drop pos (file_write file pos data)) = data"
    and "length (file_write file pos data) = max (length file) (pos + length data)"
    and "i < length file \<Longrightarrow> i < pos \<or> pos + length data \<le> i \<Longrightarrow> file_write file pos data ! i = file ! i"
  using assms by (auto simp: file_write_def nth_append)

text \<open>C26.  A write request stores the buffer in the disk image at the sector it names and changes
  nothing else of the image; then it completes as a read does.
\<close>

theorem blk_write_request:
  assumes "blk_request m r hdr dat st" "request_type m hdr = VIRTIO_BLK_T_OUT" "blk_file (m_blk m) = Some file"
    and "512 * unat (request_sector m hdr) < 2 ^ 63" "iov_len dat \<noteq> 0"
  shows "\<exists>m' data file'. do_request bus_read (bus_write (Suc n) PARAMS_NONE) r m = Inr m' \<and>
    as_read_blob bus_read (iov_base dat) (unat (iov_len dat)) m = Inr (data, m) \<and>
    blk_file (m_blk m') = Some file' \<and>
    take (unat (iov_len dat)) (drop (512 * unat (request_sector m hdr)) file') = data \<and>
    length file' = max (length file) (512 * unat (request_sector m hdr) + unat (iov_len dat)) \<and>
    (\<forall>i<length file. i < 512 * unat (request_sector m hdr) \<or>
       512 * unat (request_sector m hdr) + unat (iov_len dat) \<le> i \<longrightarrow> file' ! i = file ! i) \<and>
    request_done m r st m'"
proof -
  let ?len = "unat (iov_len dat)" and ?a = "iov_base dat" and ?pos = "512 * unat (request_sector m hdr)"
  let ?wr = "bus_write (Suc n) PARAMS_NONE"
  define data where "data = map (\<lambda>i. bus_bytes m (?a + of_nat i)) [0..<?len]"
  define file' where "file' = file_write file ?pos data"
  define m1 where "m1 = m\<lparr>m_blk := (m_blk m)\<lparr>blk_file := Some file'\<rparr>\<rparr>"
  have len: "length data = ?len" "data \<noteq> []"
    using assms(5) by (simp_all add: data_def word_neq_0_conv word_less_nat_alt)
  have rd: "as_read_blob bus_read ?a ?len m = Inr (data, m)"
    unfolding data_def using assms(1) by (intro as_read_blob_ram) (simp_all add: blk_request_def)
  have same: "the_vq m1 = the_vq m" "the_vring m1 = the_vring m" "used_elem m1 = used_elem m"
      "m_plic m1 = m_plic m"
    by (simp_all add: m1_def the_vq_def the_vring_def used_elem_def used_slot_def)
  have "in_ram_region m1 = in_ram_region m" by (simp add: m1_def in_ram_region_def fun_eq_iff)
  then have "blk_request m1 r hdr dat st"
    using assms(1) by (simp add: blk_request_def used_ring_ok_def same) (simp add: m1_def)
  then obtain p where p: "complete ?wr r m1 = Inr (completed r (iov_base st) p m1)"
      "request_done m1 r st (completed r (iov_base st) p m1)"
    by (rule complete_blk_request)
  let ?m' = "completed r (iov_base st) p m1"
  have r: "req_iov r = [hdr, dat, st]" "req_num r = 3" using assms(1) by (simp_all add: blk_request_def)
  have "do_request bus_read ?wr r m = handle_write bus_read ?wr r (request_sector m hdr) m"
    by (subst do_request_kind [OF assms(1)]) (simp add: assms(2))
  also have "\<dots> = complete ?wr r m1"
    using rd by (simp add: handle_write_def r array_get_def assms(3) file_seek_ok [OF assms(4)] flip: file'_def m1_def
        del: bus_write.simps)
  finally have "do_request bus_read ?wr r m = Inr ?m'" using p(1) by simp
  moreover have "blk_file (m_blk ?m') = Some file'" by (simp add: completed_def m1_def)
  moreover have "request_done m r st ?m'" using p(2) by (simp add: request_done_def same)
  moreover have "take ?len (drop ?pos file') = data" "length file' = max (length file) (?pos + ?len)"
    "\<forall>i<length file. i < ?pos \<or> ?pos + ?len \<le> i \<longrightarrow> file' ! i = file ! i"
    using file_write_data [OF len(2)] by (simp_all add: file'_def len(1))
  ultimately show ?thesis using rd by blast
qed

section \<open>Examples\<close>

definition demo_iov :: "u64 \<Rightarrow> u64 \<Rightarrow> u32 \<Rightarrow> iovec_t" where
  "demo_iov a n f = \<lparr>iov_base = a, iov_len = n, iov_flags = f\<rparr>"

definition demo_request :: vq_request_t where
  "demo_request = \<lparr>req_index = 0, req_in_len = 3, req_num = 3,
     req_iov = [demo_iov 0x80001000 16 1, demo_iov 0x80002000 2 2, demo_iov 0x80003000 1 2]\<rparr>"

definition demo_disk :: "u8 \<Rightarrow> machine" where
  "demo_disk t = (put_bytes demo_machine (\<lambda>a. if a = 0x80001000 then t else 0))
     \<lparr>m_blk := (m_blk demo_machine)
       \<lparr>vdev_irq_num := 1, blk_file := Some [5, 6, 7, 8],
        vdev_vq := \<lparr>vq_vring = \<lparr>vring_num = 8, vring_num_default = 0, vring_align_field = 4096,
            vring_desc = 0x80004000, vring_avail = 0x80004080, vring_used = 0x80005000\<rparr>,
          last_avail_idx = 0, used_idx = 0\<rparr>\<rparr>\<rparr>"

lemma load_le_zero: "(\<And>i. i < n \<Longrightarrow> mem (a + of_nat i) = 0) \<Longrightarrow> load_le mem a n = 0"
  by (rule bit_word_eqI) (auto simp: bit_load_le)

lemma load_le_first: "load_le mem a 4 = ucast (mem a) OR push_bit 8 (load_le mem (a + 1) 3)"
  by (simp add: numeral_eq_Suc)

lemma less_3: "i < 3 \<Longrightarrow> i \<in> {0, 1, 2 :: nat}"
  by auto

lemma less_8: "i < 8 \<Longrightarrow> i \<in> {0, 1, 2, 3, 4, 5, 6, 7 :: nat}"
  by auto

lemma demo_disk_request:
  "blk_request (demo_disk t) demo_request (demo_iov 0x80001000 16 1) (demo_iov 0x80002000 2 2) (demo_iov 0x80003000 1 2)"
  "request_type (demo_disk t) (demo_iov 0x80001000 16 1) = ucast t"
  "request_sector (demo_disk t) (demo_iov 0x80001000 16 1) = 0"
  "blk_file (m_blk (demo_disk t)) = Some [5, 6, 7, 8]"
proof -
  have m: "m_as (demo_disk t) = root_as" "ram_size (m_ram (demo_disk t)) = 0x80000000"
    "plic_inv (m_plic (demo_disk t))"
    "bus_bytes (demo_disk t) = (\<lambda>a. if a = 0x80001000 then t else 0)"
    by (simp_all add: demo_disk_def demo_machine_fields plic_init_inv ram_init_def put_bytes_def bus_bytes_def
        fun_eq_iff)
  show "blk_request (demo_disk t) demo_request (demo_iov 0x80001000 16 1) (demo_iov 0x80002000 2 2) (demo_iov 0x80003000 1 2)"
    using m by (simp add: blk_request_def demo_request_def demo_iov_def used_ring_ok_def in_ram_region_def apart_def)
      (simp add: demo_disk_def the_vring_def the_vq_def)
  show "request_type (demo_disk t) (demo_iov 0x80001000 16 1) = ucast t"
  proof -
    have "load_le (bus_bytes (demo_disk t)) (0x80001000 + 1) 3 = 0"
      by (rule load_le_zero) (use less_3 in \<open>fastforce simp: m\<close>)
    then have "load_le (bus_bytes (demo_disk t)) 0x80001000 4 = ucast t"
      unfolding load_le_first by (simp add: m)
    then show ?thesis by (simp add: request_type_def demo_iov_def ucast_up_ucast is_up.rep_eq)
  qed
  show "request_sector (demo_disk t) (demo_iov 0x80001000 16 1) = 0"
    unfolding request_sector_def
    by (rule load_le_zero) (use less_8 in \<open>fastforce simp: m demo_iov_def\<close>)
qed (simp add: demo_disk_def)

lemma blk_read_request_witness:
  "\<exists>m'. do_request bus_read (bus_write 1 PARAMS_NONE) demo_request (demo_disk 0) = Inr m' \<and>
     as_read_blob bus_read 0x80002000 2 m' = Inr ([5, 6], m')"
  using blk_read_request [of "demo_disk 0" demo_request "demo_iov 0x80001000 16 1" "demo_iov 0x80002000 2 2"
      "demo_iov 0x80003000 1 2" "[5, 6, 7, 8]" 0]
  by (auto simp: demo_disk_request) (auto simp: demo_iov_def)

lemma blk_write_request_witness:
  "\<exists>m' file'. do_request bus_read (bus_write 1 PARAMS_NONE) demo_request (demo_disk 1) = Inr m' \<and>
     blk_file (m_blk m') = Some file' \<and> file' ! 3 = 8"
  using blk_write_request [of "demo_disk 1" demo_request "demo_iov 0x80001000 16 1" "demo_iov 0x80002000 2 2"
      "demo_iov 0x80003000 1 2" "[5, 6, 7, 8]" 0]
  by (auto simp: demo_disk_request) (auto simp: demo_iov_def)

end
