(* ===== verification/VirtQueue.thy ===== *)
theory VirtQueue
  imports BlockIo
begin

section \<open>Taking a request off the queue\<close>

abbreviation the_avail_idx :: "machine \<Rightarrow> u16" where
  "the_avail_idx m \<equiv> ucast (load_le (bus_bytes m) (vring_avail (the_vring m) + 2) 2)"

definition head_addr :: "machine \<Rightarrow> u64" where
  "head_addr m = vring_avail (the_vring m) +
     (4 + 2 * ucast (ucast (last_avail_idx (the_vq m)) mod vring_num (the_vring m)))"

definition the_head :: "machine \<Rightarrow> u32" where
  "the_head m = ucast (ucast (load_le (bus_bytes m) (head_addr m) 2) :: u16)"

definition event_addr :: "machine \<Rightarrow> u64" where
  "event_addr m = vring_used (the_vring m) + (4 + 8 * ucast (vring_num (the_vring m)))"

definition desc_at :: "(u64 \<Rightarrow> u8) \<Rightarrow> u64 \<Rightarrow> vring_desc_t" where
  "desc_at mem a = parse_desc (map (\<lambda>i. mem (a + of_nat i)) [0..<16])"

text \<open>A descriptor in RAM, clear of the word \<open>e\<close>.\<close>

definition desc_ok :: "machine \<Rightarrow> u64 \<Rightarrow> u64 \<Rightarrow> bool" where
  "desc_ok m e a \<longleftrightarrow> in_ram_region m a 16 \<and> a mod 8 = 0 \<and> apart a 16 e 2"

text \<open>The descriptors a driver has chained in the table at \<open>tab\<close>, from the offset \<open>off\<close> on.\<close>

fun desc_chain :: "machine \<Rightarrow> u64 \<Rightarrow> u64 \<Rightarrow> u64 \<Rightarrow> vring_desc_t list \<Rightarrow> bool" where
  "desc_chain m e tab off [] = False"
| "desc_chain m e tab off (d # ds) \<longleftrightarrow>
     desc_ok m e (tab + off) \<and> desc_at (bus_bytes m) (tab + off) = d \<and>
     (if desc_flags d AND VRING_DESC_F_NEXT = 0 then ds = []
      else desc_chain m e tab (ucast (desc_next d) * 16) ds)"

definition written_len :: "vring_desc_t list \<Rightarrow> u32" where
  "written_len ds = sum_list (map desc_len (filter (\<lambda>d. desc_flags d AND VRING_DESC_F_WRITE \<noteq> 0) ds))"

lemma read_desc: "desc_ok m e a \<Longrightarrow>
  as_read_blob bus_read a 16 m = Inr (map (\<lambda>i. bus_bytes m (a + of_nat i)) [0..<16], m)"
  unfolding desc_ok_def by (intro as_read_blob_ram) simp_all

lemma read_chain_ok:
  "desc_chain m e tab off ds \<Longrightarrow> length iov + length ds \<le> 1024 \<Longrightarrow>
   read_chain bus_read tab off iov in_len m = Inr ((iov @ map desc_iov ds, in_len + written_len ds), m)"
proof (induction ds arbitrary: off iov in_len)
  case (Cons d ds)
  have rd: "as_read_blob bus_read (tab + off) 16 m =
      Inr (map (\<lambda>i. bus_bytes m (tab + off + of_nat i)) [0..<16], m)"
    using Cons.prems by (intro read_desc [of m e]) simp
  have d: "parse_desc (map (\<lambda>i. bus_bytes m (tab + off + of_nat i)) [0..<16]) = d"
    using Cons.prems by (simp add: desc_at_def)
  let ?in = "if desc_flags d AND VRING_DESC_F_WRITE \<noteq> 0 then in_len + desc_len d else in_len"
  have step: "read_chain bus_read tab off iov in_len m =
      (if desc_flags d AND VRING_DESC_F_NEXT = 0 then Inr ((iov @ [desc_iov d], ?in), m)
       else read_chain bus_read tab (ucast (desc_next d) * 16) (iov @ [desc_iov d]) ?in m)"
    using Cons.prems by (subst read_chain.simps) (simp only: rd d and_then_Inr prod.case Let_def, simp)
  have len: "?in + written_len ds = in_len + written_len (d # ds)"
    by (simp add: written_len_def)
  show ?case
  proof (cases "desc_flags d AND VRING_DESC_F_NEXT = 0")
    case True
    then show ?thesis using step Cons.prems len by (simp add: written_len_def)
  next
    case False
    then have "read_chain bus_read tab (ucast (desc_next d) * 16) (iov @ [desc_iov d]) ?in m =
        Inr (((iov @ [desc_iov d]) @ map desc_iov ds, ?in + written_len ds), m)"
      using Cons.prems by (intro Cons.IH) simp_all
    then show ?thesis using step False len by simp
  qed
qed simp

lemma desc_store_apart:
  assumes "desc_ok m e a" "unat e + 2 \<le> 0x100000000"
  shows "desc_at (store_le (bus_bytes m) e v 2) a = desc_at (bus_bytes m) a"
proof -
  have "disjoint_access a 16 e 2"
    using assms by (intro apart_disjoint) (simp_all add: desc_ok_def in_ram_region_def)
  then have "store_le (bus_bytes m) e v 2 (a + of_nat i) = bus_bytes m (a + of_nat i)" if "i < 16" for i
    using that by (intro store_le_outside) (auto simp: disjoint_access_def)
  then have "map (\<lambda>i. store_le (bus_bytes m) e v 2 (a + of_nat i)) [0..<16] =
      map (\<lambda>i. bus_bytes m (a + of_nat i)) [0..<16]"
    by (intro map_cong) auto
  then show ?thesis by (simp only: desc_at_def)
qed

lemma desc_chain_store:
  assumes "unat e + 2 \<le> 0x100000000" "m_as m' = m_as m" "ram_size (m_ram m') = ram_size (m_ram m)"
    and "bus_bytes m' = store_le (bus_bytes m) e v 2 \<or> bus_bytes m' = bus_bytes m"
  shows "desc_chain m e tab off ds \<Longrightarrow> desc_chain m' e tab off ds"
proof (induction ds arbitrary: off)
  case (Cons d ds)
  have "desc_ok m' e (tab + off)"
    using Cons.prems assms(2,3) by (simp add: desc_ok_def in_ram_region_def)
  moreover have "desc_at (bus_bytes m') (tab + off) = d"
    using Cons.prems assms(4) desc_store_apart [OF _ assms(1)] by auto
  ultimately show ?case using Cons by (auto split: if_splits)
qed simp

text \<open>The machine after a request was taken off.\<close>

definition popped :: "machine \<Rightarrow> machine" where
  "popped m =
    (let m1 = map_vq (\<lambda>q. q\<lparr>last_avail_idx := last_avail_idx q + 1\<rparr>) m in
     if virtio_dev_has_feature VIRTIO_RING_F_EVENT_IDX m
     then put_bytes m1 (store_le (bus_bytes m) (event_addr m) (ucast (last_avail_idx (the_vq m) + 1)) 2)
     else m1)"

lemma popped_simps [simp]:
  "the_vring (popped m) = the_vring m" "last_avail_idx (the_vq (popped m)) = last_avail_idx (the_vq m) + 1"
  "used_idx (the_vq (popped m)) = used_idx (the_vq m)" "bus_ok (popped m) = bus_ok m" "m_as (popped m) = m_as m"
  "ram_size (m_ram (popped m)) = ram_size (m_ram m)" "m_plic (popped m) = m_plic m"
  "m_vmmio (popped m) = m_vmmio m" "blk_req (m_blk (popped m)) = blk_req (m_blk m)"
  "blk_cur (m_blk (popped m)) = blk_cur (m_blk m)" "blk_busy (m_blk (popped m)) = blk_busy (m_blk m)"
  "blk_file (m_blk (popped m)) = blk_file (m_blk m)" "vdev_irq_num (m_blk (popped m)) = vdev_irq_num (m_blk m)"
  by (simp_all add: popped_def Let_def the_vring_def the_vq_def map_vq_def put_bytes_def bus_ok_def fun_eq_iff)

lemma popped_bytes:
  "bus_bytes (popped m) = (if virtio_dev_has_feature VIRTIO_RING_F_EVENT_IDX m
     then store_le (bus_bytes m) (event_addr m) (ucast (last_avail_idx (the_vq m) + 1)) 2 else bus_bytes m)"
  by (simp add: popped_def Let_def) (simp add: map_vq_def bus_bytes_def)

definition queue_ready :: "machine \<Rightarrow> vring_desc_t list \<Rightarrow> bool" where
  "queue_ready m ds \<longleftrightarrow>
     bus_ok m (vring_avail (the_vring m) + 2) 2 \<and> bus_ok m (head_addr m) 2 \<and>
     bus_ok m (event_addr m) 2 \<and> the_head m < vring_num (the_vring m) \<and>
     (let a = vring_desc (the_vring m) + ucast (the_head m) * 16; d = desc_at (bus_bytes m) a in
      desc_ok m (event_addr m) a \<and> desc_flags d AND VRING_DESC_F_INDIRECT \<noteq> 0 \<and>
      desc_len d \<noteq> 0 \<and> desc_len d mod 16 = 0 \<and>
      desc_chain m (event_addr m) (desc_addr d) 0 ds) \<and> length ds \<le> 1024"

definition next_request :: "machine \<Rightarrow> vring_desc_t list \<Rightarrow> vq_request_t" where
  "next_request m ds = \<lparr>req_index = the_head m, req_in_len = written_len ds, req_num = of_nat (length ds),
     req_iov = map desc_iov ds\<rparr>"

lemma queue_empty: "bus_ok m (vring_avail (the_vring m) + 2) 2 \<Longrightarrow>
  virtio_queue_empty bus_read m = Inr (the_avail_idx m = last_avail_idx (the_vq m), m)"
  by (simp add: virtio_queue_empty_def vring_avail_idx_def bus_read_ok)

lemma vqueue_pop_ok:
  assumes "queue_ready m ds"
  shows "vqueue_pop bus_read (bus_write (Suc n) PARAMS_NONE) m =
    Inr (if the_avail_idx m = last_avail_idx (the_vq m) then (None, m) else (Some (next_request m ds), popped m))"
proof -
  let ?wr = "bus_write (Suc n) PARAMS_NONE" and ?e = "event_addr m"
  let ?m1 = "map_vq (\<lambda>q. q\<lparr>last_avail_idx := last_avail_idx q + 1\<rparr>) m"
  define a where "a = vring_desc (the_vring m) + ucast (the_head m) * 16"
  define d where "d = desc_at (bus_bytes m) a"
  have q: "bus_ok m (vring_avail (the_vring m) + 2) 2" "bus_ok m (head_addr m) 2" "bus_ok m ?e 2"
    "the_head m < vring_num (the_vring m)" "desc_ok m ?e a" "desc_flags d AND VRING_DESC_F_INDIRECT \<noteq> 0"
    "desc_len d \<noteq> 0" "desc_len d mod 16 = 0" "desc_chain m ?e (desc_addr d) 0 ds" "length ds \<le> 1024"
    using assms by (simp_all add: queue_ready_def Let_def a_def d_def)
  have m1: "bus_bytes ?m1 = bus_bytes m" "the_vring ?m1 = the_vring m"
    "last_avail_idx (the_vq ?m1) = last_avail_idx (the_vq m) + 1" "bus_ok ?m1 = bus_ok m"
    "virtio_dev_has_feature f ?m1 = virtio_dev_has_feature f m" for f
    by (simp_all add: map_vq_def bus_bytes_def the_vring_def the_vq_def bus_ok_def
        virtio_dev_has_feature_def fun_eq_iff)
  have e: "unat ?e + 2 \<le> 0x100000000" using q(3) by (simp add: bus_ok_def)
  have num: "vring_num (the_vring m) \<noteq> 0" using q(4) by auto
  have "bus_read ?m1 (head_addr m) 2 = Inr (load_le (bus_bytes m) (head_addr m) 2, ?m1)"
    using bus_read_ok [of ?m1 "head_addr m" 2] q(2) m1 by simp
  then have head: "vqueue_get_head bus_read (ucast (last_avail_idx (the_vq m))) ?m1 = Inr (the_head m, ?m1)"
    using num q(4) by (simp add: vqueue_get_head_def vring_avail_ring_def m1 the_head_def
        head_addr_def [symmetric] Let_def)
  have event: "(if virtio_dev_has_feature VIRTIO_RING_F_EVENT_IDX ?m1
      then vring_set_avail_event ?wr (last_avail_idx (the_vq ?m1)) ?m1 else Inr ?m1) = Inr (popped m)"
    using bus_store [of ?m1 ?e 2 n "ucast (last_avail_idx (the_vq m) + 1)"] q(3)
    by (auto simp: m1 popped_def Let_def vring_set_avail_event_def event_addr_def [symmetric]
        simp del: bus_write.simps store_le.simps)
  have bytes: "bus_bytes (popped m) = store_le (bus_bytes m) ?e (ucast (last_avail_idx (the_vq m) + 1)) 2 \<or>
      bus_bytes (popped m) = bus_bytes m"
    by (simp add: popped_bytes)
  have chain: "desc_chain (popped m) ?e tab off ds" if "desc_chain m ?e tab off ds" for tab off ds
    using that desc_chain_store [OF e _ _ bytes] by simp
  have "desc_at (bus_bytes (popped m)) a = d" "desc_ok (popped m) ?e a"
    using desc_store_apart [OF q(5) e] bytes q(5) by (auto simp: desc_ok_def in_ram_region_def d_def)
  then have desc: "vring_desc_read bus_read (the_head m) (popped m) = Inr (d, popped m)"
    using read_desc [of "popped m" ?e a] by (simp add: vring_desc_read_def a_def desc_at_def)
  have indirect: "vring_desc_read_indirect bus_read (the_head m) (desc_addr d) (desc_len d) (popped m) =
      Inr (next_request m ds, popped m)"
    using read_chain_ok [OF chain [OF q(9)], of "[]" 0] q(7,8,10)
    by (simp add: vring_desc_read_indirect_def next_request_def)
  show ?thesis
    using queue_empty [OF q(1)] head event desc indirect q(6)
    by (auto simp: vqueue_pop_def Let_def simp del: bus_write.simps)
qed

lemma popped_event:
  assumes "bus_ok m (event_addr m) 2" "virtio_dev_has_feature VIRTIO_RING_F_EVENT_IDX m"
  shows "bus_read (popped m) (event_addr m) 2 = Inr (ucast (last_avail_idx (the_vq m) + 1), popped m)"
proof -
  have "take_bit 16 (ucast v :: u64) = ucast v" for v :: u16
    by (rule bit_word_eqI) (auto simp: bit_simps dest: bit_imp_le_length)
  then show ?thesis
    using bus_read_ok [of "popped m" "event_addr m" 2] assms
    by (simp add: popped_bytes load_store_le del: store_le.simps)
qed

text \<open>C27.  \<open>vqueue_pop\<close> returns nothing while the driver's index has not moved; otherwise it returns
  the request whose head is next in the available ring, with the buffers of its indirect
  table in order, takes it off the ring, and tells the driver so if event indices were
  negotiated.
\<close>

theorem vqueue_pop_request:
  assumes "bus_ok m (vring_avail (the_vring m) + 2) 2" "bus_ok m (head_addr m) 2"
    and "bus_ok m (event_addr m) 2" "the_head m < vring_num (the_vring m)"
    and "a = vring_desc (the_vring m) + ucast (the_head m) * 16" "desc_ok m (event_addr m) a"
    and "d = desc_at (bus_bytes m) a" "desc_flags d AND VRING_DESC_F_INDIRECT \<noteq> 0"
    and "desc_len d \<noteq> 0" "desc_len d mod 16 = 0"
    and "desc_chain m (event_addr m) (desc_addr d) 0 ds" "length ds \<le> 1024"
  shows "if the_avail_idx m = last_avail_idx (the_vq m)
    then vqueue_pop bus_read (bus_write (Suc n) PARAMS_NONE) m = Inr (None, m)
    else \<exists>m'. vqueue_pop bus_read (bus_write (Suc n) PARAMS_NONE) m =
        Inr (Some \<lparr>req_index = the_head m, req_in_len = written_len ds, req_num = of_nat (length ds),
               req_iov = map desc_iov ds\<rparr>, m') \<and>
      last_avail_idx (the_vq m') = last_avail_idx (the_vq m) + 1 \<and>
      (virtio_dev_has_feature VIRTIO_RING_F_EVENT_IDX m \<longrightarrow>
        bus_read m' (event_addr m) 2 = Inr (ucast (last_avail_idx (the_vq m) + 1), m'))"
proof -
  have "queue_ready m ds"
    using assms by (simp add: queue_ready_def)
  then show ?thesis
    using vqueue_pop_ok [of m ds n] popped_event [OF assms(3)] by (simp add: next_request_def del: bus_write.simps)
qed

definition demo_queue_bytes :: "u64 \<Rightarrow> u8" where
  "demo_queue_bytes a =
    (if a = 0x80004001 then 0x60 else if a = 0x80004003 then 0x80 else if a = 0x80004008 then 16
     else if a = 0x8000400C then 4 else if a = 0x80004082 then 1 else 0)"

definition demo_queue :: machine where
  "demo_queue = put_bytes (demo_disk 0) demo_queue_bytes"

lemma demo_queue_facts:
  "bus_bytes demo_queue = demo_queue_bytes" "m_as demo_queue = root_as"
  "ram_size (m_ram demo_queue) = 0x80000000" "last_avail_idx (the_vq demo_queue) = 0"
  "the_vring demo_queue = \<lparr>vring_num = 8, vring_num_default = 0, vring_align_field = 4096,
     vring_desc = 0x80004000, vring_avail = 0x80004080, vring_used = 0x80005000\<rparr>"
  by (simp_all add: demo_queue_def put_bytes_def bus_bytes_def demo_disk_def demo_machine_fields
      ram_init_def the_vq_def the_vring_def fun_eq_iff)

lemma load_le_two: "load_le mem a 2 = ucast (mem a) OR push_bit 8 (ucast (mem (a + 1)))"
  by (simp add: numeral_2_eq_2)

lemma upt_16: "[0..<16] = [0, 1, 2, 3, 4, 5, 6, 7, 8, 9, 10, 11, 12, 13, 14, 15]"
  by code_simp

lemma demo_descs:
  "desc_at demo_queue_bytes 0x80004000 = \<lparr>desc_addr = 0x80006000, desc_len = 16, desc_flags = 4, desc_next = 0\<rparr>"
  "desc_at demo_queue_bytes 0x80006000 = \<lparr>desc_addr = 0, desc_len = 0, desc_flags = 0, desc_next = 0\<rparr>"
  by (simp_all add: desc_at_def parse_desc_def upt_16 demo_queue_bytes_def)

lemma vqueue_pop_request_witness:
  "\<exists>m' req. vqueue_pop bus_read (bus_write 1 PARAMS_NONE) demo_queue = Inr (Some req, m') \<and>
     req_num req = 1 \<and> last_avail_idx (the_vq m') = 1"
proof -
  define d where "d = desc_at (bus_bytes demo_queue) 0x80004000"
  have d: "d = \<lparr>desc_addr = 0x80006000, desc_len = 16, desc_flags = 4, desc_next = 0\<rparr>"
    by (simp add: d_def demo_queue_facts demo_descs)
  have q: "the_head demo_queue = 0" "head_addr demo_queue = 0x80004084" "event_addr demo_queue = 0x80005044"
    "the_avail_idx demo_queue = 1"
    by (simp_all add: the_head_def head_addr_def event_addr_def demo_queue_facts demo_queue_bytes_def
        load_le_two)
  have chain: "desc_chain demo_queue (event_addr demo_queue) (desc_addr d) 0
      [\<lparr>desc_addr = 0, desc_len = 0, desc_flags = 0, desc_next = 0\<rparr>]"
    by (simp add: d q demo_descs demo_queue_facts desc_ok_def in_ram_region_def apart_def)
  have "\<exists>m' req. vqueue_pop bus_read (bus_write (Suc 0) PARAMS_NONE) demo_queue = Inr (Some req, m') \<and>
     req_num req = 1 \<and> last_avail_idx (the_vq m') = 1"
  proof -
    have "bus_ok demo_queue a 2" if "0x80000000 \<le> unat a" "unat a + 2 \<le> 0x100000000" for a
      using that by (simp add: bus_ok_def access_size_def demo_queue_facts)
    then have ok: "bus_ok demo_queue (vring_avail (the_vring demo_queue) + 2) 2"
        "bus_ok demo_queue (head_addr demo_queue) 2" "bus_ok demo_queue (event_addr demo_queue) 2"
      by (simp_all add: q demo_queue_facts)
    have head: "the_head demo_queue < vring_num (the_vring demo_queue)"
        "0x80004000 = vring_desc (the_vring demo_queue) + ucast (the_head demo_queue) * 16"
      by (simp_all add: q demo_queue_facts)
    have desc: "desc_ok demo_queue (event_addr demo_queue) 0x80004000"
      by (simp add: q demo_queue_facts desc_ok_def in_ram_region_def apart_def)
    have flags: "desc_flags d AND VRING_DESC_F_INDIRECT \<noteq> 0" "desc_len d \<noteq> 0" "desc_len d mod 16 = 0"
      by (simp_all add: d)
    have "the_avail_idx demo_queue \<noteq> last_avail_idx (the_vq demo_queue)"
      by (simp only: q(4) demo_queue_facts(4)) simp
    then show ?thesis
      using vqueue_pop_request [OF ok head desc d_def flags chain _, of 0]
      by (simp only: if_False list.size(3,4)) (fastforce simp: demo_queue_facts(4) simp del: bus_write.simps)
  qed
  then show ?thesis by simp
qed

end
