(* ===== verification/Devices.thy ===== *)
theory Devices
  imports BlockIo
begin

text \<open>
  What the small devices promise: the serial port's receiver, the timer of the core-local
  interruptor, and the files in the boot ROM.
\<close>

section \<open>Serial port\<close>

text \<open>C38.  A byte the receiver gets while its interrupt is enabled raises the port's interrupt,
  shows in the line status and interrupt registers, and is what the next read of the data
  register returns; that read clears the status.  A byte written to the data register is the
  next one on the terminal.\<close>

theorem uart_receive_transmit:
  assumes "uart_inv (u, p)" "uart_alive u" "ch \<noteq> 3" "bit (uart_ier u) 0"
  shows "\<exists>u' p' u''. uart_routine ch u p = Inr (u', p') \<and> bit (plic_pending p' ! 0) 10 \<and>
    (\<exists>lsr. uart_read u' p' UART_LSR 1 = Inr (lsr, u', p') \<and> bit lsr 0) \<and>
    uart_read u' p' UART_IIR 1 = Inr (ucast UART_IIR_RDI, u', p') \<and>
    (\<exists>p''. uart_read u' p' UART_RBR 1 = Inr (ucast ch, u'', p'')) \<and> \<not> bit (uart_lsr u'') 0 \<and>
    (\<not> bit (uart_lcr u) 7 \<longrightarrow> (\<exists>u3. uart_write u p UART_THR (ucast ch) 1 = Inr (0, u3, p) \<and>
      uart_out u3 = uart_out u @ [ch]))"
proof -
  obtain p' where p': "plic_signal 10 p = Inr p'" "bit (plic_pending p' ! 0) 10" "plic_inv p'"
    using plic_signal_pending [of p 10] plic_signal_keeps [of p 10] assms(1)
    by (auto simp: uart_inv_def)
  obtain p2 where p2: "plic_signal 10 p' = Inr p2"
    using plic_signal_pending [of p' 10] p'(3) by auto
  define u' where "u' = u\<lparr>uart_rbr := ch, uart_lsr := uart_lsr u OR UART_LSR_DR, uart_iir := UART_IIR_RDI\<rparr>"
  have irq: "uart_irq_num u = 10" using assms(1) by (simp add: uart_inv_def)
  have ier: "uart_ier u AND 1 \<noteq> 0" using assms(4) by (simp add: and_one_eq odd_iff_mod_2_eq_one bit_0)
  have run: "uart_routine ch u p = Inr (u', p')"
    using assms(2,3) ier irq p'(1) by (simp add: uart_routine_def u'_def Let_def)
  have bits: "bit (ucast (uart_lsr u') :: u64) 0" "\<not> bit (uart_lsr u' AND NOT (UART_LSR_DR OR UART_LSR_BI)) 0"
    by (simp_all add: u'_def bit_simps)
  obtain u2 p'' where read: "uart_read u' p' UART_RBR 1 = Inr (ucast ch, u2, p'')" "\<not> bit (uart_lsr u2) 0"
  proof (cases "uart_ier u AND UART_IER_THRI = 0")
    case True
    then show thesis using that bits(2) by (simp add: uart_read_def uart_signal_def u'_def Let_def)
  next
    case False
    then show thesis using that bits(2) p2 irq by (simp add: uart_read_def uart_signal_def u'_def Let_def)
  qed
  have "uart_write u p UART_THR (ucast ch) 1 =
      Inr (0, u\<lparr>uart_thr_pending := False, uart_out := uart_out u @ [ch]\<rparr>, p)" if "\<not> bit (uart_lcr u) 7"
  proof -
    have "uart_lcr u AND UART_LCR_DLAB = 0"
      using that by (simp add: bit_iff_and_push_bit_not_eq_0)
    moreover have "(ucast (ucast ch :: u64) :: u8) = ch" by (rule bit_word_eqI) (auto simp: bit_simps)
    ultimately show ?thesis by (simp add: uart_write_def)
  qed
  moreover have "uart_read u' p' UART_LSR 1 = Inr (ucast (uart_lsr u'), u', p')"
      "uart_read u' p' UART_IIR 1 = Inr (ucast UART_IIR_RDI, u', p')"
    by (simp_all add: uart_read_def u'_def)
  ultimately show ?thesis using run p'(2) bits(1) read by fastforce
qed

lemma uart_receive_transmit_witness:
  "\<exists>u' p'. uart_routine 65 (uart_init 10\<lparr>uart_ier := 1\<rparr>) plic_init = Inr (u', p') \<and> bit (plic_pending p' ! 0) 10"
  using uart_receive_transmit [of "uart_init 10\<lparr>uart_ier := 1\<rparr>" plic_init 65]
  by (auto simp: uart_inv_def uart_init_def plic_init_inv)

section \<open>Timer\<close>

text \<open>The timer interrupt.  Writing the comparator clears it, unless the time is already past;
  from then on it is raised by the first pass of the timer thread that finds the time reached,
  and by none before.\<close>

theorem clint_timer:
  assumes "cpu_read_rtc h = (now, h')" "cpu_read_rtc h1 = (now1, h1')"
  shows "\<exists>c'. clint_write c CLINT_MTIMECMP t 8 h = Inr (0, c', h') \<and> mtimecmp c' = t \<and>
    (timer_intr c' \<longleftrightarrow> t < now) \<and> (timer_intr c' \<or> timer_running c') \<and>
    (timer_running c' \<longrightarrow>
      (if now1 < t then clint_routine c' h1 = (c', h1')
       else clint_routine c' h1 = (c'\<lparr>timer_intr := True, timer_running := False\<rparr>, h1')))"
  using assms by (auto simp: clint_write_def clint_routine_def Let_def)

lemma clint_timer_witness:
  "\<exists>c'. clint_write clint_init CLINT_MTIMECMP 7 8 demo_host = Inr (0, c', snd (cpu_read_rtc demo_host)) \<and>
     mtimecmp c' = 7"
  using clint_timer [of demo_host "fst (cpu_read_rtc demo_host)" "snd (cpu_read_rtc demo_host)" demo_host
      "fst (cpu_read_rtc demo_host)" "snd (cpu_read_rtc demo_host)" clint_init 7] by auto

section \<open>Boot ROM\<close>

text \<open>A file added to the ROM at a place past the others is what the ROM reads there, its
  length is in the 8 bytes before it, and everything below those is as it was; so the length
  overwrites the end of a file that reaches up to it.\<close>

theorem rom_file:
  assumes "rom_add_file rom (Some bs) base = Inr rom'" "rom_size rom \<le> ROM_ADDRESS_SPACE_SIZE"
  shows "(\<forall>i<length bs. rom_mem rom' (base + of_nat i) = bs ! i) \<and>
    (base \<noteq> 0 \<longrightarrow> load_le (rom_mem rom') (base - 8) 8 = of_nat (length bs)) \<and>
    (\<forall>a. a < rom_size rom \<and> (base = 0 \<or> a < base - 8) \<longrightarrow> rom_mem rom' a = rom_mem rom a)"
proof -
  let ?st = "of_nat (length bs) :: u64" and ?sz = "ROUND_UP (base + of_nat (length bs)) 8"
  let ?old = "\<lambda>b. if b < rom_size rom then rom_mem rom b else 0"
  let ?new = "store_bytes ?old base bs"
  have r: "\<not> base < rom_size rom" "\<not> ROM_ADDRESS_SPACE_SIZE < ?sz" "in_buffer base (length bs) ?sz"
    "base \<noteq> 0 \<Longrightarrow> 8 \<le> base"
    "rom_mem rom' = (if base = 0 then ?new else store_le ?new (base - 8) ?st 8)"
    using assms(1) by (auto simp: rom_add_file_def Let_def split: if_splits)
  have size: "unat base + length bs \<le> 0xFF000"
    using r(2,3) by (simp add: in_buffer_def word_less_nat_alt)
  have le: "rom_size rom \<le> base" using r(1) by simp
  have below: "unat (base - 8) = unat base - 8" if "base \<noteq> 0"
    using r(4) that by (simp add: unat_sub word_le_nat_alt)
  have inside: "?new (base + of_nat i) = bs ! i" if "i < length bs" for i
  proof -
    have "unat (of_nat i :: u64) = i" using that size by (simp add: unat_of_nat take_bit_nat_eq_self)
    then show ?thesis using that by (simp add: store_bytes_def)
  qed
  have keep: "store_le f (base - 8) ?st 8 a = f a" if "base \<noteq> 0" "base \<le> a \<or> a < base - 8" for f a
  proof (rule store_le_outside)
    fix i :: nat
    assume "i < 8"
    then have "unat (base - 8 + of_nat i) = unat base - 8 + i"
      using size r(4) that(1) below [OF that(1)] by (subst unat_plus_nat) simp_all
    then show "a \<noteq> base - 8 + of_nat i"
      using that \<open>i < 8\<close> below [OF that(1)] r(4) by (auto simp: word_le_nat_alt word_less_nat_alt)
  qed
  have "rom_mem rom' (base + of_nat i) = bs ! i" if "i < length bs" for i
  proof -
    have "unat (base + of_nat i) = unat base + i" using size that by (intro unat_plus_nat) simp
    then have "base \<le> base + of_nat i" by (simp add: word_le_nat_alt)
    then show ?thesis
      using inside [OF that] keep [of "base + of_nat i" ?new] by (cases "base = 0") (simp_all add: r(5))
  qed
  moreover have "load_le (rom_mem rom') (base - 8) 8 = ?st" if "base \<noteq> 0"
    using that by (simp add: r(5) load_store_le) (rule bit_word_eqI, simp add: bit_simps)
  moreover have "rom_mem rom' a = rom_mem rom a" if a: "a < rom_size rom" "base = 0 \<or> a < base - 8" for a
  proof -
    have "a < base" using a(1) le by simp
    then have "unat (a - base) = unat a + 2 ^ 64 - unat base"
      by (simp add: unat_sub_if' word_le_nat_alt word_less_nat_alt)
    then have "\<not> unat (a - base) < length bs" using size by simp
    then have "?new a = rom_mem rom a" using a(1) by (simp add: store_bytes_def)
    then show ?thesis using a keep [of a ?new] by (cases "base = 0") (simp_all add: r(5))
  qed
  ultimately show ?thesis by blast
qed

lemma rom_file_witness:
  "\<exists>rom'. rom_add_file rom_init (Some [1, 2, 3]) 16 = Inr rom' \<and> rom_mem rom' 17 = 2"
proof -
  obtain rom' where r: "rom_add_file rom_init (Some [1, 2, 3]) 16 = Inr rom'"
    by (simp add: rom_add_file_def rom_init_def Let_def ROUND_UP_def in_buffer_def)
  then have "rom_mem rom' (16 + of_nat i) = [1, 2, 3] ! i" if "i < length [1, 2, 3 :: u8]" for i
    using rom_file [OF r] that by (simp add: rom_init_def)
  from this [of 1] show ?thesis using r by simp
qed

end
