(* ===== verification/Deliver.thy ===== *)
theory Deliver
  imports Devices
begin

text \<open>
  How a device's interrupt reaches the hart: a source pending in the controller, the next pass of the
  main loop, and the handler's claim.  The serial port from the received byte to the handler that
  reads it; the disk's interrupt is in theory \<open>DiskPath\<close>.
\<close>

section \<open>A source of the controller\<close>

text \<open>What a driver sets up to be interrupted by source \<open>n\<close> in supervisor mode.\<close>

definition source_on :: "nat \<Rightarrow> machine \<Rightarrow> bool" where
  "source_on n m \<longleftrightarrow> bit (plic_sie (m_plic m) ! 0) n \<and>
     plic_spt (m_plic m) < plic_priority (m_plic m) ! n \<and> intr_enabled EXTERNAL_INTR_TYPE S_MODE m"

text \<open>The source is pending, and it is the first of the enabled ones.\<close>

definition first_pending :: "nat \<Rightarrow> plic_t \<Rightarrow> bool" where
  "first_pending n p \<longleftrightarrow> bit (plic_pending p ! 0) n \<and> lowest_in_word p (plic_sie p) n"

lemma plic_picks:
  assumes "plic_inv p" "first_pending n p" "n < 32" "bit (plic_sie p ! 0) n"
    and "plic_spt p < plic_priority p ! n" "external_level s = S_MODE"
  shows "plic_interrupt p s = Inr (word_of_nat n, p\<lparr>plic_scc := word_of_nat n\<rparr>, s)"
proof -
  let ?bits = "plic_pending p ! 0 AND plic_sie p ! 0"
  have one: "first_one ?bits = Inr n"
    by (rule first_one_lowest) (use assms(2-4) in \<open>auto simp: bit_and_iff first_pending_def lowest_in_word_def\<close>)
  then have "?bits \<noteq> 0"
    using first_one_spec [of ?bits n] by auto
  then have "plic_scan p (plic_sie p) (plic_spt p) (0 # js) = Inr (Some (word_of_nat n))" for js
    using assms(1,3,5) one by (simp add: plic_inv_def NUM_SOURCES_def array_get_def Let_def)
  moreover have "[0..<5] = 0 # [1..<5]"
    by (simp add: upt_rec)
  ultimately show ?thesis
    using assms(6) by (simp add: plic_interrupt_def external_next_priv Let_def del: plic_scan.simps upt_rec_numeral)
qed

lemma plic_claims:
  assumes "plic_inv p" "plic_scc p = word_of_nat n" "0 < n" "n < 32"
  shows "plic_read p 0x201004 4 =
    Inr (word_of_nat n, p\<lparr>plic_pending := (plic_pending p)[0 := plic_pending p ! 0 AND NOT (push_bit n 1)]\<rparr>)"
proof -
  have n: "unat (word_of_nat n :: u32) = n"
    using assms(4) by (simp add: unat_of_nat take_bit_nat_eq_self)
  then have nz: "(word_of_nat n :: u32) \<noteq> 0"
    using assms(3) by (metis less_numeral_extra(3) unsigned_0)
  have "unat (word_of_nat n div 32 :: u32) = 0" "unat (word_of_nat n mod 32 :: u32) = n"
    using assms(4) by (simp_all add: unat_div unat_mod n)
  then have pos: "bit_pos (word_of_nat n) = Inr (0, n)"
    using nz by (simp add: bit_pos_def)
  have "(ucast (word_of_nat n :: u32) :: u64) = word_of_nat n"
    using assms(4) by (simp add: unsigned_of_nat take_bit_nat_eq_self)
  then show ?thesis
    using assms(1,2) nz pos by (simp add: plic_read_def clear_pending_bit_def plic_inv_def array_get_def array_set_def)
qed

text \<open>The claim register of supervisor mode, and the data register of the serial port, on the bus.\<close>

lemma claim_read:
  assumes "m_as m = root_as"
  shows "bus_read m 0xC201004 4 = with_snd (\<lambda>p. m\<lparr>m_plic := p\<rparr>) (plic_read (m_plic m) 0x201004 4)"
proof -
  have "device_space 0xC000000 0xC20FFFF plic_op plic_op \<in> set root_children"
    by (simp add: root_children_def)
  from as_resolve_root [OF this, of "0xC201004"] show ?thesis
    using assms by (simp add: bus_read_def as_read_nommu_resolve access_size_def in_space_def)
qed

lemma data_read:
  assumes "m_as m = root_as"
  shows "bus_read m 0x10000000 1 =
    and_then (uart_read (m_uart m) (m_plic m) UART_RBR 1) (\<lambda>(v, u, p). Inr (v, m\<lparr>m_uart := u, m_plic := p\<rparr>))"
proof -
  have "device_space 0x10000000 0x100000FF uart_op uart_op \<in> set root_children"
    by (simp add: root_children_def)
  from as_resolve_root [OF this, of "0x10000000"] show ?thesis
    using assms by (simp add: bus_read_def as_read_nommu_resolve access_size_def in_space_def)
qed

text \<open>
  The next pass of the main loop enters the supervisor's handler with the cause of an external
  interrupt, and the claim read there answers the source and clears its pending bit.
\<close>

definition delivered :: "nat \<Rightarrow> machine \<Rightarrow> machine \<Rightarrow> machine \<Rightarrow> bool" where
  "delivered n m m' m'' \<longleftrightarrow> m_pc m' = csrs m STVEC \<and> priv m' = S_MODE \<and> csrs m' SCAUSE = 0x8000000000000009 \<and>
     csrs m' SEPC = m_pc m \<and> bus_read m' 0xC201004 4 = Inr (word_of_nat n, m'') \<and>
     \<not> bit (plic_pending (m_plic m'') ! 0) n \<and> m_uart m'' = m_uart m \<and> m_as m'' = root_as \<and> plic_inv (m_plic m'')"

lemma source_delivered:
  assumes "plic_inv (m_plic m)" "first_pending n (m_plic m)" "source_on n m" "0 < n" "n < 32"
    and "m_as m = root_as" "0x1000 \<le> m_pc m" "csrs m STVEC \<noteq> 0"
  obtains m' m'' where "cpu_step fuel m = Inr m'" "delivered n m m' m''"
proof -
  have lvl: "external_level m = S_MODE"
    using assms(3) by (simp add: source_on_def intr_enabled_def external_level_def intr_pos_def)
  have target: "intr_target EXTERNAL_INTR_TYPE m = S_MODE" "intr_on EXTERNAL_INTR_TYPE S_MODE m"
    using assms(3) by (simp_all add: source_on_def intr_enabled_def intr_target_def intr_on_def)
  let ?p = "(m_plic m)\<lparr>plic_scc := word_of_nat n\<rparr>"
  have pick: "plic_interrupt (m_plic m) m = Inr (word_of_nat n, ?p, m)"
    using plic_picks [OF assms(1,2,5) _ _ lvl] assms(3) by (simp add: source_on_def)
  have "unat (word_of_nat n :: u32) = n"
    using assms(5) by (simp add: unat_of_nat take_bit_nat_eq_self)
  then have "(word_of_nat n :: u32) \<noteq> 0"
    using assms(4) by (metis less_numeral_extra(3) unsigned_0)
  then obtain v where v: "handle_interrupt (m_pc m) (m_plic m) (m_clint m) m =
      and_then (trap_enter (m_pc m) S_MODE (BIT_CAUSE_INTR + of_nat (intr_pos EXTERNAL_INTR_TYPE S_MODE)) 0
        (m\<lparr>csrs := (csrs m)(SIP := v)\<rparr>)) (\<lambda>(r, s). Inr (r, ?p, s))"
    using handle_interrupt_eq(3) [OF pick refl, of "m_clint m" "m_pc m"] target by auto
  define f where "f = (csrs m)(SIP := v, SCAUSE := 0x8000000000000009, STVAL := 0,
      SSTATUS := sstatus_enter (cur_priv m) (csrs m SSTATUS), SEPC := m_pc m)"
  define m' where "m' = m\<lparr>cur_priv := S_MODE, csrs := f, m_plic := ?p, m_pc := csrs m STVEC\<rparr>"
  define q where "q = (plic_pending (m_plic m))[0 := plic_pending (m_plic m) ! 0 AND NOT (push_bit n 1)]"
  define m'' where "m'' = m'\<lparr>m_plic := ?p\<lparr>plic_pending := q\<rparr>\<rparr>"
  have step: "cpu_step fuel m = Inr m'"
    using assms(7,8) v
    by (simp add: cpu_step_def interrupt_step_def trap_enter_S intr_pos_def not_less m'_def f_def)
  have "plic_inv ?p"
    using assms(1,5) by (auto simp: plic_inv_def word_less_nat_alt unat_of_nat take_bit_nat_eq_self)
  then have claim: "bus_read m' 0xC201004 4 = Inr (word_of_nat n, m'')"
    using claim_read [of m'] plic_claims [of ?p n] assms(4-6) by (simp add: m'_def m''_def q_def with_snd_def)
  have "0 < length (plic_pending (m_plic m))"
    using assms(1) by (simp add: plic_inv_def)
  then have "\<not> bit (q ! 0) n"
    using assms(5) by (simp add: q_def bit_and_iff bit_not_iff bit_exp_iff)
  moreover have "plic_inv (?p\<lparr>plic_pending := q\<rparr>)"
    using \<open>plic_inv ?p\<close> by (simp add: plic_inv_def q_def)
  ultimately show thesis
    using that [OF step, of m''] claim assms(6) by (simp add: delivered_def m'_def m''_def f_def priv_def)
qed

section \<open>A byte for the serial port\<close>

lemma uart_receives:
  assumes "plic_inv p" "uart_irq_num u = 10" "uart_alive u" "ch \<noteq> 3" "bit (uart_ier u) 0"
  shows "uart_routine ch u p =
    Inr (u\<lparr>uart_rbr := ch, uart_lsr := uart_lsr u OR UART_LSR_DR, uart_iir := UART_IIR_RDI\<rparr>,
      p\<lparr>plic_pending := (plic_pending p)[0 := plic_pending p ! 0 OR push_bit 10 1]\<rparr>)"
proof -
  have "uart_ier u AND 1 \<noteq> 0"
    using assms(5) by (simp add: and_one_eq odd_iff_mod_2_eq_one bit_0)
  moreover have "plic_signal 10 p = Inr (p\<lparr>plic_pending := (plic_pending p)[0 := plic_pending p ! 0 OR push_bit 10 1]\<rparr>)"
    using assms(1) by (simp add: plic_signal_def bit_pos_def plic_inv_def array_get_def array_set_def)
  ultimately show ?thesis
    using assms(2-4) by (simp add: uart_routine_def Let_def)
qed

lemma uart_gives:
  assumes "plic_inv p" "uart_irq_num u = 10"
  shows "\<exists>u' p'. uart_read u p UART_RBR 1 = Inr (ucast (uart_rbr u), u', p') \<and> \<not> bit (uart_lsr u') 0"
proof -
  obtain p' where "plic_signal 10 p = Inr p'"
    using plic_signal_pending [of p 10] assms(1) by auto
  moreover have "\<not> bit (w AND NOT (UART_LSR_DR OR UART_LSR_BI)) 0" for w
    by (simp add: bit_simps)
  ultimately show ?thesis
    using assms(2) by (cases "uart_ier u AND UART_IER_THRI = 0") (simp_all add: uart_read_def uart_signal_def Let_def)
qed

text \<open>C23.  From the terminal to the program: a byte the receiver gets while its interrupt is enabled, at
  the port, at the controller and at the hart, makes the next pass of the main loop enter the
  supervisor's handler with the cause of an external interrupt; the claim the handler reads is
  the port's source, and the data register it reads then is the byte.  After that the port holds
  no byte.\<close>

theorem uart_byte_path:
  assumes "plic_inv (m_plic m)" "uart_irq_num (m_uart m) = 10" "uart_alive (m_uart m)" "ch \<noteq> 3"
    and "bit (uart_ier (m_uart m)) 0" "source_on 10 m" "lowest_in_word (m_plic m) (plic_sie (m_plic m)) 10"
    and "m_as m = root_as" "0x1000 \<le> m_pc m" "csrs m STVEC \<noteq> 0"
  shows "\<exists>u p m' m'' m3. uart_routine ch (m_uart m) (m_plic m) = Inr (u, p) \<and>
    cpu_step fuel (m\<lparr>m_uart := u, m_plic := p\<rparr>) = Inr m' \<and> delivered 10 (m\<lparr>m_uart := u, m_plic := p\<rparr>) m' m'' \<and>
    bus_read m'' 0x10000000 1 = Inr (ucast ch, m3) \<and> \<not> bit (uart_lsr (m_uart m3)) 0"
proof -
  define u where "u = (m_uart m)\<lparr>uart_rbr := ch, uart_lsr := uart_lsr (m_uart m) OR UART_LSR_DR, uart_iir := UART_IIR_RDI\<rparr>"
  define ws where "ws = (plic_pending (m_plic m))[0 := plic_pending (m_plic m) ! 0 OR push_bit 10 1]"
  define p where "p = (m_plic m)\<lparr>plic_pending := ws\<rparr>"
  define m1 where "m1 = m\<lparr>m_uart := u, m_plic := p\<rparr>"
  have run: "uart_routine ch (m_uart m) (m_plic m) = Inr (u, p)"
    using uart_receives [OF assms(1-5)] by (simp add: u_def p_def ws_def)
  have len: "0 < length (plic_pending (m_plic m))"
    using assms(1) by (simp add: plic_inv_def)
  have bits: "bit (ws ! 0) k \<longleftrightarrow> bit (plic_pending (m_plic m) ! 0) k \<or> k = 10" for k
    using len bit_update_or [of 0 "plic_pending (m_plic m)" 10 0 k] by (auto simp: ws_def)
  have "plic_inv p" "first_pending 10 p"
    using assms(1,7) by (simp_all add: p_def plic_inv_def ws_def [symmetric] first_pending_def lowest_in_word_def bits)
      (simp add: ws_def)
  moreover have "source_on 10 m1"
    using assms(6) by (simp add: source_on_def m1_def p_def intr_enabled_def priv_def)
  ultimately obtain m' m'' where m': "cpu_step fuel m1 = Inr m'" "delivered 10 m1 m' m''"
    using source_delivered [of m1 10 fuel] assms(8-10) by (auto simp: m1_def)
  then have "m_uart m'' = u" "m_as m'' = root_as" "plic_inv (m_plic m'')"
    by (simp_all add: delivered_def m1_def)
  moreover obtain u' p' where "uart_read u (m_plic m'') UART_RBR 1 = Inr (ucast ch, u', p')" "\<not> bit (uart_lsr u') 0"
    using uart_gives [OF \<open>plic_inv (m_plic m'')\<close>, of u] assms(2) by (auto simp: u_def)
  ultimately have "bus_read m'' 0x10000000 1 = Inr (ucast ch, m''\<lparr>m_uart := u', m_plic := p'\<rparr>)"
    using data_read [of m''] by simp
  then show ?thesis
    using run m' \<open>\<not> bit (uart_lsr u') 0\<close> unfolding m1_def by fastforce
qed

text \<open>A machine in user mode whose driver waits for source \<open>n\<close>.\<close>

definition demo_listening :: "nat \<Rightarrow> machine" where
  "demo_listening n = demo_machine\<lparr>m_pc := 0x80000000, cur_priv := U_MODE,
     m_uart := uart_init 10\<lparr>uart_ier := 1\<rparr>,
     m_plic := plic_init\<lparr>plic_sie := [push_bit n 1, 0, 0, 0, 0],
       plic_priority := (replicate (NUM_SOURCES + 1) 0)[n := 1]\<rparr>,
     csrs := (\<lambda>_. 0)(MIDELEG := 0x200, SSTATUS := 2, SIE := 0x200, STVEC := 0x80001000)\<rparr>"

lemma demo_listening_facts:
  "plic_inv (m_plic (demo_listening n))" "m_as (demo_listening n) = root_as"
  "m_uart (demo_listening n) = uart_init 10\<lparr>uart_ier := 1\<rparr>" "m_pc (demo_listening n) = 0x80000000"
  "csrs (demo_listening n) STVEC = 0x80001000" "n < 32 \<Longrightarrow> source_on n (demo_listening n)"
  "plic_pending (m_plic (demo_listening n)) ! 0 = 0"
  by (simp_all add: demo_listening_def plic_inv_def plic_init_def NUM_SOURCES_def demo_machine_fields source_on_def
      intr_enabled_def intr_pos_def priv_def bit_exp_iff)

theorem uart_byte_path_witness:
  "\<exists>u p m' m'' m3. uart_routine 65 (m_uart (demo_listening 10)) (m_plic (demo_listening 10)) = Inr (u, p) \<and>
    cpu_step 1 ((demo_listening 10)\<lparr>m_uart := u, m_plic := p\<rparr>) = Inr m' \<and> m_pc m' = 0x80001000 \<and>
    bus_read m' 0xC201004 4 = Inr (10, m'') \<and> bus_read m'' 0x10000000 1 = Inr (65, m3)"
proof -
  have "lowest_in_word (m_plic (demo_listening 10)) (plic_sie (m_plic (demo_listening 10))) 10"
    by (simp add: lowest_in_word_def demo_listening_facts)
  with uart_byte_path [of "demo_listening 10" 65 1] show ?thesis
    by (simp add: demo_listening_facts uart_init_def delivered_def) blast
qed

end
