(* ===== verification/DiskPath.thy ===== *)
theory DiskPath
  imports VirtQueue Deliver
begin

text \<open>
  The disk from end to end: a driver that has posted one request notifies the device, the worker
  carries the request out, and the hart is interrupted.  It puts together the transport
  (\<open>virtio_mmio.c\<close>), the queue (\<open>virtio.c\<close>), the mailbox and the worker (\<open>virtio_blk.c\<close>), the
  interrupt controller (\<open>plic.c\<close>) and trap entry (\<open>trap.c\<close>).
\<close>

section \<open>The notification\<close>

text \<open>The device as \<open>main\<close> attaches it, with nothing to do.\<close>

definition blk_attached :: "machine \<Rightarrow> bool" where
  "blk_attached m \<longleftrightarrow> m_as m = root_as \<and> m_vmmio m \<noteq> [] \<and> m_vmmio m ! 0 = BLK_BACKEND"

definition blk_idle :: "machine \<Rightarrow> bool" where
  "blk_idle m \<longleftrightarrow> blk_req (m_blk m) = None \<and> blk_cur (m_blk m) = None \<and> \<not> blk_busy (m_blk m)"

text \<open>One new request, whose index word and header the device does not write to.\<close>

definition one_posted :: "machine \<Rightarrow> vring_desc_t list \<Rightarrow> bool" where
  "one_posted m ds \<longleftrightarrow> queue_ready m ds \<and> the_avail_idx m = last_avail_idx (the_vq m) + 1 \<and>
     apart (vring_avail (the_vring m) + 2) 2 (event_addr m) 2"

definition in_mailbox :: "vq_request_t \<Rightarrow> machine \<Rightarrow> machine" where
  "in_mailbox r = map_blk (\<lambda>b. b\<lparr>blk_req := Some r\<rparr>)"

lemma word_Suc_neq: "x + 1 \<noteq> (x :: u16)"
  by simp

lemma popped_avail:
  assumes "one_posted m ds"
  shows "the_avail_idx (popped m) = last_avail_idx (the_vq (popped m))"
proof -
  have "bus_ok m (vring_avail (the_vring m) + 2) 2" "bus_ok m (event_addr m) 2"
    using assms by (simp_all add: one_posted_def queue_ready_def)
  then have "load_le (bus_bytes (popped m)) (vring_avail (the_vring m) + 2) 2 =
      load_le (bus_bytes m) (vring_avail (the_vring m) + 2) 2"
    using assms load_after [of "vring_avail (the_vring m) + 2" 2 "event_addr m" 2]
    by (simp add: popped_bytes one_posted_def bus_ok_def del: store_le.simps load_le.simps)
  then show ?thesis
    using assms by (simp add: one_posted_def)
qed

lemma in_mailbox_same [simp]:
  "the_vring (in_mailbox r m) = the_vring m" "the_vq (in_mailbox r m) = the_vq m"
  "bus_bytes (in_mailbox r m) = bus_bytes m" "bus_ok (in_mailbox r m) = bus_ok m"
  by (simp_all add: in_mailbox_def map_blk_def the_vring_def the_vq_def bus_bytes_def bus_ok_def fun_eq_iff)

lemma notify_one:
  assumes "one_posted m ds" "blk_idle m"
  shows "notify_loop (Suc (Suc n)) bus_read (bus_write (Suc k) PARAMS_NONE) m =
    Inr (in_mailbox (next_request m ds) (popped m))"
proof -
  let ?wr = "bus_write (Suc k) PARAMS_NONE" and ?m1 = "in_mailbox (next_request m ds) (popped m)"
  have q: "queue_ready m ds" "the_avail_idx m \<noteq> last_avail_idx (the_vq m)"
    using assms(1) word_Suc_neq by (simp_all add: one_posted_def)
  have "virtio_blk_handle_request bus_read ?wr (next_request m ds) (popped m) = Inr ?m1"
    using assms(2) by (simp add: virtio_blk_handle_request_def blk_idle_def in_mailbox_def)
  moreover have "vqueue_pop bus_read ?wr ?m1 = Inr (None, ?m1)"
  proof -
    have "bus_ok ?m1 (vring_avail (the_vring ?m1) + 2) 2"
      using q(1) by (simp add: queue_ready_def)
    from queue_empty [OF this] show ?thesis
      using popped_avail [OF assms(1)] by (simp add: vqueue_pop_def)
  qed
  ultimately show ?thesis
    using vqueue_pop_ok [OF q(1), of k] q(2) by (simp del: bus_write.simps)
qed

text \<open>A store to \<open>QUEUE_NOTIFY\<close> of the first transport, through the bus.\<close>

lemma notify_resolve:
  "as_resolve root_as 0x10001050 = (virtio_space 0, 0x50)"
proof -
  have "virtio_space 0 \<in> set root_children"
    by (simp add: root_children_def upt_rec)
  moreover have "in_space 0x10001050 (virtio_space 0)"
    by (simp add: virtio_space_def in_space_def)
  ultimately show ?thesis
    using as_resolve_root by (simp add: virtio_space_def)
qed

lemma notify_store:
  assumes "blk_attached m"
  shows "bus_write (Suc n) params m 0x10001050 v 4 =
    and_then (notify_loop n bus_read (bus_write n PARAMS_NONE) m) (\<lambda>m. Inr (0, m))"
  using assms notify_resolve
  by (simp add: blk_attached_def as_write_nommu_resolve access_size_def virtio_space_def virtio_mmio_write_def
      vmmio_vdev_def deref_def Let_def)

section \<open>The worker\<close>

text \<open>Changes of the mailbox and the worker's flags are not seen from the bus.\<close>

definition flags_only :: "(virtio_blk_t \<Rightarrow> virtio_blk_t) \<Rightarrow> bool" where
  "flags_only f \<longleftrightarrow>
     (\<forall>b. f b = b\<lparr>blk_req := blk_req (f b), blk_cur := blk_cur (f b), blk_busy := blk_busy (f b)\<rparr>)"

lemma flags_only_ops [simp]:
  "flags_only (\<lambda>b. b\<lparr>blk_req := q\<rparr>)" "flags_only (\<lambda>b. b\<lparr>blk_busy := y\<rparr>)"
  "flags_only (\<lambda>b. b\<lparr>blk_cur := c\<rparr>)" "flags_only (\<lambda>b. b\<lparr>blk_cur := c, blk_busy := y\<rparr>)"
  "flags_only (\<lambda>b. b\<lparr>blk_busy := y, blk_cur := c\<rparr>)"
  "flags_only (\<lambda>b. b\<lparr>blk_cur := blk_req b, blk_req := q\<rparr>)"
  by (simp_all add: flags_only_def)

lemma flags_only_same:
  assumes "flags_only f"
  shows "bus_bytes (map_blk f m) = bus_bytes m" "bus_ok (map_blk f m) = bus_ok m"
    "in_ram_region (map_blk f m) = in_ram_region m" "the_vq (map_blk f m) = the_vq m"
    "the_vring (map_blk f m) = the_vring m" "m_plic (map_blk f m) = m_plic m"
    "blk_file (m_blk (map_blk f m)) = blk_file (m_blk m)" "vdev_isr (m_blk (map_blk f m)) = vdev_isr (m_blk m)"
    "vdev_irq_num (m_blk (map_blk f m)) = vdev_irq_num (m_blk m)"
    "used_elem (map_blk f m) = used_elem m" "used_ring_ok (map_blk f m) = used_ring_ok m"
proof -
  obtain q c y where "f (m_blk m) = (m_blk m)\<lparr>blk_req := q, blk_cur := c, blk_busy := y\<rparr>"
    using assms unfolding flags_only_def by blast
  then have e: "map_blk f m = m\<lparr>m_blk := (m_blk m)\<lparr>blk_req := q, blk_cur := c, blk_busy := y\<rparr>\<rparr>"
    by (simp add: map_blk_def)
  show "bus_bytes (map_blk f m) = bus_bytes m" "bus_ok (map_blk f m) = bus_ok m"
    "in_ram_region (map_blk f m) = in_ram_region m" "the_vq (map_blk f m) = the_vq m"
    "the_vring (map_blk f m) = the_vring m" "m_plic (map_blk f m) = m_plic m"
    "blk_file (m_blk (map_blk f m)) = blk_file (m_blk m)" "vdev_isr (m_blk (map_blk f m)) = vdev_isr (m_blk m)"
    "vdev_irq_num (m_blk (map_blk f m)) = vdev_irq_num (m_blk m)"
    "used_elem (map_blk f m) = used_elem m" "used_ring_ok (map_blk f m) = used_ring_ok m"
    unfolding e by (simp_all add: bus_bytes_def bus_ok_def in_ram_region_def the_vq_def the_vring_def
        used_elem_def used_slot_def used_ring_ok_def fun_eq_iff)
qed

lemma flags_only_request:
  assumes "flags_only f"
  shows "blk_request (map_blk f m) r h d s = blk_request m r h d s"
    "request_type (map_blk f m) h = request_type m h" "request_sector (map_blk f m) h = request_sector m h"
  by (simp_all add: blk_request_def request_type_def request_sector_def flags_only_same [OF assms])

lemma flags_only_read:
  assumes "flags_only f" "bus_ok m a sz" "bus_read m a sz = Inr (v, m)"
  shows "bus_read (map_blk f m) a sz = Inr (v, map_blk f m)"
  using assms(2,3) bus_read_ok [of m a sz] bus_read_ok [of "map_blk f m" a sz] flags_only_same [OF assms(1), of m]
  by simp

text \<open>The four places a completed request is read back from.\<close>

lemma done_places:
  assumes "blk_request m r h d s"
  shows "bus_ok m (iov_base s) 1" "bus_ok m (used_elem m) 4" "bus_ok m (used_elem m + 4) 4"
    "bus_ok m (vring_used (the_vring m) + 2) 2"
proof -
  have r: "used_ring_ok m" "in_ram_region m (iov_base s) 1"
    using assms by (simp_all add: blk_request_def)
  note e = used_elem_unat [OF r(1)]
  show "bus_ok m (iov_base s) 1" "bus_ok m (used_elem m) 4" "bus_ok m (used_elem m + 4) 4"
    "bus_ok m (vring_used (the_vring m) + 2) 2"
    using r e by (auto simp: used_ring_ok_def bus_ok_def access_size_def in_ram_region_def)
qed

lemma flags_only_done:
  assumes "flags_only f" "blk_request m r h d s" "request_done m r s m'" "bus_ok m' = bus_ok m"
  shows "request_done m r s (map_blk f m')"
  using assms(3) done_places [OF assms(2)] flags_only_same [OF assms(1), of m']
  by (auto simp: request_done_def assms(4) intro!: flags_only_read [OF assms(1)])

section \<open>The request taken off\<close>

lemma popped_request:
  assumes "blk_request m r h d s" "apart (iov_base h) 16 (event_addr m) 2" "bus_ok m (event_addr m) 2"
  shows "blk_request (popped m) r h d s" "request_type (popped m) h = request_type m h"
    "request_sector (popped m) h = request_sector m h" "used_elem (popped m) = used_elem m"
proof -
  have e: "unat (event_addr m) + 2 \<le> 0x100000000" and hdr: "unat (iov_base h) + 16 \<le> 0x100000000"
    using assms(1,3) by (simp_all add: blk_request_def in_ram_region_def bus_ok_def)
  have "unat (iov_base h + 8) = unat (iov_base h) + 8"
    using unat_plus_nat [of "iov_base h" 8] hdr by simp
  then have "load_le (bus_bytes (popped m)) (iov_base h) 4 = load_le (bus_bytes m) (iov_base h) 4"
    "load_le (bus_bytes (popped m)) (iov_base h + 8) 8 = load_le (bus_bytes m) (iov_base h + 8) 8"
    using assms(2) e hdr load_after [of "iov_base h" 4 "event_addr m" 2] load_after [of "iov_base h + 8" 8 "event_addr m" 2]
    by (auto simp: popped_bytes apart_def simp del: load_le.simps store_le.simps)
  then show "request_type (popped m) h = request_type m h" "request_sector (popped m) h = request_sector m h"
    by (simp_all add: request_type_def request_sector_def del: load_le.simps)
  show "used_elem (popped m) = used_elem m"
    by (simp add: used_elem_def used_slot_def)
  show "blk_request (popped m) r h d s"
    using assms(1) by (simp add: blk_request_def used_ring_ok_def in_ram_region_def)
qed

text \<open>The worker's next pass over a read request in the mailbox.\<close>

lemma worker_reads:
  assumes "blk_idle q" "blk_request q r h d s" "request_type q h = 0"
    and "blk_file (m_blk q) = Some file" "length file < 2 ^ 63"
    and "512 * unat (request_sector q h) + unat (iov_len d) \<le> length file"
  shows "\<exists>m2. blk_work bus_read (bus_write (Suc k) PARAMS_NONE) (blk_take (in_mailbox r q)) = Inr m2 \<and>
    as_read_blob bus_read (iov_base d) (unat (iov_len d)) m2 = Inr (sectors q h d file, m2) \<and>
    request_done q r s m2 \<and> blk_idle m2"
proof -
  define f where "f = (\<lambda>b::virtio_blk_t. b\<lparr>blk_req := None, blk_cur := Some r, blk_busy := True\<rparr>)"
  define mw where "mw = map_blk f q"
  have f: "flags_only f"
    by (simp add: f_def flags_only_def)
  have idle: "blk_req (m_blk q) = None" "blk_cur (m_blk q) = None" "\<not> blk_busy (m_blk q)"
    using assms(1) by (simp_all add: blk_idle_def)
  have take: "blk_cur (m_blk (blk_take (in_mailbox r q))) = Some r"
    "map_blk (\<lambda>b. b\<lparr>blk_busy := True\<rparr>) (blk_take (in_mailbox r q)) = mw"
    using idle by (simp_all add: blk_take_def in_mailbox_def map_blk_def mw_def f_def)
  have req: "blk_request mw r h d s" "request_type mw h = 0" "blk_file (m_blk mw) = Some file"
    "512 * unat (request_sector mw h) + unat (iov_len d) \<le> length file" "sectors mw h d file = sectors q h d file"
    using assms(2-4,6)
    by (simp_all add: mw_def flags_only_request [OF f] flags_only_same [OF f] sectors_def)
  obtain p where p: "do_request bus_read (bus_write (Suc k) PARAMS_NONE) r mw =
      Inr (completed r (iov_base s) p (filled mw h d file))"
    "map (\<lambda>i. completed_bytes r (iov_base s) (filled mw h d file) (iov_base d + of_nat i)) [0..<unat (iov_len d)] =
       sectors q h d file"
    "request_done mw r s (completed r (iov_base s) p (filled mw h d file))"
    using blk_read_completed [OF req(1-4) assms(5), of k thesis] req(5) by metis
  let ?m' = "completed r (iov_base s) p (filled mw h d file)"
  let ?g = "\<lambda>b::virtio_blk_t. b\<lparr>blk_busy := False, blk_cur := None\<rparr>"
  let ?m2 = "map_blk ?g ?m'"
  have g: "flags_only ?g" by simp
  have work: "blk_work bus_read (bus_write (Suc k) PARAMS_NONE) (blk_take (in_mailbox r q)) = Inr ?m2"
    using take p(1) by (simp add: blk_work_def del: bus_write.simps)
  have ok: "bus_ok ?m' = bus_ok mw" "in_ram_region ?m' = in_ram_region mw"
    by (simp_all add: filled_def) (simp add: completed_def in_ram_region_def fun_eq_iff put_bytes_def)
  have "in_ram_region ?m2 (iov_base d) (unat (iov_len d))" "iov_base d mod 8 = 0"
    using req(1) flags_only_same(3) [OF g, of ?m'] ok(2) by (simp_all add: blk_request_def)
  then have "as_read_blob bus_read (iov_base d) (unat (iov_len d)) ?m2 = Inr (sectors q h d file, ?m2)"
    using p(2) flags_only_same(1) [OF g, of ?m'] by (simp add: as_read_blob_ram)
  moreover have "request_done q r s ?m2"
    using flags_only_done [OF g req(1) p(3) ok(1)] by (simp add: request_done_def mw_def flags_only_same [OF f])
  moreover have "blk_idle ?m2"
    using idle by (simp add: blk_idle_def map_blk_def completed_def filled_def put_bytes_def mw_def f_def)
  ultimately show ?thesis
    using work by blast
qed

section \<open>Properties\<close>

text \<open>C28.  Reading the disk, from the driver's notification to the data in its buffer.  The driver has
  posted one request to read sectors; the device is idle.  The store to \<open>QUEUE_NOTIFY\<close>, through
  the bus, returns with the request taken off the queue and in the mailbox, and no interrupt yet;
  the worker's next pass then fills the buffer with the sectors, writes status and used ring,
  raises the interrupt, and is idle again.\<close>

theorem disk_read_path:
  assumes "blk_attached m" "blk_idle m" "one_posted m [h, d, s]"
    and "blk_request m (next_request m [h, d, s]) (desc_iov h) (desc_iov d) (desc_iov s)"
    and "apart (desc_addr h) 16 (event_addr m) 2" "request_type m (desc_iov h) = 0"
    and "blk_file (m_blk m) = Some file" "length file < 2 ^ 63"
    and "512 * unat (request_sector m (desc_iov h)) + unat (iov_len (desc_iov d)) \<le> length file"
  shows "\<exists>m1 m2. bus_write (Suc (Suc (Suc n))) params m 0x10001050 v 4 = Inr (0, m1) \<and>
    last_avail_idx (the_vq m1) = last_avail_idx (the_vq m) + 1 \<and> m_plic m1 = m_plic m \<and>
    blk_work bus_read (bus_write (Suc k) PARAMS_NONE) (blk_take m1) = Inr m2 \<and>
    as_read_blob bus_read (desc_addr d) (unat (iov_len (desc_iov d))) m2 =
      Inr (sectors m (desc_iov h) (desc_iov d) file, m2) \<and>
    request_done m (next_request m [h, d, s]) (desc_iov s) m2 \<and> blk_idle m2"
proof -
  let ?r = "next_request m [h, d, s]" and ?h = "desc_iov h" and ?d = "desc_iov d" and ?s = "desc_iov s"
  let ?m1 = "in_mailbox ?r (popped m)"
  have "queue_ready m [h, d, s]"
    using assms(3) by (simp add: one_posted_def)
  then have event: "bus_ok m (event_addr m) 2"
    by (simp add: queue_ready_def)
  have base: "iov_base ?h = desc_addr h" "iov_base ?d = desc_addr d"
    by (simp_all add: desc_iov_def)
  note pop = popped_request [OF assms(4) assms(5) [folded base(1)] event]
  have popped: "blk_idle (popped m)" "blk_file (m_blk (popped m)) = Some file" "sectors (popped m) ?h ?d file = sectors m ?h ?d file"
    using assms(2,7) pop(3)
    by (simp_all add: sectors_def) (simp add: blk_idle_def popped_def map_vq_def Let_def put_bytes_def)
  have "bus_write (Suc (Suc (Suc n))) params m 0x10001050 v 4 = Inr (0, ?m1)"
    using notify_store [OF assms(1)] notify_one [OF assms(3,2)] by (simp del: bus_write.simps)
  moreover have "last_avail_idx (the_vq ?m1) = last_avail_idx (the_vq m) + 1" "m_plic ?m1 = m_plic m"
    by (simp_all add: in_mailbox_def map_blk_def) (simp add: the_vq_def popped_def map_vq_def Let_def put_bytes_def)
  moreover have "request_done (popped m) ?r ?s m2 \<Longrightarrow> request_done m ?r ?s m2" for m2
    using pop(4) by (simp add: request_done_def)
  ultimately show ?thesis
    using worker_reads [OF popped(1) pop(1) _ popped(2) assms(8), of k] assms(6,9) pop(2,3) popped(3) base(2) by metis
qed

text \<open>C29.  The hart takes the disk's interrupt: if source 1 is the first pending one after a completed
  request and the driver has enabled it, the next pass of the main loop enters the supervisor's
  trap handler with the cause of an external interrupt and the interrupted program counter;
  reading the claim register there answers 1 and clears the pending bit.\<close>

theorem disk_interrupt:
  assumes "plic_inv (m_plic m)" "first_pending 1 (m_plic m)" "source_on 1 m"
    and "m_as m = root_as" "0x1000 \<le> m_pc m" "csrs m STVEC \<noteq> 0"
  shows "\<exists>m' m''. cpu_step fuel m = Inr m' \<and> m_pc m' = csrs m STVEC \<and> priv m' = S_MODE \<and>
    csrs m' SCAUSE = 0x8000000000000009 \<and> csrs m' SEPC = m_pc m \<and>
    bus_read m' 0xC201004 4 = Inr (1, m'') \<and> \<not> bit (plic_pending (m_plic m'') ! 0) 1"
proof -
  obtain m' m'' where "cpu_step fuel m = Inr m'" "delivered 1 m m' m''"
    using assms by (rule_tac source_delivered [of m 1 fuel]) auto
  then show ?thesis
    by (auto simp: delivered_def)
qed

section \<open>An example\<close>

text \<open>A machine as \<open>main\<close> leaves it has its disk attached and idle.\<close>

lemma machine_init_blk: "machine_init h im = Inr m \<Longrightarrow> blk_attached m \<and> blk_idle m"
  by (auto simp: machine_init_def and_then_eq_Inr cpu_enable_clock_def get_clock_def csr_init_def machine_reset_def
      Let_def blk_attached_def blk_idle_def virtio_blk_init_def)

text \<open>A ring of 8 entries; its first descriptor is an indirect table of three.\<close>

definition demo_table :: "u8 list" where
  "demo_table =
    [0, 0x10, 0, 0x80, 0, 0, 0, 0, 16, 0, 0, 0, 1, 0, 1, 0,
     0, 0x20, 0, 0x80, 0, 0, 0, 0, 2, 0, 0, 0, 3, 0, 2, 0,
     0, 0x30, 0, 0x80, 0, 0, 0, 0, 1, 0, 0, 0, 2, 0, 0, 0]"

definition demo_posted_bytes :: "u64 \<Rightarrow> u8" where
  "demo_posted_bytes a =
    (if 0x80006000 \<le> a \<and> a < 0x80006030 then demo_table ! unat (a - 0x80006000)
     else if a = 0x80004001 then 0x60 else if a = 0x80004003 then 0x80 else if a = 0x80004008 then 0x30
     else if a = 0x8000400C then 4 else if a = 0x80004082 then 1 else 0)"

definition demo_posted :: machine where
  "demo_posted = put_bytes (demo_disk 0) demo_posted_bytes"

definition demo_hdr :: vring_desc_t where
  "demo_hdr = \<lparr>desc_addr = 0x80001000, desc_len = 16, desc_flags = 1, desc_next = 1\<rparr>"
definition demo_dat :: vring_desc_t where
  "demo_dat = \<lparr>desc_addr = 0x80002000, desc_len = 2, desc_flags = 3, desc_next = 2\<rparr>"
definition demo_st :: vring_desc_t where
  "demo_st = \<lparr>desc_addr = 0x80003000, desc_len = 1, desc_flags = 2, desc_next = 0\<rparr>"

lemma demo_posted_facts:
  "bus_bytes demo_posted = demo_posted_bytes" "m_as demo_posted = root_as"
  "ram_size (m_ram demo_posted) = 0x80000000" "last_avail_idx (the_vq demo_posted) = 0"
  "the_vring demo_posted = \<lparr>vring_num = 8, vring_num_default = 0, vring_align_field = 4096,
     vring_desc = 0x80004000, vring_avail = 0x80004080, vring_used = 0x80005000\<rparr>"
  "blk_file (m_blk demo_posted) = Some [5, 6, 7, 8]" "plic_inv (m_plic demo_posted)"
  "vdev_irq_num (m_blk demo_posted) = 1" "blk_attached demo_posted" "blk_idle demo_posted"
proof -
  have d: "blk_attached demo_machine" "blk_idle demo_machine"
    using machine_init_blk [OF demo_machine_init] by simp_all
  show "bus_bytes demo_posted = demo_posted_bytes" "m_as demo_posted = root_as"
    "ram_size (m_ram demo_posted) = 0x80000000" "last_avail_idx (the_vq demo_posted) = 0"
    "the_vring demo_posted = \<lparr>vring_num = 8, vring_num_default = 0, vring_align_field = 4096,
       vring_desc = 0x80004000, vring_avail = 0x80004080, vring_used = 0x80005000\<rparr>"
    "blk_file (m_blk demo_posted) = Some [5, 6, 7, 8]" "plic_inv (m_plic demo_posted)"
    "vdev_irq_num (m_blk demo_posted) = 1" "blk_attached demo_posted" "blk_idle demo_posted"
    using d by (simp_all add: demo_posted_def put_bytes_def bus_bytes_def demo_disk_def demo_machine_fields
        ram_init_def the_vq_def the_vring_def fun_eq_iff plic_init_inv blk_attached_def blk_idle_def)
qed

lemma demo_posted_descs:
  "desc_at demo_posted_bytes 0x80004000 = \<lparr>desc_addr = 0x80006000, desc_len = 0x30, desc_flags = 4, desc_next = 0\<rparr>"
  "desc_at demo_posted_bytes 0x80006000 = demo_hdr" "desc_at demo_posted_bytes 0x80006010 = demo_dat"
  "desc_at demo_posted_bytes 0x80006020 = demo_st"
  by (simp_all add: desc_at_def parse_desc_def upt_16 demo_posted_bytes_def demo_table_def demo_hdr_def demo_dat_def
      demo_st_def)

lemma demo_posted_places:
  "the_head demo_posted = 0" "head_addr demo_posted = 0x80004084" "event_addr demo_posted = 0x80005044"
  "the_avail_idx demo_posted = 1"
  by (simp_all add: the_head_def head_addr_def event_addr_def demo_posted_facts demo_posted_bytes_def load_le_two)

lemma demo_posted_index: "load_le demo_posted_bytes 0x80004082 2 = 1"
  by (simp add: load_le_two demo_posted_bytes_def)

lemma demo_posted_ready: "one_posted demo_posted [demo_hdr, demo_dat, demo_st]"
  by (simp add: one_posted_def queue_ready_def demo_posted_places demo_posted_facts demo_posted_descs Let_def
      bus_ok_def access_size_def desc_ok_def in_ram_region_def BlockIo.apart_def)
    (simp add: demo_hdr_def demo_dat_def demo_st_def
      demo_posted_descs(3,4) [simplified demo_dat_def demo_st_def] demo_posted_index)

lemma demo_posted_request:
  "blk_request demo_posted (next_request demo_posted [demo_hdr, demo_dat, demo_st]) (desc_iov demo_hdr)
     (desc_iov demo_dat) (desc_iov demo_st)"
  "request_type demo_posted (desc_iov demo_hdr) = 0" "request_sector demo_posted (desc_iov demo_hdr) = 0"
proof -
  show "blk_request demo_posted (next_request demo_posted [demo_hdr, demo_dat, demo_st]) (desc_iov demo_hdr)
      (desc_iov demo_dat) (desc_iov demo_st)"
    by (simp add: blk_request_def next_request_def desc_iov_def demo_hdr_def demo_dat_def demo_st_def used_ring_ok_def
        in_ram_region_def demo_posted_facts BlockIo.apart_def)
  have "i < 4 \<Longrightarrow> demo_posted_bytes (0x80001000 + of_nat i) = 0" "i < 8 \<Longrightarrow> demo_posted_bytes (0x80001008 + of_nat i) = 0" for i
    using less_8 [of i] by (auto simp: demo_posted_bytes_def)
  then have "load_le demo_posted_bytes 0x80001000 4 = 0" "load_le demo_posted_bytes 0x80001008 8 = 0"
    using load_le_zero [of 4 demo_posted_bytes "0x80001000"] load_le_zero [of 8 demo_posted_bytes "0x80001008"] by blast+
  then show "request_type demo_posted (desc_iov demo_hdr) = 0" "request_sector demo_posted (desc_iov demo_hdr) = 0"
    by (simp_all add: request_type_def request_sector_def demo_posted_facts desc_iov_def demo_hdr_def del: load_le.simps)
qed

lemma disk_read_path_witness:
  "\<exists>m1 m2. bus_write 3 PARAMS_NONE demo_posted 0x10001050 0 4 = Inr (0, m1) \<and>
     blk_work bus_read (bus_write 1 PARAMS_NONE) (blk_take m1) = Inr m2 \<and>
     as_read_blob bus_read 0x80002000 2 m2 = Inr ([5, 6], m2) \<and> blk_idle m2"
proof -
  have apart: "BlockIo.apart (desc_addr demo_hdr) 16 (event_addr demo_posted) 2"
    by (simp add: demo_posted_places demo_hdr_def BlockIo.apart_def)
  have len: "unat (iov_len (desc_iov demo_dat)) = 2" "desc_addr demo_dat = 0x80002000"
    by (simp_all add: desc_iov_def demo_dat_def)
  have "sectors demo_posted (desc_iov demo_hdr) (desc_iov demo_dat) [5, 6, 7, 8] = [5, 6]"
    by (simp add: sectors_def demo_posted_request len)
  with disk_read_path [OF demo_posted_facts(9,10) demo_posted_ready demo_posted_request(1) apart
      demo_posted_request(2) demo_posted_facts(6), of 0 PARAMS_NONE 0 0] show ?thesis
    by (simp add: demo_posted_request(3) len numeral_3_eq_3 del: bus_write.simps) blast
qed

text \<open>A machine in user mode whose driver waits for the disk, source 1 pending.\<close>

definition demo_waiting :: machine where
  "demo_waiting = (demo_listening 1)\<lparr>m_plic := (m_plic (demo_listening 1))\<lparr>plic_pending := [2, 0, 0, 0, 0]\<rparr>\<rparr>"

lemma demo_waiting_facts:
  "plic_inv (m_plic demo_waiting)" "first_pending 1 (m_plic demo_waiting)" "source_on 1 demo_waiting"
  "m_as demo_waiting = root_as" "m_pc demo_waiting = 0x80000000" "csrs demo_waiting STVEC = 0x80001000"
  using demo_listening_facts [of 1]
  by (simp_all add: demo_waiting_def plic_inv_def first_pending_def lowest_in_word_def source_on_def intr_enabled_def
      priv_def)

lemma disk_interrupt_witness:
  "\<exists>m' m''. cpu_step 1 demo_waiting = Inr m' \<and> m_pc m' = 0x80001000 \<and> priv m' = S_MODE \<and>
     csrs m' SEPC = 0x80000000 \<and> bus_read m' 0xC201004 4 = Inr (1, m'')"
  using disk_interrupt [OF demo_waiting_facts(1-4), of 1] by (simp add: demo_waiting_facts) blast


section \<open>The configuration space\<close>

lemma config_byte:
  assumes "blk_attached m" "length (vdev_config (m_blk m)) = 256" "i < 256"
  shows "bus_read m (0x10001100 + of_nat i) 1 = Inr (ucast (vdev_config (m_blk m) ! i), m)"
proof -
  let ?a = "0x10001100 + of_nat i :: u64"
  have a: "unat ?a = 0x10001100 + i" "unat (?a - 0x10001000) = 0x100 + i" "unat (?a - 0x10001000 - 0x100) = i"
    using assms(3) by (simp_all add: unat_word_ariths unat_of_nat)
  have "virtio_space 0 \<in> set root_children"
    by (simp add: root_children_def upt_rec)
  moreover have "in_space ?a (virtio_space 0)"
    using a(1) assms(3) by (simp add: virtio_space_def in_space_def word_le_nat_alt)
  ultimately have "as_resolve root_as ?a = (virtio_space 0, ?a - 0x10001000)"
    using as_resolve_root by (simp add: virtio_space_def)
  moreover have "0x100 \<le> ?a - 0x10001000"
    using a(2) by (simp add: word_le_nat_alt)
  ultimately show ?thesis
    using assms a
    by (simp add: bus_read_def as_read_nommu_resolve access_size_def virtio_space_def blk_attached_def
        virtio_mmio_read_def vmmio_vdev_def array_get_def Let_def)
qed

lemma machine_init_config:
  assumes "machine_init h im = Inr m" "image_disk im = Some file"
  shows "length file < 2 ^ 63"
    and "vdev_config (m_blk m) = config_bytes (blk_config (of_nat (length file))) @ replicate 196 0"
  using assms
  by (auto simp: machine_init_def and_then_eq_Inr cpu_enable_clock_def get_clock_def csr_init_def machine_reset_def
      Let_def virtio_blk_init_def virtio_blk_init_config_def get_file_size_def length_config_bytes
      split: option.splits if_splits)

lemma load_le_bytes:
  assumes "\<And>i. i < 8 \<Longrightarrow> mem (a + of_nat i) = le_bytes v 8 ! i"
  shows "load_le mem a 8 = v"
  by (rule bit_word_eqI) (use assms in \<open>simp add: bit_load_le le_bytes_nth bit_simps\<close>)

text \<open>C30.  What the driver finds in the configuration space.  In a machine \<open>main\<close> has started with a
  disk image, reading the space byte by byte through the bus gives the packed structure
  \<open>virtio_blk_config_t\<close> that \<open>virtio_blk_init\<close> filled; the first eight bytes are the number of
  512-byte sectors of the image, in little endian.\<close>

theorem config_space:
  assumes "machine_init h im = Inr m" "image_disk im = Some file"
  shows "(\<forall>i<60. bus_read m (0x10001100 + of_nat i) 1 =
       Inr (ucast (config_bytes (blk_config (of_nat (length file))) ! i), m)) \<and>
    load_le (\<lambda>a. ucast (fst (projr (bus_read m a 1)))) 0x10001100 8 = of_nat (length file div 512)"
proof -
  note c = machine_init_config [OF assms]
  let ?bytes = "config_bytes (blk_config (of_nat (length file)))"
  have read: "bus_read m (0x10001100 + of_nat i) 1 = Inr (ucast (?bytes ! i), m)" if "i < 60" for i
    using config_byte [of m i] machine_init_blk [OF assms(1)] that
    by (simp add: c(2) length_config_bytes nth_append)
  have widen: "ucast (ucast b :: u64) = b" for b :: u8
    by (rule bit_word_eqI) (simp add: bit_simps)
  have "?bytes ! i = le_bytes (of_nat (length file div 512)) 8 ! i" if "i < 8" for i
  proof -
    have "length file div 512 = unat (drop_bit 9 (of_nat (length file) :: u64))"
      using c(1) by (simp add: unat_drop_bit_eq drop_bit_eq_div unat_of_nat unat_div)
    then have "(of_nat (length file div 512) :: u64) = drop_bit 9 (of_nat (length file))"
      by simp
    then show ?thesis
      using that by (simp add: config_bytes_def blk_config_def nth_append le_bytes_def del: upt_rec_numeral)
  qed
  then have "load_le (\<lambda>a. ucast (fst (projr (bus_read m a 1)))) 0x10001100 8 = of_nat (length file div 512)"
    using read by (intro load_le_bytes) (simp add: widen)
  with read show ?thesis by blast
qed

lemma config_space_witness:
  "bus_read demo_machine 0x10001115 1 = Inr (2, demo_machine) \<and>
   load_le (\<lambda>a. ucast (fst (projr (bus_read demo_machine a 1)))) 0x10001100 8 = 0"
proof -
  have "image_disk demo_image = Some [4]"
    by (simp add: demo_image_def)
  from config_space [OF demo_machine_init this] have
    "\<forall>i<60. bus_read demo_machine (0x10001100 + of_nat i) 1 = Inr (ucast (config_bytes (blk_config 1) ! i), demo_machine)"
    "load_le (\<lambda>a. ucast (fst (projr (bus_read demo_machine a 1)))) 0x10001100 8 = 0"
    by simp_all
  moreover have "config_bytes (blk_config 1) ! 21 = 2"
    by code_simp
  ultimately show ?thesis
    by (auto dest: spec [of _ 21])
qed

end
