(* ===== verification/Elf.thy ===== *)
theory Elf
  imports AddressSpace
begin

text \<open>
  The structures of ELF files as \<open>elf.h\<close> and \<open>module.h\<close> declare them: the file header, a section
  header and a symbol.  A structure read from a file is its fields in order, little endian, with
  the alignment of the declarations (there are no gaps).
\<close>

definition le_field :: "u8 list \<Rightarrow> nat \<Rightarrow> nat \<Rightarrow> u64" where
  "le_field bs off n = le_word (take n (drop off bs))"

section \<open>The file header\<close>

record elf64_ehdr =
  e_ident :: "u8 list"
  e_type :: u16
  e_machine :: u16
  e_version :: u32
  e_entry :: u64
  e_phoff :: u64
  e_shoff :: u64
  e_flags :: u32
  e_ehsize :: u16
  e_phentsize :: u16
  e_phnum :: u16
  e_shentsize :: u16
  e_shnum :: u16
  e_shstrndx :: u16

definition parse_ehdr :: "u8 list \<Rightarrow> elf64_ehdr" where
  "parse_ehdr bs =
    \<lparr>e_ident = take 16 bs, e_type = ucast (le_field bs 16 2), e_machine = ucast (le_field bs 18 2),
     e_version = ucast (le_field bs 20 4), e_entry = le_field bs 24 8, e_phoff = le_field bs 32 8,
     e_shoff = le_field bs 40 8, e_flags = ucast (le_field bs 48 4), e_ehsize = ucast (le_field bs 52 2),
     e_phentsize = ucast (le_field bs 54 2), e_phnum = ucast (le_field bs 56 2),
     e_shentsize = ucast (le_field bs 58 2), e_shnum = ucast (le_field bs 60 2),
     e_shstrndx = ucast (le_field bs 62 2)\<rparr>"

section \<open>Sections and symbols\<close>

record elf64_shdr =
  sh_name :: u32
  sh_type :: u32
  sh_flags :: u64
  sh_addr :: u64
  sh_offset :: u64
  sh_size :: u64
  sh_link :: u32
  sh_info :: u32
  sh_addralign :: u64
  sh_entsize :: u64

definition parse_shdr :: "u8 list \<Rightarrow> elf64_shdr" where
  "parse_shdr bs =
    \<lparr>sh_name = ucast (le_field bs 0 4), sh_type = ucast (le_field bs 4 4), sh_flags = le_field bs 8 8,
     sh_addr = le_field bs 16 8, sh_offset = le_field bs 24 8, sh_size = le_field bs 32 8,
     sh_link = ucast (le_field bs 40 4), sh_info = ucast (le_field bs 44 4),
     sh_addralign = le_field bs 48 8, sh_entsize = le_field bs 56 8\<rparr>"

record elf64_sym =
  st_name :: u32
  st_info :: u8
  st_other :: u8
  st_shndx :: u16
  st_value :: u64
  st_size :: u64

definition parse_sym :: "u8 list \<Rightarrow> elf64_sym" where
  "parse_sym bs =
    \<lparr>st_name = ucast (le_field bs 0 4), st_info = ucast (le_field bs 4 1), st_other = ucast (le_field bs 5 1),
     st_shndx = ucast (le_field bs 6 2), st_value = le_field bs 8 8, st_size = le_field bs 16 8\<rparr>"

section \<open>The length in the header\<close>

text \<open>A field outside a part that is replaced is read as before; a replaced one is the new value.\<close>

lemma le_word_le_bytes: "le_word (le_bytes v 8) = v"
proof (rule bit_word_eqI)
  fix k assume "k < LENGTH(64)"
  then have "k div 8 < 8" by simp
  then show "bit (le_word (le_bytes v 8)) k = bit v k"
    using \<open>k < LENGTH(64)\<close> by (simp add: bit_le_word le_bytes_nth bit_simps) (simp add: le_bytes_def)
qed

lemma le_field_before: "off + n \<le> length xs \<Longrightarrow> le_field (xs @ ys) off n = le_field xs off n"
  by (simp add: le_field_def)

lemma le_field_after:
  "length xs + length ys = length xs' \<Longrightarrow> length xs' \<le> off \<Longrightarrow> le_field (xs @ ys @ zs) off n = le_field (xs' @ zs) off n"
  by (simp add: le_field_def)

lemma set_phoff:
  assumes "64 \<le> length bs"
  shows "parse_ehdr (take 32 bs @ le_bytes v 8 @ drop 40 bs) = (parse_ehdr bs)\<lparr>e_phoff := v\<rparr>"
proof -
  let ?new = "take 32 bs @ le_bytes v 8 @ drop 40 bs"
  have len: "length (le_bytes v 8) = 8" "length (take 32 bs) = 32"
    using assms by (simp_all add: le_bytes_def)
  have before: "le_field ?new off n = le_field bs off n" if "off + n \<le> 32" for off n
  proof -
    have "le_field bs off n = le_field (take 32 bs @ drop 32 bs) off n"
      by simp
    then show ?thesis
      using that len(2) le_field_before [of off n "take 32 bs"] by metis
  qed
  have after: "le_field ?new off n = le_field bs off n" if "40 \<le> off" for off n
    using that len assms le_field_after [of "take 32 bs" "le_bytes v 8" "take 40 bs" off "drop 40 bs" n]
    by simp
  have "le_field ?new 32 8 = v"
    using len by (simp add: le_field_def le_word_le_bytes)
  then show ?thesis
    using before after len(2) by (simp add: parse_ehdr_def)
qed

end
