(* ===== verification/Modules.thy ===== *)
theory Modules
  imports CString Elf
begin

text \<open>
  \<open>module.c\<close> and \<open>module.h\<close>: the kernel modules of the directory \<open>image/\<close>, the symbols they export
  and need, and the order they are loaded in.  The host gives the directory listing and the
  contents of files.  A module is known by its place in the list; the intrusive lists are
  lists, as theory \<open>Lists\<close> justifies for the operations of \<open>list.h\<close>.  Allocation is taken to succeed.
\<close>

section \<open>Data\<close>

datatype mod_status = M_STATUS_NONE | M_STATUS_DOING | M_STATUS_DONE

record module_t =
  mod_name :: cstring
  mod_state :: mod_status
  undef_syms :: "cstring list"
  dependencies :: "nat list"

record symbol_t =
  sym_name :: cstring
  sym_mod :: "nat option"

type_synonym files = "cstring \<Rightarrow> u8 list option"

abbreviation (input) PAGE_OFFSET :: u64 where "PAGE_OFFSET \<equiv> 0xffffffe000000000"

section \<open>Finding the modules\<close>

definition check_module :: "cstring option \<Rightarrow> cstring \<Rightarrow> bool result" where
  "check_module startpoint name =
    (if (case startpoint of None \<Rightarrow> False | Some sp \<Rightarrow> has_prefix sp name) then Inr True
     else if has_prefix (str ''test_'') name then Inr False
     else case strrchr 46 name of
       None \<Rightarrow> Inl (UB ''check_module'')
     | Some p \<Rightarrow> Inr (p = str ''.ko''))"

definition new_module :: "cstring \<Rightarrow> module_t" where
  "new_module name =
     \<lparr>mod_name = name, mod_state = M_STATUS_NONE, undef_syms = [], dependencies = []\<rparr>"

fun scan_entries ::
  "cstring option \<Rightarrow> cstring list \<Rightarrow> module_t list \<times> bool \<times> bool \<Rightarrow> (module_t list \<times> bool \<times> bool) result" where
  "scan_entries sp [] acc = Inr acc"
| "scan_entries sp (name # names) (mods, has_startup, has_system_map) =
     and_then (check_module sp name) (\<lambda>is_mod.
       scan_entries sp names
         (if is_mod then (mods @ [new_module name], has_startup, has_system_map)
          else if name = str ''startup.bin'' then (mods, True, has_system_map)
          else if name = str ''System.map'' then (mods, has_startup, True)
          else (mods, has_startup, has_system_map)))"

text \<open>The loop \<open>while (n--)\<close> visits the listing backwards.\<close>

definition discover_modules :: "cstring option \<Rightarrow> cstring list option \<Rightarrow> module_t list result" where
  "discover_modules sp namelist =
    (case namelist of
       None \<Rightarrow> Inl (Panic ''discover_modules'')
     | Some names \<Rightarrow>
         and_then (scan_entries sp (rev names) ([], False, False)) (\<lambda>(mods, has_startup, has_system_map).
           if \<not> has_startup then Inl (Panic ''discover_modules'')
           else if \<not> has_system_map then Inl (Panic ''discover_modules'')
           else Inr mods))"

section \<open>The symbols of the startup image\<close>

fun syms_range :: "cstring list \<Rightarrow> u64 \<Rightarrow> u64 \<Rightarrow> u64 \<times> u64" where
  "syms_range [] start end = (start, end)"
| "syms_range (line # ls) start end =
     (let (start, end) =
        (if strstr (str ''_start_ksymtab_strings'') line then (fst (strtoul16 line), end)
         else if strstr (str ''_end_ksymtab_strings'') line then (start, fst (strtoul16 line))
         else (start, end)) in
      if start \<noteq> 0 \<and> end \<noteq> 0 then (start, end) else syms_range ls start end)"

definition detect_syms_range :: "files \<Rightarrow> (u32 \<times> u32) result" where
  "detect_syms_range fs =
    (case fs (str ''System.map'') of
       None \<Rightarrow> Inl (Panic ''detect_syms_range'')
     | Some bs \<Rightarrow>
         let (start, end) = syms_range (file_lines bs) 0 0 in
         Inr (ucast (start - PAGE_OFFSET), ucast (end - start)))"

text \<open>\<open>export_symbols\<close>: the strings of a buffer, one after the other; one that does not end inside
  the buffer is read past it.\<close>

function export_names :: "u8 list \<Rightarrow> cstring list result" where
  "export_names bs =
    (if bs = [] then Inr []
     else if 0 \<notin> set bs then Inl (UB ''export_symbols'')
     else and_then (export_names (drop (Suc (length (cstr bs))) bs)) (\<lambda>names. Inr (cstr bs # names)))"
  by pat_completeness auto
termination
  by (relation "measure length") auto

declare export_names.simps [simp del]

definition export_symbols :: "nat option \<Rightarrow> u8 list \<Rightarrow> symbol_t list \<Rightarrow> symbol_t list result" where
  "export_symbols m bs sym_list =
     and_then (export_names bs) (\<lambda>names.
       Inr (sym_list @ map (\<lambda>n. \<lparr>sym_name = n, sym_mod = m\<rparr>) names))"

definition init_symtable :: "files \<Rightarrow> symbol_t list result" where
  "init_symtable fs =
    and_then (detect_syms_range fs) (\<lambda>(ksym_ptr, ksym_num).
    case fs (str ''startup.bin'') of
      None \<Rightarrow> Inl (Panic ''init_symtable'')
    | Some bs \<Rightarrow>
        let got = take (unat ksym_num) (drop (unat ksym_ptr) bs);
            buf = got @ replicate (unat ksym_num - length got) 0 in
        export_symbols None buf [])"

section \<open>The symbols of a module\<close>

text \<open>A file being read: its contents and the position.  A negative offset leaves the position.\<close>

definition seek_to :: "nat \<Rightarrow> u64 \<Rightarrow> nat" where
  "seek_to pos off = (if sint off < 0 then pos else unat off)"

definition read_exactly :: "string \<Rightarrow> u8 list \<Rightarrow> nat \<Rightarrow> nat \<Rightarrow> (u8 list \<times> nat) result" where
  "read_exactly f bs pos n =
    (let got = take n (drop pos bs) in
     if length got \<noteq> n then Inl (Panic f) else Inr (got, pos + n))"

definition get_shdr :: "u8 list \<Rightarrow> nat \<Rightarrow> nat \<Rightarrow> elf64_shdr result" where
  "get_shdr sechdrs shnum i =
    (if i < shnum then Inr (parse_shdr (take 64 (drop (64 * i) sechdrs)))
     else Inl (UB ''analysis_module''))"

definition get_strtab :: "u8 list \<Rightarrow> nat \<Rightarrow> elf64_shdr \<Rightarrow> (u8 list \<times> nat) result" where
  "get_strtab bs pos shdr =
     read_exactly ''get_strtab'' bs (seek_to pos (sh_offset shdr)) (unat (sh_size shdr))"

definition string_at :: "string \<Rightarrow> u8 list \<Rightarrow> nat \<Rightarrow> cstring result" where
  "string_at f tab off =
    (if 0 \<in> set (drop off tab) then Inr (cstr (drop off tab)) else Inl (UB f))"

fun undef_names :: "u8 list \<Rightarrow> u8 list \<Rightarrow> nat list \<Rightarrow> cstring list result" where
  "undef_names tab strtab [] = Inr []"
| "undef_names tab strtab (i # js) =
     (let sym = parse_sym (take 24 (drop (24 * i) tab)) in
      if st_shndx sym = 0 then
        and_then (string_at ''discover_undef_syms'' strtab (unat (st_name sym))) (\<lambda>n.
        and_then (undef_names tab strtab js) (\<lambda>ns. Inr (n # ns)))
      else undef_names tab strtab js)"

definition discover_undef_syms ::
  "u8 list \<Rightarrow> nat \<Rightarrow> elf64_shdr \<Rightarrow> u8 list \<Rightarrow> (cstring list \<times> nat) result" where
  "discover_undef_syms bs pos shdr strtab =
     and_then (read_exactly ''discover_undef_syms'' bs (seek_to pos (sh_offset shdr)) (unat (sh_size shdr)))
       (\<lambda>(tab, pos).
     and_then (undef_names tab strtab [1..<unat (sh_size shdr) div 24]) (\<lambda>names. Inr (names, pos)))"

fun scan_sections ::
  "nat \<Rightarrow> u8 list \<Rightarrow> u8 list \<Rightarrow> nat \<Rightarrow> u8 list \<Rightarrow> nat list \<Rightarrow> nat \<Rightarrow> cstring list \<Rightarrow> symbol_t list \<Rightarrow>
   (cstring list \<times> symbol_t list) result" where
  "scan_sections k bs sechdrs shnum secstrings [] pos undefs syms = Inr (undefs, syms)"
| "scan_sections k bs sechdrs shnum secstrings (i # js) pos undefs syms =
     and_then (get_shdr sechdrs shnum i) (\<lambda>shdr.
     if sh_type shdr = 2 then
       and_then (get_shdr sechdrs shnum (unat (sh_link shdr))) (\<lambda>link.
       and_then (get_strtab bs pos link) (\<lambda>(strtab, pos).
       and_then (discover_undef_syms bs pos shdr strtab) (\<lambda>(names, pos).
         scan_sections k bs sechdrs shnum secstrings js pos (undefs @ names) syms)))
     else
       and_then (string_at ''analysis_module'' secstrings (unat (sh_name shdr))) (\<lambda>name.
       if name = str ''_ksymtab_strings'' then
         and_then (get_strtab bs pos shdr) (\<lambda>(ksym_str, pos).
         and_then (export_symbols (Some k) ksym_str syms) (\<lambda>syms.
           scan_sections k bs sechdrs shnum secstrings js pos undefs syms))
       else scan_sections k bs sechdrs shnum secstrings js pos undefs syms))"

definition analysis_module ::
  "files \<Rightarrow> nat \<Rightarrow> module_t \<Rightarrow> symbol_t list \<Rightarrow> (module_t \<times> symbol_t list) result" where
  "analysis_module fs k m syms =
    (if 256 \<le> length (str ''image/'') + length (mod_name m) then Inl (UB ''analysis_module'')
     else case fs (mod_name m) of
       None \<Rightarrow> Inl (Panic ''analysis_module'')
     | Some bs \<Rightarrow>
         and_then (read_exactly ''analysis_module'' bs 0 64) (\<lambda>(hdr, pos).
         let ehdr = parse_ehdr hdr; shnum = unat (e_shnum ehdr) in
         and_then (read_exactly ''analysis_module'' bs (seek_to pos (e_shoff ehdr)) (64 * shnum)) (\<lambda>(sechdrs, pos).
         and_then (get_shdr sechdrs shnum (unat (e_shstrndx ehdr))) (\<lambda>strs.
         and_then (get_strtab bs pos strs) (\<lambda>(secstrings, pos).
         and_then (scan_sections k bs sechdrs shnum secstrings [0..<shnum] pos (undef_syms m) syms)
           (\<lambda>(undefs, syms). Inr (m\<lparr>undef_syms := undefs\<rparr>, syms)))))))"

fun analysis_all ::
  "files \<Rightarrow> nat \<Rightarrow> module_t list \<Rightarrow> symbol_t list \<Rightarrow> (module_t list \<times> symbol_t list) result" where
  "analysis_all fs k [] syms = Inr ([], syms)"
| "analysis_all fs k (m # ms) syms =
     and_then (analysis_module fs k m syms) (\<lambda>(m, syms).
     and_then (analysis_all fs (Suc k) ms syms) (\<lambda>(ms, syms). Inr (m # ms, syms)))"

section \<open>Dependencies\<close>

definition match_undef :: "symbol_t list \<Rightarrow> cstring \<Rightarrow> symbol_t option" where
  "match_undef syms name = find (\<lambda>s. sym_name s = name) syms"

definition find_dependency :: "nat list \<Rightarrow> nat \<Rightarrow> bool" where
  "find_dependency deps target \<longleftrightarrow> target \<in> set deps"

fun resolve_undefs :: "symbol_t list \<Rightarrow> cstring list \<Rightarrow> nat list \<Rightarrow> nat list result" where
  "resolve_undefs syms [] deps = Inr deps"
| "resolve_undefs syms (u # us) deps =
     (case match_undef syms u of
        None \<Rightarrow> Inl (Panic ''check_dependency'')
      | Some s \<Rightarrow>
          resolve_undefs syms us
            (case sym_mod s of
               None \<Rightarrow> deps
             | Some d \<Rightarrow> if find_dependency deps d then deps else deps @ [d]))"

definition check_dependency :: "symbol_t list \<Rightarrow> module_t \<Rightarrow> module_t result" where
  "check_dependency syms m =
     and_then (resolve_undefs syms (undef_syms m) (dependencies m)) (\<lambda>deps.
       Inr (m\<lparr>undef_syms := [], dependencies := deps\<rparr>))"

fun check_all :: "symbol_t list \<Rightarrow> module_t list \<Rightarrow> module_t list result" where
  "check_all syms [] = Inr []"
| "check_all syms (m # ms) =
     and_then (check_dependency syms m) (\<lambda>m.
     and_then (check_all syms ms) (\<lambda>ms. Inr (m # ms)))"

section \<open>The order of loading\<close>

text \<open>
  The state of the traversal: the modules, and the modules the callback was called with so
  far.  The bound is on the depth of the recursion.
\<close>

record sort_state =
  st_mods :: "nat \<Rightarrow> module_t"
  st_out :: "nat list"

definition set_status :: "nat \<Rightarrow> mod_status \<Rightarrow> sort_state \<Rightarrow> sort_state" where
  "set_status m x s = s\<lparr>st_mods := (st_mods s)(m := (st_mods s m)\<lparr>mod_state := x\<rparr>)\<rparr>"

definition del_dependency :: "nat \<Rightarrow> nat \<Rightarrow> sort_state \<Rightarrow> sort_state" where
  "del_dependency m d s =
     s\<lparr>st_mods := (st_mods s)(m := (st_mods s m)\<lparr>dependencies := remove1 d (dependencies (st_mods s m))\<rparr>)\<rparr>"

definition call_back :: "nat \<Rightarrow> sort_state \<Rightarrow> sort_state" where
  "call_back m s = s\<lparr>st_out := st_out s @ [m]\<rparr>"

function traverse_dependency :: "nat \<Rightarrow> nat \<Rightarrow> sort_state \<Rightarrow> sort_state result"
  and traverse_list :: "nat \<Rightarrow> nat \<Rightarrow> nat list \<Rightarrow> sort_state \<Rightarrow> (bool \<times> sort_state) result" where
  "traverse_dependency 0 m s = Inl (Nested ''traverse_dependency'')"
| "traverse_dependency (Suc n) m s =
    (if mod_state (st_mods s m) \<noteq> M_STATUS_NONE then Inr s
     else
       let s = set_status m M_STATUS_DOING s in
       and_then (traverse_list n m (dependencies (st_mods s m)) s) (\<lambda>(finished, s).
       if \<not> finished then Inr s
       else if dependencies (st_mods s m) \<noteq> [] then Inl (Panic ''traverse_dependency'')
       else Inr (call_back m (set_status m M_STATUS_DONE s))))"
| "traverse_list n m [] s = Inr (True, s)"
| "traverse_list n m (d # ds) s =
     and_then (traverse_dependency n d s) (\<lambda>s.
       if mod_state (st_mods s d) \<noteq> M_STATUS_DONE then Inr (False, s)
       else traverse_list n m ds (del_dependency m d s))"
  by pat_completeness auto
termination
  by (relation "measures [\<lambda>x. case x of Inl (n, m, s) \<Rightarrow> n | Inr (n, m, ds, s) \<Rightarrow> n,
        \<lambda>x. case x of Inl (n, m, s) \<Rightarrow> 0 | Inr (n, m, ds, s) \<Rightarrow> Suc (length ds)]") auto

fun sort_roots :: "nat \<Rightarrow> nat list \<Rightarrow> sort_state \<Rightarrow> sort_state result" where
  "sort_roots n [] s = Inr s"
| "sort_roots n (m # ms) s =
     and_then (traverse_dependency n m s) (\<lambda>s.
       if mod_state (st_mods s m) \<noteq> M_STATUS_DONE then Inl (Panic ''sort_modules'')
       else sort_roots n ms s)"

definition is_root :: "cstring option \<Rightarrow> module_t \<Rightarrow> bool" where
  "is_root startpoint m \<longleftrightarrow> (case startpoint of None \<Rightarrow> True | Some sp \<Rightarrow> has_prefix sp (mod_name m))"

text \<open>
  \<open>sort_modules\<close>: the modules with their dependencies, then the names its callback is called
  with, in order.  The traversal is at most one call deeper than there are modules.
\<close>

definition read_modules :: "cstring option \<Rightarrow> cstring list option \<Rightarrow> files \<Rightarrow> module_t list result" where
  "read_modules sp namelist fs =
    and_then (discover_modules sp namelist) (\<lambda>mods.
    and_then (init_symtable fs) (\<lambda>syms.
    and_then (analysis_all fs 0 mods syms) (\<lambda>(mods, syms).
      check_all syms mods)))"

definition module_at :: "module_t list \<Rightarrow> nat \<Rightarrow> module_t" where
  "module_at mods i = (if i < length mods then mods ! i else new_module [])"

definition sort_start :: "module_t list \<Rightarrow> sort_state" where
  "sort_start mods = \<lparr>st_mods = module_at mods, st_out = []\<rparr>"

definition root_modules :: "cstring option \<Rightarrow> module_t list \<Rightarrow> nat list" where
  "root_modules sp mods = filter (\<lambda>i. is_root sp (module_at mods i)) [0..<length mods]"

definition sort_modules :: "cstring option \<Rightarrow> cstring list option \<Rightarrow> files \<Rightarrow> cstring list result" where
  "sort_modules sp namelist fs =
    and_then (read_modules sp namelist fs) (\<lambda>mods.
    and_then (sort_roots (Suc (length mods)) (root_modules sp mods) (sort_start mods)) (\<lambda>s.
      Inr (map (\<lambda>i. mod_name (module_at mods i)) (st_out s))))"

end
