(* ===== verification/LoadOrder.thy ===== *)
theory LoadOrder
  imports Modules
begin

text \<open>
  The order \<open>sort_modules\<close> computes: a depth-first traversal of the dependency graph, whose
  result is a topological order of the modules reachable from the roots, unless a cycle is
  reachable; then it panics.
\<close>

section \<open>Dependency graphs\<close>

definition needs :: "(nat \<Rightarrow> nat list) \<Rightarrow> (nat \<times> nat) set" where
  "needs G = {(m, d). d \<in> set (G m)}"

lemma in_needs [simp]: "(m, d) \<in> needs G \<longleftrightarrow> d \<in> set (G m)"
  by (simp add: needs_def)

definition cyclic_from :: "(nat \<Rightarrow> nat list) \<Rightarrow> nat \<Rightarrow> bool" where
  "cyclic_from G m \<longleftrightarrow> (\<exists>c. (m, c) \<in> (needs G)\<^sup>* \<and> (c, c) \<in> (needs G)\<^sup>+)"

lemma cyclic_from_dep: "d \<in> set (G m) \<Longrightarrow> cyclic_from G d \<Longrightarrow> cyclic_from G m"
  unfolding cyclic_from_def by (meson converse_rtrancl_into_rtrancl in_needs)

text \<open>Every module comes after the modules it needs.\<close>

definition load_order :: "(nat \<Rightarrow> nat list) \<Rightarrow> nat list \<Rightarrow> bool" where
  "load_order G ms \<longleftrightarrow> (\<forall>i<length ms. set (G (ms ! i)) \<subseteq> set (take i ms))"

lemma load_order_Nil [simp]: "load_order G []"
  by (simp add: load_order_def)

lemma load_order_snoc: "load_order G (ms @ [m]) \<longleftrightarrow> load_order G ms \<and> set (G m) \<subseteq> set ms"
  by (auto simp: load_order_def nth_append less_Suc_eq)

lemma load_order_before:
  assumes "load_order G ms" "i < length ms" "d \<in> set (G (ms ! i))"
  obtains j where "j < i" "ms ! j = d"
proof -
  have "d \<in> set (take i ms)" using assms by (auto simp: load_order_def)
  then show thesis using that assms(2) by (auto simp: in_set_conv_nth)
qed

lemma load_order_earlier:
  assumes "(m, d) \<in> (needs G)\<^sup>+" "load_order G ms" "i < length ms" "ms ! i = m"
  shows "\<exists>j<i. ms ! j = d"
  using assms
proof (induction arbitrary: i rule: trancl_induct)
  case (base d)
  then show ?case by (metis in_needs load_order_before)
next
  case (step d e)
  then obtain j where j: "j < i" "ms ! j = d" by blast
  then obtain k where "k < j" "ms ! k = e"
    using step by (metis in_needs load_order_before order.strict_trans)
  then show ?case using j(1) by (intro exI [of _ k]) simp
qed

lemma load_order_acyclic:
  assumes "load_order G ms" "distinct ms" "m \<in> set ms"
  shows "\<not> cyclic_from G m"
proof
  assume "cyclic_from G m"
  then obtain c where c: "(m, c) \<in> (needs G)\<^sup>*" "(c, c) \<in> (needs G)\<^sup>+" by (auto simp: cyclic_from_def)
  obtain i where i: "i < length ms" "ms ! i = m" using assms(3) by (auto simp: in_set_conv_nth)
  have "\<exists>j\<le>i. ms ! j = c"
  proof (cases "m = c")
    case False
    then have "(m, c) \<in> (needs G)\<^sup>+" using c(1) by (simp add: rtrancl_eq_or_trancl)
    then show ?thesis using load_order_earlier [OF _ assms(1) i] by (meson less_imp_le)
  qed (use i in blast)
  then obtain j where j: "j < length ms" "ms ! j = c" using i(1) by (metis le_less_trans)
  obtain k where "k < j" "ms ! k = c" using load_order_earlier [OF c(2) assms(1) j] by blast
  then show False using j assms(2) by (auto simp: distinct_conv_nth)
qed

lemma load_order_closed:
  assumes "load_order G ms" "A \<subseteq> set ms"
  shows "(needs G)\<^sup>* `` A \<subseteq> set ms"
proof -
  have "d \<in> set ms" if "(m, d) \<in> (needs G)\<^sup>*" "m \<in> set ms" for m d
    using that
  proof (induction rule: rtrancl_induct)
    case (step d e)
    then obtain i where "i < length ms" "ms ! i = d" by (auto simp: in_set_conv_nth)
    then show ?case using assms(1) step(2) by (auto simp: load_order_def dest: in_set_takeD)
  qed simp
  then show ?thesis using assms(2) by auto
qed

section \<open>The traversal\<close>

abbreviation status :: "sort_state \<Rightarrow> nat \<Rightarrow> mod_status" where
  "status s m \<equiv> mod_state (st_mods s m)"

abbreviation pending_deps :: "sort_state \<Rightarrow> nat \<Rightarrow> nat list" where
  "pending_deps s m \<equiv> dependencies (st_mods s m)"

definition sort_inv :: "(nat \<Rightarrow> nat list) \<Rightarrow> sort_state \<Rightarrow> bool" where
  "sort_inv G s \<longleftrightarrow> distinct (st_out s) \<and> load_order G (st_out s) \<and>
     (\<forall>m. m \<in> set (st_out s) \<longleftrightarrow> status s m = M_STATUS_DONE) \<and>
     (\<forall>m. status s m = M_STATUS_NONE \<longrightarrow> pending_deps s m = G m)"

definition unvisited :: "nat set \<Rightarrow> sort_state \<Rightarrow> nat" where
  "unvisited A s = card {m \<in> A. status s m = M_STATUS_NONE}"

text \<open>What a call on \<open>m\<close> may change of the modules outside \<open>X\<close>.\<close>

definition moved :: "(nat \<Rightarrow> nat list) \<Rightarrow> nat \<Rightarrow> nat set \<Rightarrow> sort_state \<Rightarrow> sort_state \<Rightarrow> bool" where
  "moved G m X s s' \<longleftrightarrow>
     (\<exists>zs. st_out s' = st_out s @ zs \<and> set zs \<subseteq> (needs G)\<^sup>* `` {m}) \<and>
     (\<forall>x. status s x = M_STATUS_DOING \<and> x \<notin> X \<longrightarrow> st_mods s' x = st_mods s x) \<and>
     (\<forall>x. status s' x = M_STATUS_NONE \<longrightarrow> status s x = M_STATUS_NONE)"

definition same_doing :: "sort_state \<Rightarrow> sort_state \<Rightarrow> bool" where
  "same_doing s s' \<longleftrightarrow> (\<forall>x. status s' x = M_STATUS_DOING \<longleftrightarrow> status s x = M_STATUS_DOING)"

definition dep_pre :: "(nat \<Rightarrow> nat list) \<Rightarrow> nat \<Rightarrow> sort_state \<Rightarrow> bool" where
  "dep_pre G m s \<longleftrightarrow> sort_inv G s \<and> (\<forall>x. status s x = M_STATUS_DOING \<longrightarrow> (x, m) \<in> (needs G)\<^sup>+)"

definition dep_post :: "(nat \<Rightarrow> nat list) \<Rightarrow> nat \<Rightarrow> sort_state \<Rightarrow> sort_state \<Rightarrow> bool" where
  "dep_post G m s s' \<longleftrightarrow> sort_inv G s' \<and> moved G m {} s s' \<and>
     (if status s' m = M_STATUS_DONE then same_doing s s' else cyclic_from G m)"

definition list_pre :: "(nat \<Rightarrow> nat list) \<Rightarrow> nat \<Rightarrow> nat list \<Rightarrow> sort_state \<Rightarrow> bool" where
  "list_pre G m ds s \<longleftrightarrow> sort_inv G s \<and> status s m = M_STATUS_DOING \<and> pending_deps s m = ds \<and>
     set ds \<subseteq> set (G m) \<and> set (G m) \<subseteq> set (st_out s) \<union> set ds \<and>
     (\<forall>x. status s x = M_STATUS_DOING \<longrightarrow> (x, m) \<in> (needs G)\<^sup>*)"

definition list_post :: "(nat \<Rightarrow> nat list) \<Rightarrow> nat \<Rightarrow> bool \<Rightarrow> sort_state \<Rightarrow> sort_state \<Rightarrow> bool" where
  "list_post G m fin s s' \<longleftrightarrow> sort_inv G s' \<and> moved G m {m} s s' \<and> status s' m = M_STATUS_DOING \<and>
     (if fin then pending_deps s' m = [] \<and> set (G m) \<subseteq> set (st_out s') \<and> same_doing s s'
      else cyclic_from G m)"

lemma set_status_simps [simp]:
  "st_mods (set_status m x s) = (st_mods s)(m := (st_mods s m)\<lparr>mod_state := x\<rparr>)"
  "st_out (set_status m x s) = st_out s"
  "st_mods (del_dependency m d s) =
     (st_mods s)(m := (st_mods s m)\<lparr>dependencies := remove1 d (pending_deps s m)\<rparr>)"
  "st_out (del_dependency m d s) = st_out s"
  "st_mods (call_back m s) = st_mods s"
  "st_out (call_back m s) = st_out s @ [m]"
  by (simp_all add: set_status_def del_dependency_def call_back_def)

lemma dep_post_visited:
  assumes "dep_pre G m s" "status s m \<noteq> M_STATUS_NONE"
  shows "dep_post G m s s"
proof -
  have "cyclic_from G m" if "status s m \<noteq> M_STATUS_DONE"
  proof -
    have "status s m = M_STATUS_DOING" using assms(2) that by (cases "status s m") auto
    then show ?thesis using assms(1) by (auto simp: dep_pre_def cyclic_from_def)
  qed
  then show ?thesis using assms(1) by (auto simp: dep_post_def dep_pre_def moved_def same_doing_def)
qed

lemma list_pre_start:
  assumes "dep_pre G m s" "status s m = M_STATUS_NONE"
  shows "list_pre G m (G m) (set_status m M_STATUS_DOING s)"
  using assms by (auto simp: list_pre_def dep_pre_def sort_inv_def intro: trancl_into_rtrancl)

lemma dep_post_finished:
  assumes "dep_pre G m s" "status s m = M_STATUS_NONE"
    and "list_post G m True (set_status m M_STATUS_DOING s) s'"
  shows "dep_post G m s (call_back m (set_status m M_STATUS_DONE s'))"
proof -
  let ?t = "set_status m M_STATUS_DOING s"
  have post: "sort_inv G s'" "moved G m {m} ?t s'" "status s' m = M_STATUS_DOING"
      "set (G m) \<subseteq> set (st_out s')" "same_doing ?t s'"
    using assms(3) by (auto simp: list_post_def)
  have "m \<notin> set (st_out s')" using post(1,3) by (auto simp: sort_inv_def)
  then have "sort_inv G (call_back m (set_status m M_STATUS_DONE s'))"
    using post(1,4) by (auto simp: sort_inv_def load_order_snoc)
  moreover have "moved G m {} s (call_back m (set_status m M_STATUS_DONE s'))"
    using post(2) assms(2) by (auto simp: moved_def split: if_splits)
  moreover have "same_doing s (call_back m (set_status m M_STATUS_DONE s'))"
    using post(5) assms(2) by (auto simp: same_doing_def split: if_splits)
  ultimately show ?thesis by (simp add: dep_post_def)
qed

lemma dep_post_unfinished:
  assumes "status s m = M_STATUS_NONE"
    and "list_post G m False (set_status m M_STATUS_DOING s) s'"
  shows "dep_post G m s s'"
  using assms by (auto simp: list_post_def dep_post_def moved_def split: if_splits)

lemma list_post_done: "list_pre G m [] s \<Longrightarrow> list_post G m True s s"
  by (auto simp: list_pre_def list_post_def moved_def same_doing_def)

lemma dep_pre_of_list: "list_pre G m (d # ds) s \<Longrightarrow> dep_pre G d s"
  by (auto simp: list_pre_def dep_pre_def intro: rtrancl_into_trancl1)

lemma moved_up:
  assumes "moved G d X s s'" "d \<in> set (G m)" "X \<subseteq> Y"
  shows "moved G m Y s s'"
proof -
  have "(needs G)\<^sup>* `` {d} \<subseteq> (needs G)\<^sup>* `` {m}"
    using assms(2) by (auto intro: converse_rtrancl_into_rtrancl)
  then show ?thesis using assms(1,3) unfolding moved_def by (meson subset_iff)
qed

lemma moved_trans:
  assumes "moved G m X s s'" "moved G m X s' s''"
  shows "moved G m X s s''"
proof -
  obtain ys zs where "st_out s' = st_out s @ ys" "st_out s'' = st_out s' @ zs"
      "set ys \<subseteq> (needs G)\<^sup>* `` {m}" "set zs \<subseteq> (needs G)\<^sup>* `` {m}"
    using assms unfolding moved_def by blast
  then have "\<exists>zs. st_out s'' = st_out s @ zs \<and> set zs \<subseteq> (needs G)\<^sup>* `` {m}" by simp
  moreover have "\<forall>x. status s x = M_STATUS_DOING \<and> x \<notin> X \<longrightarrow> st_mods s'' x = st_mods s x"
    using assms unfolding moved_def by (metis (full_types))
  ultimately show ?thesis using assms unfolding moved_def by blast
qed

lemma moved_del: "moved G m {m} s (del_dependency m d s)"
  by (simp add: moved_def)

lemma list_post_stop:
  assumes "list_pre G m (d # ds) s" "dep_post G d s s'" "status s' d \<noteq> M_STATUS_DONE"
  shows "list_post G m False s s'"
proof -
  have d: "d \<in> set (G m)" using assms(1) by (auto simp: list_pre_def)
  have "moved G m {m} s s'"
    using moved_up [of G d "{}" s s' m "{m}"] d assms(2) by (simp add: dep_post_def)
  moreover have "st_mods s' m = st_mods s m"
    using assms(1,2) by (auto simp: list_pre_def dep_post_def moved_def)
  moreover have "cyclic_from G m" using d assms(2,3) cyclic_from_dep by (auto simp: dep_post_def)
  ultimately show ?thesis using assms(1,2) by (auto simp: list_post_def dep_post_def list_pre_def)
qed

lemma list_pre_next:
  assumes "list_pre G m (d # ds) s" "dep_post G d s s'" "status s' d = M_STATUS_DONE"
  shows "list_pre G m ds (del_dependency m d s')"
proof -
  have m: "st_mods s' m = st_mods s m"
    using assms(1,2) by (auto simp: list_pre_def dep_post_def moved_def)
  have st: "status (del_dependency m d s') x = status s' x" for x by simp
  have "sort_inv G (del_dependency m d s')"
    using assms(1,2) m by (auto simp: sort_inv_def dep_post_def list_pre_def)
  moreover have "d \<in> set (st_out s')" using assms(2,3) by (auto simp: sort_inv_def dep_post_def)
  moreover have "set (st_out s) \<subseteq> set (st_out s')" using assms(2) by (auto simp: dep_post_def moved_def)
  moreover have "\<forall>x. status s' x = M_STATUS_DOING \<longrightarrow> (x, m) \<in> (needs G)\<^sup>*"
    using assms by (auto simp: dep_post_def same_doing_def list_pre_def)
  ultimately show ?thesis using assms(1) m by (auto simp: list_pre_def)
qed

lemma list_post_next:
  assumes "list_pre G m (d # ds) s" "dep_post G d s s'" "status s' d = M_STATUS_DONE"
    and "list_post G m fin (del_dependency m d s') s''"
  shows "list_post G m fin s s''"
proof -
  have d: "d \<in> set (G m)" using assms(1) by (auto simp: list_pre_def)
  have a: "moved G m {m} s s'"
    using moved_up [of G d "{}" s s' m "{m}"] d assms(2) by (simp add: dep_post_def)
  have b: "moved G m {m} (del_dependency m d s') s''" "same_doing s s'"
    using assms(2,3,4) by (auto simp: list_post_def dep_post_def)
  have "moved G m {m} s s''" by (rule moved_trans [OF moved_trans [OF a moved_del] b(1)])
  moreover have "same_doing s s''" if fin
    using that assms(4) b(2) by (auto simp: list_post_def same_doing_def split: if_splits)
  ultimately show ?thesis using assms(4) by (auto simp: list_post_def)
qed

section \<open>Termination and correctness of the traversal\<close>

lemma unvisited_start:
  assumes "finite A" "m \<in> A" "status s m = M_STATUS_NONE"
  shows "unvisited A (set_status m M_STATUS_DOING s) < unvisited A s"
  unfolding unvisited_def using assms by (intro psubset_card_mono) auto

lemma unvisited_moved: "finite A \<Longrightarrow> moved G m X s s' \<Longrightarrow> unvisited A s' \<le> unvisited A s"
  unfolding unvisited_def by (rule card_mono) (auto simp: moved_def)

lemma unvisited_del [simp]: "unvisited A (del_dependency m d s) = unvisited A s"
proof -
  have "status (del_dependency m d s) x = status s x" for x by simp
  then show ?thesis by (simp add: unvisited_def)
qed

lemma traverse_ok:
  assumes A: "finite A" "\<And>x. x \<in> A \<Longrightarrow> set (G x) \<subseteq> A"
  shows "m \<in> A \<Longrightarrow> dep_pre G m s \<Longrightarrow> unvisited A s < n \<Longrightarrow>
      \<exists>s'. traverse_dependency n m s = Inr s' \<and> dep_post G m s s'"
    and "m \<in> A \<Longrightarrow> list_pre G m ds s \<Longrightarrow> unvisited A s < n \<Longrightarrow>
      \<exists>fin s'. traverse_list n m ds s = Inr (fin, s') \<and> list_post G m fin s s'"
proof (induction n m s and n m ds s rule: traverse_dependency_traverse_list.induct)
  case (2 n m s)
  show ?case
  proof (cases "status s m = M_STATUS_NONE")
    case True
    let ?t = "set_status m M_STATUS_DOING s"
    have deps: "pending_deps ?t m = G m"
      using True 2(3) by (simp add: dep_pre_def sort_inv_def)
    have "unvisited A ?t < n" using unvisited_start [OF A(1) 2(2) True] 2(4) by simp
    then obtain fin s' where s': "traverse_list n m (G m) ?t = Inr (fin, s')" "list_post G m fin ?t s'"
      using 2(1) [of ?t] deps True 2(2) list_pre_start [OF 2(3) True] by auto
    show ?thesis
    proof (cases fin)
      case True
      then have "pending_deps s' m = []" using s'(2) by (simp add: list_post_def)
      then show ?thesis
        using True s' deps \<open>status s m = M_STATUS_NONE\<close> dep_post_finished [OF 2(3) \<open>status s m = M_STATUS_NONE\<close>]
        by (simp add: Let_def)
    next
      case False
      then show ?thesis
        using s' deps \<open>status s m = M_STATUS_NONE\<close> dep_post_unfinished by (simp add: Let_def)
    qed
  qed (use dep_post_visited [OF 2(3)] in simp)
next
  case (3 n m s)
  then show ?case using list_post_done by fastforce
next
  case (4 n m d ds s)
  have d: "d \<in> A" using 4(3,4) A(2) by (auto simp: list_pre_def)
  obtain s' where s': "traverse_dependency n d s = Inr s'" "dep_post G d s s'"
    using 4(1) [OF d dep_pre_of_list [OF 4(4)] 4(5)] by blast
  show ?case
  proof (cases "status s' d = M_STATUS_DONE")
    case True
    have "unvisited A s' < n"
      using unvisited_moved [OF A(1), of G d "{}" s s'] s'(2) 4(5) by (simp add: dep_post_def)
    then show ?thesis
      using 4(2) [OF s'(1)] True 4(3) list_pre_next [OF 4(4) s'(2) True] s'
        list_post_next [OF 4(4) s'(2) True]
      by fastforce
  next
    case False
    then show ?thesis using list_post_stop [OF 4(4) s'(2)] s'(1) by (intro exI [of _ False] exI [of _ s']) simp
  qed
qed simp_all

text \<open>The roots, one after the other.\<close>

lemma sort_roots_ok:
  assumes A: "finite A" "\<And>x. x \<in> A \<Longrightarrow> set (G x) \<subseteq> A"
    and "set roots \<subseteq> A" "sort_inv G s" "\<forall>x. status s x \<noteq> M_STATUS_DOING" "card A < n"
  shows "if \<exists>m\<in>set roots. cyclic_from G m then sort_roots n roots s = Inl (Panic ''sort_modules'')
     else \<exists>s'. sort_roots n roots s = Inr s' \<and> sort_inv G s' \<and> set roots \<subseteq> set (st_out s') \<and>
       (\<exists>zs. st_out s' = st_out s @ zs \<and> set zs \<subseteq> (needs G)\<^sup>* `` set roots)"
  using assms(3-)
proof (induction roots arbitrary: s)
  case (Cons m ms)
  have "unvisited A s \<le> card A" unfolding unvisited_def using A(1) by (intro card_mono) auto
  then obtain s' where s': "traverse_dependency n m s = Inr s'" "dep_post G m s s'"
    using traverse_ok(1) [where A = A and G = G and m = m and s = s and n = n] A Cons.prems
    by (auto simp: dep_pre_def)
  show ?case
  proof (cases "status s' m = M_STATUS_DONE")
    case True
    then have m: "m \<in> set (st_out s')" "\<not> cyclic_from G m"
      using s'(2) load_order_acyclic by (auto simp: dep_post_def sort_inv_def)
    have IH: "if \<exists>m\<in>set ms. cyclic_from G m then sort_roots n ms s' = Inl (Panic ''sort_modules'')
     else \<exists>s''. sort_roots n ms s' = Inr s'' \<and> sort_inv G s'' \<and> set ms \<subseteq> set (st_out s'') \<and>
       (\<exists>zs. st_out s'' = st_out s' @ zs \<and> set zs \<subseteq> (needs G)\<^sup>* `` set ms)"
      using Cons.IH [of s'] Cons.prems s'(2) True by (auto simp: dep_post_def same_doing_def)
    obtain ys where "st_out s' = st_out s @ ys" "set ys \<subseteq> (needs G)\<^sup>* `` {m}"
      using s'(2) by (auto simp: dep_post_def moved_def)
    then show ?thesis using IH s'(1) True m by (auto split: if_splits) blast+
  next
    case False
    then show ?thesis using s' by (auto simp: dep_post_def)
  qed
qed simp

section \<open>The modules as read\<close>

definition exporter :: "symbol_t list \<Rightarrow> cstring \<Rightarrow> nat option" where
  "exporter syms u = (case match_undef syms u of None \<Rightarrow> None | Some s \<Rightarrow> sym_mod s)"

definition module_range :: "nat \<Rightarrow> module_t \<Rightarrow> bool" where
  "module_range N m \<longleftrightarrow> mod_state m = M_STATUS_NONE \<and> set (dependencies m) \<subseteq> {..<N}"

definition syms_range_ok :: "nat \<Rightarrow> symbol_t list \<Rightarrow> bool" where
  "syms_range_ok N syms \<longleftrightarrow> (\<forall>s\<in>set syms. \<forall>i. sym_mod s = Some i \<longrightarrow> i < N)"

lemma syms_range_ok_mono: "syms_range_ok M syms \<Longrightarrow> M \<le> N \<Longrightarrow> syms_range_ok N syms"
  by (auto simp: syms_range_ok_def)

lemma scan_entries_range:
  assumes "scan_entries sp names acc = Inr (mods, a, b)" "\<forall>m\<in>set (fst acc). module_range 0 m"
  shows "\<forall>m\<in>set mods. module_range 0 m"
  using assms
proof (induction sp names acc rule: scan_entries.induct)
  case (2 sp name names ms st sy)
  then obtain c where c: "check_module sp name = Inr c" by (auto simp: and_then_eq_Inr)
  have "module_range 0 (new_module name)" by (simp add: new_module_def module_range_def)
  then have "module_range 0 m"
    if "m \<in> set (fst (if c then (ms @ [new_module name], st, sy)
                   else if name = str ''startup.bin'' then (ms, True, sy)
                   else if name = str ''System.map'' then (ms, st, True) else (ms, st, sy)))" for m
    using that 2(3) by (cases c) (simp_all split: if_splits, blast)
  then show ?case using 2(1) [OF c] 2(2) c by simp
qed simp

lemma discover_modules_range:
  "discover_modules sp namelist = Inr mods \<Longrightarrow> m \<in> set mods \<Longrightarrow> module_range 0 m"
  using scan_entries_range [where acc = "([], False, False)"]
  by (fastforce simp: discover_modules_def and_then_eq_Inr split: option.splits if_splits)

lemma export_symbols_range:
  "export_symbols k bs syms = Inr syms' \<Longrightarrow> syms_range_ok N syms \<Longrightarrow> k = None \<or> k = Some i \<and> i < N \<Longrightarrow>
   syms_range_ok N syms'"
  by (auto simp: export_symbols_def and_then_eq_Inr syms_range_ok_def)

lemma init_symtable_range:
  assumes "init_symtable fs = Inr syms"
  shows "syms_range_ok 0 syms"
proof -
  obtain bs where "export_symbols None bs [] = Inr syms"
    using assms by (auto simp: init_symtable_def and_then_eq_Inr Let_def split: option.splits prod.splits)
  then show ?thesis by (rule export_symbols_range) (simp_all add: syms_range_ok_def)
qed

lemma scan_sections_range:
  assumes "scan_sections k bs sechdrs n secstrings js pos undefs syms = Inr (undefs', syms')"
    and "syms_range_ok N syms" "k < N"
  shows "syms_range_ok N syms'"
  using assms
proof (induction k bs sechdrs n secstrings js pos undefs syms rule: scan_sections.induct)
  case (2 k bs sechdrs n secstrings i js pos undefs syms)
  obtain shdr where shdr: "get_shdr sechdrs n i = Inr shdr" using 2(4) by (auto simp: and_then_eq_Inr)
  show ?case
  proof (cases "sh_type shdr = 2")
    case True
    then obtain link strtab pos1 names pos2 where
      "get_shdr sechdrs n (unat (sh_link shdr)) = Inr link"
      "get_strtab bs pos link = Inr (strtab, pos1)"
      "discover_undef_syms bs pos1 shdr strtab = Inr (names, pos2)"
      "scan_sections k bs sechdrs n secstrings js pos2 (undefs @ names) syms = Inr (undefs', syms')"
      using 2(4) shdr by (auto simp: and_then_eq_Inr)
    then show ?thesis using 2(1) shdr True 2(5,6) by blast
  next
    case False
    then obtain name where name: "string_at ''analysis_module'' secstrings (unat (sh_name shdr)) = Inr name"
      using 2(4) shdr by (auto simp: and_then_eq_Inr)
    show ?thesis
    proof (cases "name = str ''_ksymtab_strings''")
      case True
      then obtain ksym pos1 syms1 where k:
        "get_strtab bs pos shdr = Inr (ksym, pos1)" "export_symbols (Some k) ksym syms = Inr syms1"
        "scan_sections k bs sechdrs n secstrings js pos1 undefs syms1 = Inr (undefs', syms')"
        using 2(4) shdr False name by (auto simp: and_then_eq_Inr)
      have "syms_range_ok N syms1" using export_symbols_range [OF k(2) 2(5)] 2(6) by blast
      then show ?thesis using 2(2) [OF shdr False name True k(1) refl k(2) k(3)] 2(6) by blast
    next
      case f: False
      then show ?thesis using 2(3) 2(4) shdr False name 2(5,6) by simp
    qed
  qed
qed simp

lemma analysis_module_range:
  assumes "analysis_module fs k m syms = Inr (m', syms')" "syms_range_ok N syms" "k < N"
  shows "syms_range_ok N syms' \<and> module_range N m' = module_range N m \<and> mod_name m' = mod_name m"
  using assms
  by (auto simp: analysis_module_def and_then_eq_Inr Let_def module_range_def
      split: if_splits option.splits intro: scan_sections_range)

lemma analysis_all_range:
  assumes "analysis_all fs k ms syms = Inr (ms', syms')" "syms_range_ok N syms" "k + length ms \<le> N"
    and "\<forall>m\<in>set ms. module_range N m"
  shows "length ms' = length ms \<and> syms_range_ok N syms' \<and> (\<forall>m\<in>set ms'. module_range N m)"
  using assms
proof (induction fs k ms syms arbitrary: ms' rule: analysis_all.induct)
  case (2 fs k m ms syms)
  then obtain m1 syms1 ms1 where r: "analysis_module fs k m syms = Inr (m1, syms1)"
      "analysis_all fs (Suc k) ms syms1 = Inr (ms1, syms')" "ms' = m1 # ms1"
    by (auto simp: and_then_eq_Inr)
  have "syms_range_ok N syms1 \<and> module_range N m1"
    using analysis_module_range [OF r(1) 2(3)] 2(4,5) by simp
  then show ?case using 2(1) [OF r(1) refl r(2)] r(3) 2(4,5) by simp
qed simp

lemma resolve_undefs_ok:
  "distinct deps \<Longrightarrow>
   if \<forall>u\<in>set us. match_undef syms u \<noteq> None
   then \<exists>deps'. resolve_undefs syms us deps = Inr deps' \<and> distinct deps' \<and>
     set deps' = set deps \<union> {d. \<exists>u\<in>set us. exporter syms u = Some d}
   else resolve_undefs syms us deps = Inl (Panic ''check_dependency'')"
proof (induction syms us deps rule: resolve_undefs.induct)
  case (2 syms u us deps)
  show ?case
  proof (cases "match_undef syms u")
    case (Some s)
    let ?deps = "case sym_mod s of None \<Rightarrow> deps
      | Some d \<Rightarrow> if find_dependency deps d then deps else deps @ [d]"
    have d: "distinct ?deps" "set ?deps = set deps \<union> {d. exporter syms u = Some d}"
      using 2(2) Some by (auto simp: find_dependency_def exporter_def split: option.splits)
    show ?thesis using 2(1) [OF Some d(1)] Some d(2) by (auto split: if_splits)
  qed simp
qed simp

lemma match_undef_Some: "match_undef syms u = Some s \<Longrightarrow> s \<in> set syms \<and> sym_name s = u"
  by (auto simp: match_undef_def find_Some_iff)

lemma check_dependency_range:
  assumes "check_dependency syms m = Inr m'" "syms_range_ok N syms" "module_range N m"
  shows "module_range N m'"
proof -
  have r: "set deps' \<subseteq> {..<N}" if "resolve_undefs syms us deps = Inr deps'" "set deps \<subseteq> {..<N}"
    for us deps deps'
    using assms(2) that
    by (induction syms us deps rule: resolve_undefs.induct)
      (fastforce simp: syms_range_ok_def dest: match_undef_Some split: option.splits if_splits)+
  obtain deps' where "resolve_undefs syms (undef_syms m) (dependencies m) = Inr deps'"
      "m' = m\<lparr>undef_syms := [], dependencies := deps'\<rparr>"
    using assms(1) by (auto simp: check_dependency_def and_then_eq_Inr)
  then show ?thesis using r assms(3) by (simp add: module_range_def)
qed

lemma check_all_range:
  "check_all syms ms = Inr ms' \<Longrightarrow> syms_range_ok N syms \<Longrightarrow> \<forall>m\<in>set ms. module_range N m \<Longrightarrow>
   length ms' = length ms \<and> (\<forall>m\<in>set ms'. module_range N m)"
  by (induction syms ms arbitrary: ms' rule: check_all.induct)
    (fastforce simp: and_then_eq_Inr dest: check_dependency_range)+

lemma read_modules_range:
  assumes "read_modules sp namelist fs = Inr mods" "m \<in> set mods"
  shows "module_range (length mods) m"
proof -
  obtain ms0 syms0 ms1 syms1 where r: "discover_modules sp namelist = Inr ms0" "init_symtable fs = Inr syms0"
      "analysis_all fs 0 ms0 syms0 = Inr (ms1, syms1)" "check_all syms1 ms1 = Inr mods"
    using assms(1) by (auto simp: read_modules_def and_then_eq_Inr)
  have "\<forall>m\<in>set ms0. module_range (length ms0) m"
    using discover_modules_range [OF r(1)] by (fastforce simp: module_range_def)
  then have a: "length ms1 = length ms0 \<and> syms_range_ok (length ms0) syms1 \<and>
      (\<forall>m\<in>set ms1. module_range (length ms0) m)"
    using analysis_all_range [OF r(3), of "length ms0"] syms_range_ok_mono [OF init_symtable_range [OF r(2)]]
    by simp
  then show ?thesis using check_all_range [OF r(4), of "length ms0"] assms(2) by metis
qed

section \<open>The order of loading\<close>

definition deps_of :: "module_t list \<Rightarrow> nat \<Rightarrow> nat list" where
  "deps_of mods i = dependencies (module_at mods i)"

lemma sort_start_inv:
  assumes "\<And>m. m \<in> set mods \<Longrightarrow> module_range (length mods) m"
  shows "sort_inv (deps_of mods) (sort_start mods)" "status (sort_start mods) x \<noteq> M_STATUS_DOING"
    "set (deps_of mods x) \<subseteq> {..<length mods}"
proof -
  have "module_range (length mods) (module_at mods i)" for i
    using assms by (simp add: module_at_def new_module_def module_range_def)
  then show "sort_inv (deps_of mods) (sort_start mods)" "status (sort_start mods) x \<noteq> M_STATUS_DOING"
    "set (deps_of mods x) \<subseteq> {..<length mods}"
    by (simp_all add: sort_inv_def sort_start_def deps_of_def module_range_def)
qed

definition demo_shdr :: "u8 \<Rightarrow> u8 \<Rightarrow> u8 \<Rightarrow> u8 \<Rightarrow> u8 list" where
  "demo_shdr name type off sz =
     [name, 0, 0, 0, type, 0, 0, 0] @ replicate 16 0 @ [off, 0, 0, 0, 0, 0, 0, 0] @
     [sz, 0, 0, 0, 0, 0, 0, 0] @ replicate 24 0"

definition demo_elf :: "u8 list \<Rightarrow> u8 list \<Rightarrow> u8 list \<Rightarrow> u8 list" where
  "demo_elf sec0 sec1 data =
     replicate 40 0 @ [64, 0, 0, 0, 0, 0, 0, 0] @ replicate 12 0 @ [2, 0] @ [0, 0] @ sec0 @ sec1 @ data"

definition demo_names :: "cstring list" where
  "demo_names = map str [''.'', ''..'', ''System.map'', ''a.ko'', ''b.ko'', ''startup.bin'']"

definition demo_files :: files where
  "demo_files f =
    (if f = str ''System.map'' then
       Some (str ''ffffffe000000000 T _start_ksymtab_strings'' @ [10] @
             str ''ffffffe000000004 T _end_ksymtab_strings'' @ [10])
     else if f = str ''startup.bin'' then Some (str ''bar'' @ [0])
     else if f = str ''a.ko'' then
       Some (demo_elf (demo_shdr 0 3 192 18) (demo_shdr 1 1 210 4)
              ([0] @ str ''_ksymtab_strings'' @ [0] @ str ''foo'' @ [0]))
     else if f = str ''b.ko'' then
       Some (demo_elf (demo_shdr 0 3 192 9) (demo_shdr 0 2 201 72)
              ([0] @ str ''foo'' @ [0] @ str ''bar'' @ [0] @ replicate 24 0 @
               [1] @ replicate 23 0 @ [5] @ replicate 23 0))
     else None)"

definition demo_mods :: "module_t list" where
  "demo_mods =
     [\<lparr>mod_name = str ''b.ko'', mod_state = M_STATUS_NONE, undef_syms = [], dependencies = [1]\<rparr>,
      new_module (str ''a.ko'')]"

lemmas text_eval = str_def String.of_char_def has_prefix_def cstr_def Let_def

lemma demo_discover: "discover_modules None (Some demo_names) = Inr (map (\<lambda>m. m\<lparr>dependencies := []\<rparr>) demo_mods)"
  by (simp add: discover_modules_def demo_names_def demo_mods_def new_module_def check_module_def text_eval)

lemma demo_symtable: "init_symtable demo_files = Inr [\<lparr>sym_name = str ''bar'', sym_mod = None\<rparr>]"
  by (simp add: init_symtable_def detect_syms_range_def demo_files_def file_lines.simps fgets_def
      strtoul16_def isspace_def starts_hex_def hex_digit_def export_symbols_def export_names.simps text_eval)

lemma replicate_numeral: "replicate (numeral k) x = x # replicate (pred_numeral k) x"
  by (simp add: numeral_eq_Suc)

lemma demo_upt: "[0..<2] = [0, Suc 0]" "[Suc 0..<3] = [Suc 0, 2]"
  by (simp_all add: eval_nat_numeral)

lemmas elf_eval = demo_elf_def demo_shdr_def read_exactly_def le_field_def seek_to_def get_shdr_def
  parse_shdr_def parse_sym_def parse_ehdr_def get_strtab_def string_at_def discover_undef_syms_def export_symbols_def
  export_names.simps replicate_numeral demo_upt text_eval

lemma demo_analysis_b: "analysis_module demo_files 0 (new_module (str ''b.ko'')) syms =
    Inr (new_module (str ''b.ko'')\<lparr>undef_syms := [str ''foo'', str ''bar'']\<rparr>, syms)"
  by (simp add: analysis_module_def demo_files_def new_module_def elf_eval)

lemma demo_analysis_a: "analysis_module demo_files 1 (new_module (str ''a.ko'')) syms =
    Inr (new_module (str ''a.ko''), syms @ [\<lparr>sym_name = str ''foo'', sym_mod = Some 1\<rparr>])"
  by (simp add: analysis_module_def demo_files_def new_module_def elf_eval)

lemma demo_read: "read_modules None (Some demo_names) demo_files = Inr demo_mods"
  using demo_analysis_a demo_analysis_b
  by (simp add: read_modules_def demo_discover demo_symtable demo_mods_def new_module_def
      check_dependency_def match_undef_def find_dependency_def text_eval)

lemma demo_sort: "sort_modules None (Some demo_names) demo_files = Inr [str ''a.ko'', str ''b.ko'']"
  by (simp add: sort_modules_def demo_read root_modules_def is_root_def demo_mods_def sort_start_def
      module_at_def new_module_def eval_nat_numeral Let_def)

section \<open>Properties\<close>

text \<open>C31.  \<open>sort_modules\<close> calls its callback with the modules in the order they can be loaded: once
  the modules are read, it returns every module the roots need, each once and after all the
  modules it needs itself, if no module the roots need depends on itself; if one does it panics.
  The roots are all modules, or those whose name starts with the start point.
\<close>

theorem sort_modules_order:
  assumes "read_modules sp namelist fs = Inr mods"
  shows "if \<exists>m\<in>set (root_modules sp mods). cyclic_from (deps_of mods) m
    then sort_modules sp namelist fs = Inl (Panic ''sort_modules'')
    else \<exists>order. sort_modules sp namelist fs = Inr (map (\<lambda>i. mod_name (module_at mods i)) order) \<and>
      distinct order \<and> load_order (deps_of mods) order \<and>
      set order = (needs (deps_of mods))\<^sup>* `` set (root_modules sp mods)"
proof -
  let ?G = "deps_of mods" and ?roots = "root_modules sp mods" and ?n = "Suc (length mods)"
  note range = read_modules_range [OF assms]
  have roots: "if \<exists>m\<in>set ?roots. cyclic_from ?G m
     then sort_roots ?n ?roots (sort_start mods) = Inl (Panic ''sort_modules'')
     else \<exists>s'. sort_roots ?n ?roots (sort_start mods) = Inr s' \<and> sort_inv ?G s' \<and>
       set ?roots \<subseteq> set (st_out s') \<and>
       (\<exists>zs. st_out s' = st_out (sort_start mods) @ zs \<and> set zs \<subseteq> (needs ?G)\<^sup>* `` set ?roots)"
    using sort_start_inv [OF range]
    by (intro sort_roots_ok [where A = "{..<length mods}"]) (auto simp: root_modules_def)
  show ?thesis
  proof (cases "\<exists>m\<in>set ?roots. cyclic_from ?G m")
    case True
    then show ?thesis using roots assms by (simp add: sort_modules_def)
  next
    case False
    then obtain s' where s': "sort_roots ?n ?roots (sort_start mods) = Inr s'" "sort_inv ?G s'"
        "set ?roots \<subseteq> set (st_out s')" "set (st_out s') \<subseteq> (needs ?G)\<^sup>* `` set ?roots"
      using roots by (auto simp: sort_start_def)
    have "(needs ?G)\<^sup>* `` set ?roots \<subseteq> set (st_out s')"
      using load_order_closed s'(2,3) by (simp add: sort_inv_def)
    then show ?thesis using False s' assms
      by (intro if_not_P [THEN iffD2] exI [of _ "st_out s'"]) (auto simp: sort_modules_def sort_inv_def)
  qed
qed

lemma sort_modules_order_witness:
  "\<exists>order. map (\<lambda>i. mod_name (module_at demo_mods i)) order = [str ''a.ko'', str ''b.ko''] \<and>
     distinct order \<and> load_order (deps_of demo_mods) order"
  using sort_modules_order [OF demo_read] demo_sort
  by (simp del: map_eq_Cons_conv split: if_splits) metis



text \<open>
  Reading an exported string section gives back the names written to it.
\<close>

lemma export_names_round_trip:
  assumes "\<forall>n\<in>set names. 0 \<notin> set n"
  shows "export_names (concat (map (\<lambda>n. n @ [0]) names)) = Inr names"
  using assms
proof (induction names)
  case Nil
  then show ?case by (simp add: export_names.simps)
next
  case (Cons n names)
  let ?bs = "concat (map (\<lambda>n. n @ [0]) (n # names))"
  have "takeWhile (\<lambda>c. c \<noteq> 0) (n @ 0 # xs) = n" for xs
    using Cons.prems by (subst takeWhile_append2) auto
  then have "cstr ?bs = n" by (simp add: cstr_def)
  then show ?case using Cons by (subst export_names.simps) simp
qed

end
