(* ===== verification/StartUp.thy ===== *)
theory StartUp
  imports Trace LoadOrder BlockIo
begin

text \<open>
  \<open>main\<close> up to the main loop: the symbol map and the trace configuration, the order of the
  modules, and the machine with the startup image and the modules in its flash, in that order.
  The callback of \<open>sort_modules\<close> adds a file as soon as its module is ordered; here the order is
  computed first, which makes a difference only to which of several panics comes first.
\<close>

record disk_files =
  f_conf :: "u8 list option"
  f_bios :: "u8 list option"
  f_dtb :: "u8 list option"
  f_fw :: "u8 list option"
  f_vda :: "u8 list option"
  f_image :: files
  f_names :: "cstring list option"

definition boot_image :: "disk_files \<Rightarrow> cstring list \<Rightarrow> image" where
  "boot_image f names =
     \<lparr>image_bios = f_bios f, image_dtb = f_dtb f, image_fw = f_fw f,
      image_startup = f_image f (str ''startup.bin''), image_mods = map (f_image f) names,
      image_disk = f_vda f\<rparr>"

definition start_up ::
  "host \<Rightarrow> cstring option \<Rightarrow> disk_files \<Rightarrow> (trace_state \<times> machine) result" where
  "start_up h startpoint f =
    and_then (setup_system_map (f_image f (str ''System.map''))) (\<lambda>smap.
    and_then (setup_trace_table smap (f_conf f)) (\<lambda>tr.
    and_then (sort_modules startpoint (f_names f) (f_image f)) (\<lambda>names.
    and_then (machine_init h (boot_image f names)) (\<lambda>m.
      Inr (tr, m)))))"

section \<open>What the flash holds\<close>

text \<open>A file as it is in flash: an ELF file has its length written over \<open>e_phoff\<close>.\<close>

definition flash_image :: "u8 list \<Rightarrow> u8 list" where
  "flash_image bs =
    (if take 4 bs = ELFMAG then take 32 bs @ le_bytes (of_nat (length bs)) 8 @ drop 40 bs else bs)"

lemma flash_image_header:
  "64 \<le> length bs \<Longrightarrow> take 4 bs = ELFMAG \<Longrightarrow>
   parse_ehdr (flash_image bs) = (parse_ehdr bs)\<lparr>e_phoff := of_nat (length bs)\<rparr>"
  by (simp add: flash_image_def set_phoff)

definition round8 :: "nat \<Rightarrow> nat" where
  "round8 n = (n + 7) div 8 * 8"

fun flash_layout :: "nat \<Rightarrow> u8 list list \<Rightarrow> (nat \<times> u8 list) list" where
  "flash_layout off [] = []"
| "flash_layout off (bs # bss) = (off, flash_image bs) # flash_layout (round8 (off + length bs)) bss"

definition flash_holds :: "flash_t \<Rightarrow> nat \<times> u8 list \<Rightarrow> bool" where
  "flash_holds flash = (\<lambda>(off, img). \<forall>i<length img. flash_mem flash (of_nat (off + i)) = img ! i)"

lemma ROUND_UP_8:
  assumes "unat x + 8 < 2 ^ 64"
  shows "unat (ROUND_UP x 8) = round8 (unat x)"
proof -
  let ?y = "x + 7"
  have mask: "(7 :: u64) = mask 3" by (simp add: mask_eq_exp_minus_1)
  have "?y AND NOT 7 = push_bit 3 (drop_bit 3 ?y)"
    unfolding mask by (rule bit_word_eqI) (auto simp: bit_simps)
  moreover have y: "unat ?y = unat x + 7" using unat_plus_nat [of x 7] assms by simp
  moreover have "unat (push_bit 3 (drop_bit 3 ?y)) = unat ?y div 8 * 8"
  proof -
    have "unat (drop_bit 3 ?y) = unat ?y div 8"
      by (simp add: unat_div drop_bit_eq_div)
    moreover have "unat ?y div 8 * 8 < 2 ^ 64" using y assms by simp
    ultimately show ?thesis
      by (simp add: unsigned_push_bit_eq push_bit_eq_mult [where ?'a = nat] take_bit_nat_eq_self
        del: push_bit_eq_mult)
  qed
  moreover have "x + 8 - 1 = ?y" "(8 :: u64) - 1 = 7" by simp_all
  ultimately show ?thesis by (simp only: ROUND_UP_def round8_def)
qed

lemma store_bytes_nth: "i < length bs \<Longrightarrow> length bs \<le> 2 ^ 32 \<Longrightarrow> store_bytes mem a bs (a + of_nat i) = bs ! i"
  by (simp add: store_bytes_def unat_of_nat take_bit_nat_eq_self)

lemma store_bytes_below:
  assumes "unat b < unat a" "unat a + length bs \<le> 2 ^ 63"
  shows "store_bytes mem a bs b = mem b"
proof -
  have "unat (b - a) = unat b + 2 ^ 64 - unat a"
    using assms(1) by (simp add: unat_sub_if' word_le_nat_alt)
  then have "\<not> unat (b - a) < length bs" using assms(2) by simp
  then show ?thesis by (simp add: store_bytes_def)
qed

lemma store_le_bytes:
  assumes "i < 8"
  shows "store_le mem a v 8 (a + of_nat i) = le_bytes v 8 ! i"
  using store_le_inside [of i 8 mem a v] assms by (simp add: le_bytes_nth)

text \<open>The buffer with a file appended, and its ELF check.\<close>

definition appended :: "flash_t \<Rightarrow> u8 list \<Rightarrow> u64 \<Rightarrow> u8" where
  "appended flash bs =
     store_bytes (\<lambda>b. if b < flash_size flash then flash_mem flash b else 0) (flash_size flash) bs"

lemma appended_at:
  assumes small: "unat (flash_size flash) + length bs \<le> 0x4000000" and "i \<le> 0x4000000"
  shows "appended flash bs (flash_size flash + of_nat i) = (if i < length bs then bs ! i else 0)"
proof -
  let ?base = "flash_size flash"
  have "unat (of_nat i :: u64) = i" using assms(2) by (simp add: unat_of_nat take_bit_nat_eq_self)
  moreover have "unat (?base + of_nat i) = unat ?base + i" using assms(2) small by (intro unat_plus_nat) simp
  then have "\<not> ?base + of_nat i < ?base" by (simp add: word_less_nat_alt)
  ultimately show ?thesis by (simp add: appended_def store_bytes_def)
qed

lemma appended_mag:
  assumes "unat (flash_size flash) + length bs \<le> 0x4000000"
  shows "elf64_hdr_check (appended flash bs) (flash_size flash) \<longleftrightarrow> take 4 bs = ELFMAG"
proof (cases "4 \<le> length bs")
  case True
  then have "map (\<lambda>i. appended flash bs (flash_size flash + of_nat i)) [0..<4] = take 4 bs"
    by (intro nth_equalityI) (simp_all add: appended_at [OF assms])
  then show ?thesis by (simp add: elf64_hdr_check_def)
next
  case False
  let ?n = "length bs"
  have "appended flash bs (flash_size flash + of_nat ?n) \<notin> set ELFMAG"
    using False by (simp add: appended_at [OF assms] ELFMAG_def)
  moreover have "appended flash bs (flash_size flash + of_nat ?n)
      \<in> set (map (\<lambda>i. appended flash bs (flash_size flash + of_nat i)) [0..<4])"
    using False by simp
  ultimately have "\<not> elf64_hdr_check (appended flash bs) (flash_size flash)"
    unfolding elf64_hdr_check_def by metis
  moreover have "take 4 bs \<noteq> ELFMAG"
  proof
    assume "take 4 bs = ELFMAG"
    then have "length (take 4 bs) = 4" by (simp add: ELFMAG_def)
    then show False using False by simp
  qed
  ultimately show ?thesis by simp
qed

lemma flash_add_file_eq:
  "flash_add_file flash (Some bs) =
    (let sz = ROUND_UP (flash_size flash + of_nat (length bs)) 8 in
     if FLASH_ADDRESS_SPACE_SIZE < sz then Inl (Panic ''flash_add_file'')
     else if \<not> in_buffer (flash_size flash) (max 4 (length bs)) sz then Inl (UB ''flash_add_file'')
     else if elf64_hdr_check (appended flash bs) (flash_size flash) then
       (if in_buffer (flash_size flash) 40 sz
        then Inr \<lparr>flash_mem = elf64_hdr_set_length (appended flash bs) (flash_size flash) (of_nat (length bs)),
                  flash_size = sz\<rparr>
        else Inl (UB ''flash_add_file''))
     else Inr \<lparr>flash_mem = appended flash bs, flash_size = sz\<rparr>)"
  by (simp add: flash_add_file_def appended_def Let_def)

lemma flash_add_file_ok:
  assumes "flash_add_file flash (Some bs) = Inr flash'"
  shows "unat (flash_size flash') = round8 (unat (flash_size flash) + length bs)"
    and "unat (flash_size flash') \<le> 0x4000000"
    and "unat (flash_size flash) + length (flash_image bs) \<le> unat (flash_size flash')"
    and "flash_holds flash' (unat (flash_size flash), flash_image bs)"
    and "unat b < unat (flash_size flash) \<Longrightarrow> flash_mem flash' b = flash_mem flash b"
proof -
  let ?base = "flash_size flash" and ?n = "length bs"
  let ?sz = "ROUND_UP (?base + of_nat ?n) 8"
  define mem where "mem = appended flash bs"
  have r: "\<not> FLASH_ADDRESS_SPACE_SIZE < ?sz" "in_buffer ?base (max 4 ?n) ?sz" "flash_size flash' = ?sz"
    "elf64_hdr_check mem ?base \<Longrightarrow> in_buffer ?base 40 ?sz"
    "flash_mem flash' = (if elf64_hdr_check mem ?base then elf64_hdr_set_length mem ?base (of_nat ?n) else mem)"
    using assms by (auto simp: flash_add_file_eq Let_def mem_def split: if_splits)
  have size: "unat ?base + max 4 ?n \<le> unat ?sz" "unat ?sz \<le> 0x4000000"
    using r(1,2) by (simp_all add: in_buffer_def word_less_nat_alt)
  then have small: "unat ?base + ?n \<le> 0x4000000" by simp
  then have sum: "unat (?base + of_nat ?n) = unat ?base + ?n" by (intro unat_plus_nat) simp
  then have sz: "unat ?sz = round8 (unat ?base + ?n)" using small by (simp add: ROUND_UP_8)
  show "unat (flash_size flash') = round8 (unat ?base + ?n)" "unat (flash_size flash') \<le> 0x4000000"
    using sz size(2) by (simp_all add: r(3))
  have at: "mem (?base + of_nat i) = (if i < ?n then bs ! i else 0)" if "i \<le> 0x4000000" for i
    unfolding mem_def by (rule appended_at [OF small that])
  have mag: "elf64_hdr_check mem ?base \<longleftrightarrow> take 4 bs = ELFMAG"
    unfolding mem_def by (rule appended_mag [OF small])
  have below: "mem b = flash_mem flash b" if "unat b < unat ?base" for b
    using that small by (simp add: mem_def appended_def store_bytes_below word_less_nat_alt)
  have e32: "unat (?base + 32) = unat ?base + 32" using unat_plus_nat [of ?base 32] small by simp
  have out: "store_le mem (?base + 32) v 8 b = mem b" if "unat b < unat ?base + 32 \<or> unat ?base + 40 \<le> unat b" for v b
  proof (rule store_le_outside)
    fix i :: nat
    assume "i < 8"
    then have "unat (?base + 32 + of_nat i) = unat ?base + 32 + i"
      using e32 small by (subst unat_plus_nat) simp_all
    then show "b \<noteq> ?base + 32 + of_nat i" using that \<open>i < 8\<close> by auto
  qed
  show "unat ?base + length (flash_image bs) \<le> unat (flash_size flash')"
  proof (cases "take 4 bs = ELFMAG")
    case True
    then have "unat ?base + 40 \<le> unat ?sz" using r(4) by (simp add: mag in_buffer_def)
    then show ?thesis using size(1) True by (auto simp: r(3) flash_image_def le_bytes_def min_def)
  qed (use size(1) in \<open>simp add: r(3) flash_image_def\<close>)
  show "flash_mem flash' b = flash_mem flash b" if "unat b < unat ?base"
    using that out [of b] below by (simp add: r(5) elf64_hdr_set_length_def)
  show "flash_holds flash' (unat ?base, flash_image bs)"
    unfolding flash_holds_def prod.case
  proof (intro allI impI)
    fix i
    assume i: "i < length (flash_image bs)"
    have addr: "(of_nat (unat ?base + i) :: u64) = ?base + of_nat i" by simp
    show "flash_mem flash' (of_nat (unat ?base + i)) = flash_image bs ! i"
    proof (cases "take 4 bs = ELFMAG")
      case False
      then show ?thesis using i small by (simp add: r(5) mag at flash_image_def)
    next
      case True
      have "unat ?base + 40 \<le> round8 (unat ?base + ?n)" using r(4) True sz by (simp add: mag in_buffer_def)
      moreover have "round8 (unat ?base + ?n) \<le> unat ?base + ?n + 7" by (simp add: round8_def)
      ultimately have n: "33 \<le> ?n" by simp
      have new: "flash_mem flash' = store_le mem (?base + 32) (of_nat ?n) 8"
        using True by (simp add: r(5) mag elf64_hdr_set_length_def)
      have img: "flash_image bs = take 32 bs @ le_bytes (of_nat ?n) 8 @ drop 40 bs"
        using True by (simp add: flash_image_def)
      have len: "length (le_bytes (of_nat ?n) 8) = 8" by (simp add: le_bytes_def)
      have i': "i < 40 \<or> i < ?n" using i n by (auto simp: img len)
      have ui: "unat (?base + of_nat i) = unat ?base + i" using i' small by (intro unat_plus_nat) auto
      have "i < 32 \<or> (\<exists>j<8. i = 32 + j) \<or> 40 \<le> i" by presburger
      then consider "i < 32" | j where "i = 32 + j" "j < 8" | "40 \<le> i" by blast
      then show ?thesis
      proof cases
        case 1
        then show ?thesis unfolding addr new using n ui by (simp add: out at img nth_append)
      next
        case (2 j)
        then have "(?base + of_nat i) = ?base + 32 + of_nat j" by (simp add: add.assoc)
        then show ?thesis unfolding addr new using 2 n len store_le_bytes [of j mem "?base + 32"]
          by (simp add: img nth_append add.assoc)
      next
        case 3
        then have "\<not> i - 32 < 8" by simp
        then show ?thesis unfolding addr new using 3 i' n ui len small by (simp add: out at img nth_append)
      qed
    qed
  qed
qed

lemma flash_add_files_ok:
  assumes "flash_add_files flash (map Some bss) = Inr flash'" "unat (flash_size flash) \<le> 0x4000000"
  shows "(\<forall>x\<in>set (flash_layout (unat (flash_size flash)) bss). flash_holds flash' x) \<and>
    (\<forall>b. unat b < unat (flash_size flash) \<longrightarrow> flash_mem flash' b = flash_mem flash b)"
  using assms
proof (induction bss arbitrary: flash)
  case (Cons bs bss)
  then obtain flash1 where add: "flash_add_file flash (Some bs) = Inr flash1"
      "flash_add_files flash1 (map Some bss) = Inr flash'"
    by (auto simp: and_then_eq_Inr)
  note one = flash_add_file_ok [OF add(1)]
  have IH: "(\<forall>x\<in>set (flash_layout (unat (flash_size flash1)) bss). flash_holds flash' x) \<and>
      (\<forall>b. unat b < unat (flash_size flash1) \<longrightarrow> flash_mem flash' b = flash_mem flash1 b)"
    by (rule Cons.IH [OF add(2) one(2)])
  have "flash_holds flash' (unat (flash_size flash), flash_image bs)"
    unfolding flash_holds_def prod.case
  proof (intro allI impI)
    fix i
    assume i: "i < length (flash_image bs)"
    then have "unat (of_nat (unat (flash_size flash) + i) :: u64) < unat (flash_size flash1)"
      using one(2,3) by (simp add: unat_plus_nat)
    then show "flash_mem flash' (of_nat (unat (flash_size flash) + i)) = flash_image bs ! i"
      using IH one(4) i by (simp add: flash_holds_def)
  qed
  moreover have "unat (flash_size flash) \<le> unat (flash_size flash1)" using one(3) by simp
  ultimately show ?case using IH one(1,5) by (auto simp: one(1))
qed simp

lemma flash_add_files_Some:
  "flash_add_files flash fs = Inr flash' \<Longrightarrow> \<exists>bss. fs = map Some bss"
proof (induction fs arbitrary: flash)
  case (Cons x xs)
  then obtain flash1 where "flash_add_file flash x = Inr flash1" "flash_add_files flash1 xs = Inr flash'"
    by (auto simp: and_then_eq_Inr)
  moreover from this(1) obtain bs where "x = Some bs" by (cases x) (auto simp: flash_add_file_def)
  ultimately show ?case using Cons.IH by (metis list.simps(9))
qed simp

text \<open>C37.  When the emulator starts, its flash holds the startup image and after it the kernel modules
  \<open>sort_modules\<close> orders, each in its place and in that order; the machine keeps its invariant,
  is in machine mode at the reset vector, and the trace table is in its bounds.\<close>

theorem start_up_boots:
  assumes "start_up h startpoint f = Inr (tr, m)"
  shows "\<exists>names startup mods. sort_modules startpoint (f_names f) (f_image f) = Inr names \<and>
    f_image f (str ''startup.bin'') = Some startup \<and> map (f_image f) names = map Some mods \<and>
    (\<forall>x\<in>set (flash_layout 0x100 (startup # mods)). flash_holds (m_flash m) x) \<and>
    machine_inv m \<and> m_pc m = 0x1000 \<and> priv m = M_MODE \<and> trace_inv tr"
proof -
  obtain smap names where run: "setup_trace_table smap (f_conf f) = Inr tr"
      "sort_modules startpoint (f_names f) (f_image f) = Inr names"
      "machine_init h (boot_image f names) = Inr m"
    using assms by (auto simp: start_up_def and_then_eq_Inr)
  then have add: "flash_add_files flash_init (f_image f (str ''startup.bin'') # map (f_image f) names) = Inr (m_flash m)"
    by (auto simp: machine_init_def and_then_eq_Inr boot_image_def flash_load_modules_def
        cpu_enable_clock_def get_clock_def csr_init_def machine_reset_def Let_def)
  obtain bss where bss: "f_image f (str ''startup.bin'') # map (f_image f) names = map Some bss"
    using flash_add_files_Some [OF add] by (rule exE)
  have "unat (flash_size flash_init) = 0x100" by (simp add: flash_init_def)
  then have "\<forall>x\<in>set (flash_layout 0x100 bss). flash_holds (m_flash m) x"
    using flash_add_files_ok [OF add [unfolded bss]] by simp
  moreover obtain startup mods where "bss = startup # mods" using bss by (cases bss) auto
  moreover have "machine_inv m" by (rule machine_init_inv [OF run(3)])
  ultimately show ?thesis
    using bss run(2) setup_trace_inv [OF run(1)] machine_init_fields [OF run(3)] by (auto simp: priv_def)
qed

section \<open>An example\<close>

lemma flash_add_file_fits:
  assumes "4 \<le> length bs" "take 4 bs \<noteq> ELFMAG" "unat (flash_size flash) + length bs + 8 \<le> 0x4000000"
  shows "\<exists>flash'. flash_add_file flash (Some bs) = Inr flash' \<and>
    unat (flash_size flash') \<le> unat (flash_size flash) + length bs + 7"
proof -
  let ?sz = "ROUND_UP (flash_size flash + of_nat (length bs)) 8"
  have "unat (flash_size flash + of_nat (length bs)) = unat (flash_size flash) + length bs"
    using assms(3) by (intro unat_plus_nat) simp
  then have sz: "unat ?sz = round8 (unat (flash_size flash) + length bs)"
    using assms(3) by (simp add: ROUND_UP_8)
  have r: "n \<le> round8 n" "round8 n \<le> n + 7" for n unfolding round8_def by presburger+
  note bounds = r [of "unat (flash_size flash) + length bs"]
  have "\<not> FLASH_ADDRESS_SPACE_SIZE < ?sz" using sz bounds assms(3) by (simp add: word_less_nat_alt)
  moreover have "in_buffer (flash_size flash) (max 4 (length bs)) ?sz"
    using sz bounds assms(1) by (simp add: in_buffer_def)
  moreover have "\<not> elf64_hdr_check (appended flash bs) (flash_size flash)"
    using appended_mag [of flash bs] assms(2,3) by simp
  ultimately show ?thesis using sz bounds by (simp add: flash_add_file_eq Let_def)
qed

definition demo_disk_files :: disk_files where
  "demo_disk_files = \<lparr>f_conf = Some [], f_bios = Some [1], f_dtb = Some [1], f_fw = Some [2],
     f_vda = Some [4], f_image = demo_files, f_names = Some demo_names\<rparr>"

lemma demo_flash: "\<exists>flash. flash_load_modules flash_init (demo_files (str ''startup.bin''))
    (map demo_files [str ''a.ko'', str ''b.ko'']) = Inr flash"
proof -
  define s a b where "s = the (demo_files (str ''startup.bin''))" and "a = the (demo_files (str ''a.ko''))"
    and "b = the (demo_files (str ''b.ko''))"
  have files: "demo_files (str ''startup.bin'') = Some s" "demo_files (str ''a.ko'') = Some a"
      "demo_files (str ''b.ko'') = Some b"
    by (simp_all add: s_def a_def b_def demo_files_def text_eval)
  have fits: "4 \<le> length s" "take 4 s \<noteq> ELFMAG" "length s \<le> 1000" "4 \<le> length a" "take 4 a \<noteq> ELFMAG"
      "length a \<le> 1000" "4 \<le> length b" "take 4 b \<noteq> ELFMAG" "length b \<le> 1000"
    by (simp_all add: s_def a_def b_def demo_files_def demo_elf_def demo_shdr_def ELFMAG_def
        replicate_numeral text_eval)
  obtain f1 where f1: "flash_add_file flash_init (Some s) = Inr f1" "unat (flash_size f1) \<le> 2000"
    using flash_add_file_fits [of s flash_init] fits(1-3) by (auto simp: flash_init_def)
  obtain f2 where f2: "flash_add_file f1 (Some a) = Inr f2" "unat (flash_size f2) \<le> 4000"
    using flash_add_file_fits [of a f1] fits(4-6) f1(2) by auto
  obtain f3 where f3: "flash_add_file f2 (Some b) = Inr f3"
    using flash_add_file_fits [of b f2] fits(7-9) f2(2) by auto
  show ?thesis using f1(1) f2(1) f3 by (simp add: flash_load_modules_def files)
qed

lemma demo_start_up: "\<exists>tr m. start_up demo_host None demo_disk_files = Inr (tr, m)"
proof -
  have smap: "\<exists>smap. setup_system_map (demo_files (str ''System.map'')) = Inr smap"
    by (simp add: setup_system_map_def demo_files_def file_lines.simps fgets_def map_line_def strchr_def
        strtoul16_def isspace_def starts_hex_def hex_digit_def text_eval)
  have trace: "setup_trace_table smap (Some []) = Inr \<lparr>trace_table = [], item_in_process = None\<rparr>" for smap
    by (simp add: setup_trace_table_def file_lines.simps)
  obtain flash where flash: "flash_load_modules flash_init (demo_files (str ''startup.bin''))
      (map demo_files [str ''a.ko'', str ''b.ko'']) = Inr flash"
    using demo_flash by blast
  have "\<exists>m. machine_init demo_host (boot_image demo_disk_files [str ''a.ko'', str ''b.ko'']) = Inr m"
    using flash by (simp add: machine_init_def boot_image_def demo_disk_files_def rom_add_file_def rom_init_def
        ROUND_UP_def in_buffer_def virtio_blk_init_def virtio_blk_init_config_def get_file_size_def Let_def)
  then show ?thesis
    using smap trace demo_sort by (auto simp: start_up_def demo_disk_files_def)
qed

lemma start_up_boots_witness:
  "\<exists>tr m. start_up demo_host None demo_disk_files = Inr (tr, m) \<and> machine_inv m \<and>
     (\<exists>startup mods. \<forall>x\<in>set (flash_layout 0x100 (startup # mods)). flash_holds (m_flash m) x)"
  using demo_start_up start_up_boots [of demo_host None demo_disk_files] by blast

end
