(* ===== verification/Lists.thy ===== *)
theory Lists
  imports Simulation
begin

text \<open>
  \<open>list.h\<close>: circular, doubly linked lists through \<open>list_head\<close> structures embedded in their
  elements.  The heap maps the addresses of the allocated structures to their two pointers; a
  pointer is \<open>None\<close> when it is \<open>NULL\<close>, and reading or writing through \<open>NULL\<close> or through the
  address of nothing is undefined.  \<open>container_of\<close> is the identity: an element has the address of
  the structure in it.
\<close>

section \<open>The heap\<close>

record 'p list_head =
  prev_ptr :: "'p option"
  next_ptr :: "'p option"

type_synonym 'p heap = "'p \<Rightarrow> 'p list_head option"

definition deref :: "'p option \<Rightarrow> 'p heap \<Rightarrow> ('p \<times> 'p list_head) result" where
  "deref p st = (case p of None \<Rightarrow> Inl (UB ''list'')
     | Some a \<Rightarrow> (case st a of None \<Rightarrow> Inl (UB ''list'') | Some n \<Rightarrow> Inr (a, n)))"

definition get_next :: "'p option \<Rightarrow> 'p heap \<Rightarrow> 'p option result" where
  "get_next p st = and_then (deref p st) (\<lambda>(a, n). Inr (next_ptr n))"

definition get_prev :: "'p option \<Rightarrow> 'p heap \<Rightarrow> 'p option result" where
  "get_prev p st = and_then (deref p st) (\<lambda>(a, n). Inr (prev_ptr n))"

definition set_next :: "'p option \<Rightarrow> 'p option \<Rightarrow> 'p heap \<Rightarrow> 'p heap result" where
  "set_next p v st = and_then (deref p st) (\<lambda>(a, n). Inr (st(a \<mapsto> n\<lparr>next_ptr := v\<rparr>)))"

definition set_prev :: "'p option \<Rightarrow> 'p option \<Rightarrow> 'p heap \<Rightarrow> 'p heap result" where
  "set_prev p v st = and_then (deref p st) (\<lambda>(a, n). Inr (st(a \<mapsto> n\<lparr>prev_ptr := v\<rparr>)))"

text \<open>\<open>calloc\<close> gives a structure of null pointers; \<open>free\<close> takes one that is allocated.\<close>

definition alloc_node :: "'p \<Rightarrow> 'p heap \<Rightarrow> 'p heap result" where
  "alloc_node a st =
    (if st a = None then Inr (st(a \<mapsto> \<lparr>prev_ptr = None, next_ptr = None\<rparr>)) else Inl (UB ''calloc''))"

definition free_node :: "'p option \<Rightarrow> 'p heap \<Rightarrow> 'p heap result" where
  "free_node p st = and_then (deref p st) (\<lambda>(a, n). Inr (st(a := None)))"

section \<open>The operations\<close>

definition INIT_LIST_HEAD :: "'p option \<Rightarrow> 'p heap \<Rightarrow> 'p heap result" where
  "INIT_LIST_HEAD l st = and_then (set_next l l st) (set_prev l l)"

definition list_add_between :: "'p option \<Rightarrow> 'p option \<Rightarrow> 'p option \<Rightarrow> 'p heap \<Rightarrow> 'p heap result" where
  "list_add_between new prev next st =
    and_then (set_prev next new st) (\<lambda>st.
    and_then (set_next new next st) (\<lambda>st.
    and_then (set_prev new prev st) (\<lambda>st.
      set_next prev new st)))"

definition list_add :: "'p option \<Rightarrow> 'p option \<Rightarrow> 'p heap \<Rightarrow> 'p heap result" where
  "list_add new head st = and_then (get_next head st) (\<lambda>n. list_add_between new head n st)"

definition list_add_tail :: "'p option \<Rightarrow> 'p option \<Rightarrow> 'p heap \<Rightarrow> 'p heap result" where
  "list_add_tail new head st = and_then (get_prev head st) (\<lambda>p. list_add_between new p head st)"

definition list_del_between :: "'p option \<Rightarrow> 'p option \<Rightarrow> 'p heap \<Rightarrow> 'p heap result" where
  "list_del_between prev next st = and_then (set_prev next prev st) (set_next prev next)"

definition list_del_entry :: "'p option \<Rightarrow> 'p heap \<Rightarrow> 'p heap result" where
  "list_del_entry entry st =
    and_then (get_prev entry st) (\<lambda>p. and_then (get_next entry st) (\<lambda>n. list_del_between p n st))"

definition list_del :: "'p option \<Rightarrow> 'p heap \<Rightarrow> 'p heap result" where
  "list_del entry st =
    and_then (list_del_entry entry st) (\<lambda>st.
    and_then (set_next entry None st) (set_prev entry None))"

definition list_move :: "'p option \<Rightarrow> 'p option \<Rightarrow> 'p heap \<Rightarrow> 'p heap result" where
  "list_move l head st = and_then (list_del_entry l st) (list_add l head)"

definition list_move_tail :: "'p option \<Rightarrow> 'p option \<Rightarrow> 'p heap \<Rightarrow> 'p heap result" where
  "list_move_tail l head st = and_then (list_del_entry l st) (list_add_tail l head)"

definition list_empty :: "'p option \<Rightarrow> 'p heap \<Rightarrow> bool result" where
  "list_empty head st = and_then (get_next head st) (\<lambda>n. Inr (n = head))"

definition list_splice_between :: "'p option \<Rightarrow> 'p option \<Rightarrow> 'p option \<Rightarrow> 'p heap \<Rightarrow> 'p heap result" where
  "list_splice_between l prev next st =
    and_then (get_next l st) (\<lambda>first.
    and_then (get_prev l st) (\<lambda>last.
    and_then (set_prev first prev st) (\<lambda>st.
    and_then (set_next prev first st) (\<lambda>st.
    and_then (set_next last next st) (\<lambda>st.
      set_prev next last st)))))"

definition list_splice_init :: "'p option \<Rightarrow> 'p option \<Rightarrow> 'p heap \<Rightarrow> 'p heap result" where
  "list_splice_init l head st =
    and_then (list_empty l st) (\<lambda>e.
    if e then Inr st
    else
      and_then (get_next head st) (\<lambda>n.
      and_then (list_splice_between l head n st) (INIT_LIST_HEAD l)))"

definition list_splice_tail_init :: "'p option \<Rightarrow> 'p option \<Rightarrow> 'p heap \<Rightarrow> 'p heap result" where
  "list_splice_tail_init l head st =
    and_then (list_empty l st) (\<lambda>e.
    if e then Inr st
    else
      and_then (get_prev head st) (\<lambda>p.
      and_then (list_splice_between l p head st) (INIT_LIST_HEAD l)))"

text \<open>
  The loops carry fuel.  \<open>list_for_each_entry\<close> gives the elements it visits; \<open>list_for_each_safe\<close>
  reads the next pointer before it runs its body, and the body may free the element.
\<close>

fun for_each_entry :: "nat \<Rightarrow> 'p option \<Rightarrow> 'p option \<Rightarrow> 'p heap \<Rightarrow> 'p list result" where
  "for_each_entry k p head st =
    (if p = head then Inr []
     else case k of 0 \<Rightarrow> Inl (Nested ''list_for_each_entry'')
     | Suc k \<Rightarrow> and_then (deref p st) (\<lambda>(a, n).
         and_then (for_each_entry k (next_ptr n) head st) (\<lambda>as. Inr (a # as))))"

definition list_for_each_entry :: "nat \<Rightarrow> 'p option \<Rightarrow> 'p heap \<Rightarrow> 'p list result" where
  "list_for_each_entry k head st = and_then (get_next head st) (\<lambda>p. for_each_entry k p head st)"

fun for_each_safe ::
  "('p option \<Rightarrow> 'p heap \<Rightarrow> 'p heap result) \<Rightarrow> nat \<Rightarrow> 'p option \<Rightarrow> 'p option \<Rightarrow> 'p option \<Rightarrow> 'p heap \<Rightarrow>
   'p heap result" where
  "for_each_safe body k p n head st =
    (if p = head then Inr st
     else case k of 0 \<Rightarrow> Inl (Nested ''list_for_each_safe'')
     | Suc k \<Rightarrow> and_then (body p st) (\<lambda>st.
         and_then (get_next n st) (\<lambda>n'. for_each_safe body k n n' head st)))"

definition list_for_each_safe ::
  "('p option \<Rightarrow> 'p heap \<Rightarrow> 'p heap result) \<Rightarrow> nat \<Rightarrow> 'p option \<Rightarrow> 'p heap \<Rightarrow> 'p heap result" where
  "list_for_each_safe body k head st =
    and_then (get_next head st) (\<lambda>p.
    and_then (get_next p st) (\<lambda>n. for_each_safe body k p n head st))"

declare for_each_entry.simps [simp del] for_each_safe.simps [simp del]

text \<open>
  The body shared by \<open>clear_modules\<close> and the loop that ends \<open>sort_modules\<close>: unlink and free.  The
  names the elements point to are not in the heap of list heads.
\<close>

definition clear_list :: "nat \<Rightarrow> 'p option \<Rightarrow> 'p heap \<Rightarrow> 'p heap result" where
  "clear_list = list_for_each_safe (\<lambda>p st. and_then (list_del p st) (free_node p))"

section \<open>Links\<close>

definition nx :: "'p heap \<Rightarrow> 'p \<Rightarrow> 'p option" where "nx st a = next_ptr (the (st a))"
definition pv :: "'p heap \<Rightarrow> 'p \<Rightarrow> 'p option" where "pv st a = prev_ptr (the (st a))"

lemma get_ptr [simp]:
  "a \<in> dom st \<Longrightarrow> get_next (Some a) st = Inr (nx st a)"
  "a \<in> dom st \<Longrightarrow> get_prev (Some a) st = Inr (pv st a)"
  by (auto simp: get_next_def get_prev_def deref_def nx_def pv_def)

definition put_next :: "'p \<Rightarrow> 'p option \<Rightarrow> 'p heap \<Rightarrow> 'p heap" where
  "put_next a v st = st(a \<mapsto> (the (st a))\<lparr>next_ptr := v\<rparr>)"
definition put_prev :: "'p \<Rightarrow> 'p option \<Rightarrow> 'p heap \<Rightarrow> 'p heap" where
  "put_prev a v st = st(a \<mapsto> (the (st a))\<lparr>prev_ptr := v\<rparr>)"

lemma set_ptr [simp]:
  "a \<in> dom st \<Longrightarrow> set_next (Some a) v st = Inr (put_next a v st)"
  "a \<in> dom st \<Longrightarrow> set_prev (Some a) v st = Inr (put_prev a v st)"
  by (auto simp: set_next_def set_prev_def deref_def put_next_def put_prev_def)

lemma put_ptr [simp]:
  "nx (put_next a v st) b = (if b = a then v else nx st b)" "pv (put_next a v st) b = pv st b"
  "pv (put_prev a v st) b = (if b = a then v else pv st b)" "nx (put_prev a v st) b = nx st b"
  "dom (put_next a v st) = insert a (dom st)" "dom (put_prev a v st) = insert a (dom st)"
  by (auto simp: put_next_def put_prev_def nx_def pv_def)

lemma put_other: "b \<noteq> a \<Longrightarrow> put_next a v st b = st b" "b \<noteq> a \<Longrightarrow> put_prev a v st b = st b"
  by (auto simp: put_next_def put_prev_def)

fun links :: "'p heap \<Rightarrow> 'p list \<Rightarrow> bool" where
  "links st (a # b # cs) \<longleftrightarrow> nx st a = Some b \<and> pv st b = Some a \<and> links st (b # cs)"
| "links st [a] \<longleftrightarrow> True"
| "links st [] \<longleftrightarrow> True"

lemma links_append: "links st (xs @ a # ys) \<longleftrightarrow> links st (xs @ [a]) \<and> links st (a # ys)"
proof (induction xs)
  case (Cons x xs)
  then show ?case by (cases xs) auto
qed simp

lemma links_cong:
  "(\<And>a. a \<in> set (butlast zs) \<Longrightarrow> nx st a = nx st' a) \<Longrightarrow> (\<And>a. a \<in> set (tl zs) \<Longrightarrow> pv st a = pv st' a) \<Longrightarrow>
   links st zs = links st' zs"
proof (induction st zs rule: links.induct)
  case (1 st a b cs)
  then show ?case by (cases cs) auto
qed simp_all

text \<open>\<open>is_list st h xs\<close>: the circle through the head \<open>h\<close> goes through \<open>xs\<close>, in both directions.\<close>

definition is_list :: "'p heap \<Rightarrow> 'p \<Rightarrow> 'p list \<Rightarrow> bool" where
  "is_list st h xs \<longleftrightarrow> distinct (h # xs) \<and> set (h # xs) \<subseteq> dom st \<and> links st (h # xs @ [h])"

text \<open>Two neighbours on the circle, and the paths on either side of them.\<close>

lemma is_list_split:
  assumes "us = butlast (h # xs)" "p = last (h # xs)" "n = hd (ys @ [h])" "vs = tl (ys @ [h])"
  shows "is_list st h (xs @ ys) \<longleftrightarrow> distinct (h # xs @ ys) \<and> set (h # xs @ ys) \<subseteq> dom st \<and>
    links st (us @ [p]) \<and> nx st p = Some n \<and> pv st n = Some p \<and> links st (n # vs)"
proof -
  have "h # xs = us @ [p]" "ys @ [h] = n # vs"
    using assms by (simp, cases ys) auto
  then have "h # (xs @ ys) @ [h] = us @ p # n # vs"
    by (metis append_Cons append_Nil append_assoc)
  then show ?thesis
    unfolding is_list_def using links_append [of st us p "n # vs"] by auto
qed

text \<open>
  What the split knows of the four places: the inner paths avoid the two neighbours, so writing
  the next pointer of \<open>p\<close> and the previous pointer of \<open>n\<close> keeps them.
\<close>

lemma split_places:
  assumes "us = butlast (h # xs)" "p = last (h # xs)" "n = hd (ys @ [h])" "vs = tl (ys @ [h])"
    and "distinct (h # xs @ ys)"
  shows "set us \<subseteq> set (h # xs)" "p \<in> set (h # xs)" "n \<in> set (h # ys)" "set vs \<subseteq> set (h # ys)" "p \<notin> set us"
    "n \<notin> set (tl (us @ [p]))" "p \<notin> set (butlast (n # vs))" "n \<notin> set vs"
    "set (tl (us @ [p])) \<subseteq> set xs" "set (butlast (n # vs)) \<subseteq> set ys"
proof -
  have e: "h # xs = us @ [p]" "ys @ [h] = n # vs"
    using assms by (simp, cases ys) auto
  have t: "tl (us @ [p]) = xs" "butlast (n # vs) = ys"
    using arg_cong [OF e(1), of tl] arg_cong [OF e(2), of butlast] by simp_all
  have d: "distinct (us @ [p])" "distinct (n # vs)"
    using assms(5) by (simp_all add: e(1) [symmetric] e(2) [symmetric])
  show "set us \<subseteq> set (h # xs)" "p \<in> set (h # xs)" "p \<notin> set us"
    using d(1) by (auto simp: e(1))
  have "set (h # ys) = set (n # vs)"
    by (simp add: e(2) [symmetric])
  then show "n \<in> set (h # ys)" "set vs \<subseteq> set (h # ys)" "n \<notin> set vs"
    using d(2) by auto
  show "set (tl (us @ [p])) \<subseteq> set xs" "set (butlast (n # vs)) \<subseteq> set ys"
    using t by simp_all
  have "n \<notin> set xs"
    using \<open>n \<in> set (h # ys)\<close> assms(5) by auto
  then show "n \<notin> set (tl (us @ [p]))" using t by simp
  have "p \<notin> set ys"
    using \<open>p \<in> set (h # xs)\<close> assms(5) by auto
  then show "p \<notin> set (butlast (n # vs))" using t by simp
qed

text \<open>Replacing the link between the neighbours by the path \<open>zs\<close>.\<close>

lemma is_list_insert:
  assumes "us = butlast (h # xs)" "p = last (h # xs)" "n = hd (ys @ [h])" "vs = tl (ys @ [h])"
    and "is_list st h (xs @ ys)" "distinct zs" "set zs \<inter> set (h # xs @ ys) = {}"
    and "set (h # xs @ zs @ ys) \<subseteq> dom st'"
    and "\<And>a. a \<in> set (h # xs @ ys) \<Longrightarrow> a \<noteq> p \<Longrightarrow> nx st' a = nx st a"
    and "\<And>a. a \<in> set (h # xs @ ys) \<Longrightarrow> a \<noteq> n \<Longrightarrow> pv st' a = pv st a"
    and "links st' (p # zs @ [n])"
  shows "is_list st' h (xs @ zs @ ys)"
proof -
  have e: "h # xs = us @ [p]" "ys @ [h] = n # vs"
    using assms(1-4) by (simp, cases ys) auto
  note old = assms(5) [unfolded is_list_split [OF assms(1-4)]]
  note places = split_places [OF assms(1-4) conjunct1 [OF old]]
  have "links st' (us @ [p]) = links st (us @ [p])"
  proof (rule links_cong)
    show "nx st' a = nx st a" if "a \<in> set (butlast (us @ [p]))" for a
      using that places(1,5) by (intro assms(9)) auto
    show "pv st' a = pv st a" if "a \<in> set (tl (us @ [p]))" for a
      using that places(6,9) by (intro assms(10)) auto
  qed
  moreover have "links st' (n # vs) = links st (n # vs)"
  proof (rule links_cong)
    show "nx st' a = nx st a" if "a \<in> set (butlast (n # vs))" for a
      using that places(7,10) by (intro assms(9)) auto
    show "pv st' a = pv st a" if "a \<in> set (tl (n # vs))" for a
      using that places(4,8) by (intro assms(10)) auto
  qed
  ultimately have "links st' (us @ p # zs @ n # vs)"
    using assms(11) old by (metis append_Cons append_assoc links_append)
  moreover have "h # (xs @ zs @ ys) @ [h] = us @ p # zs @ n # vs"
    using e by (metis append_Cons append_Nil append_assoc)
  ultimately show ?thesis
    unfolding is_list_def using old assms(6-8) by auto
qed

lemma is_list_next: "is_list st h (xs @ ys) \<Longrightarrow> nx st (last (h # xs)) = Some (hd (ys @ [h]))"
  and is_list_prev: "is_list st h (xs @ ys) \<Longrightarrow> pv st (hd (ys @ [h])) = Some (last (h # xs))"
  using is_list_split [OF refl refl refl refl, of st h xs ys] by simp_all

lemma is_list_head:
  assumes "is_list st h xs"
  shows "h \<in> dom st" "set xs \<subseteq> dom st" "nx st h = Some (hd (xs @ [h]))" "pv st h = Some (last (h # xs))"
  using is_list_next [of st h "[]" xs] is_list_prev [of st h xs "[]"] assms by (simp_all add: is_list_def)

lemma is_list_element:
  assumes "is_list st h (xs @ a # ys)"
  shows "a \<in> dom st" "nx st a = Some (hd (ys @ [h]))" "pv st a = Some (last (h # xs))"
  using is_list_next [of st h "xs @ [a]" ys] is_list_prev [of st h xs "a # ys"] assms
  by (simp_all add: is_list_def split: if_splits)

lemma neighbours_in:
  "last (h # xs) \<in> set (h # xs)" "hd (ys @ [h]) \<in> set (h # ys)"
  by (simp, cases ys) auto

text \<open>\<open>same_but S st st'\<close>: nothing is allocated or freed, and only structures in \<open>S\<close> change.\<close>

definition same_but :: "'p set \<Rightarrow> 'p heap \<Rightarrow> 'p heap \<Rightarrow> bool" where
  "same_but S st st' \<longleftrightarrow> dom st' = dom st \<and> (\<forall>a. a \<notin> S \<longrightarrow> st' a = st a)"

lemma same_but_refl [simp]: "same_but S st st"
  by (simp add: same_but_def)

lemma same_but_trans: "same_but S st st1 \<Longrightarrow> same_but T st1 st2 \<Longrightarrow> same_but (S \<union> T) st st2"
  by (simp add: same_but_def)

lemma same_but_mono: "same_but S st st' \<Longrightarrow> S \<subseteq> T \<Longrightarrow> same_but T st st'"
  by (auto simp: same_but_def)

lemma same_but_put:
  "same_but S st st' \<Longrightarrow> a \<in> dom st \<Longrightarrow> a \<in> S \<Longrightarrow> same_but S st (put_next a v st')"
  "same_but S st st' \<Longrightarrow> a \<in> dom st \<Longrightarrow> a \<in> S \<Longrightarrow> same_but S st (put_prev a v st')"
  by (auto simp: same_but_def put_next_def put_prev_def)

lemma same_but_ptrs: "same_but S st st' \<Longrightarrow> a \<notin> S \<Longrightarrow> nx st' a = nx st a \<and> pv st' a = pv st a"
  by (simp add: same_but_def nx_def pv_def)

lemma is_list_frame:
  assumes "is_list st h xs" "same_but S st st'" "S \<inter> set (h # xs) = {}"
  shows "is_list st' h xs"
proof -
  have "nx st' a = nx st a \<and> pv st' a = pv st a" if "a \<in> set (h # xs)" for a
    using same_but_ptrs [OF assms(2)] assms(3) that by blast
  then have "links st' (h # xs @ [h]) = links st (h # xs @ [h])"
    by (intro links_cong) (auto simp: butlast_append split: if_splits)
  with assms(1,2) show ?thesis
    by (simp add: is_list_def same_but_def)
qed

section \<open>Each operation on one circle\<close>

lemma add_between:
  assumes "is_list st h (xs @ ys)" "p = last (h # xs)" "n = hd (ys @ [h])" "a \<in> dom st" "a \<notin> set (h # xs @ ys)"
  shows "\<exists>st'. list_add_between (Some a) (Some p) (Some n) st = Inr st' \<and> is_list st' h (xs @ a # ys) \<and>
    same_but (set (a # h # xs @ ys)) st st'"
proof -
  let ?st = "put_next p (Some a) (put_prev a (Some p) (put_next a (Some n) (put_prev n (Some a) st)))"
  have d: "set (h # xs @ ys) \<subseteq> dom st"
    using assms(1) by (auto simp: is_list_def)
  have pn: "p \<in> set (h # xs @ ys)" "n \<in> set (h # xs @ ys)"
    using neighbours_in(1) [of h xs] neighbours_in(2) [of ys h] assms(2,3) by auto
  then have ne: "a \<noteq> p" "a \<noteq> n" "p \<in> dom st" "n \<in> dom st"
    using assms(5) d by (auto simp: subset_iff)
  have "list_add_between (Some a) (Some p) (Some n) st = Inr ?st"
    using ne assms(4) by (simp add: list_add_between_def insert_absorb)
  moreover have "is_list ?st h (xs @ [a] @ ys)"
    by (rule is_list_insert [OF refl assms(2,3) refl assms(1)]) (use assms(4,5) d ne in \<open>auto simp: insert_absorb\<close>)
  moreover have "same_but (set (a # h # xs @ ys)) st ?st"
    using pn ne assms(4) by (intro same_but_put) auto
  ultimately show ?thesis by auto
qed

lemma del_between:
  assumes "is_list st h (xs @ a # ys)"
  shows "\<exists>st'. list_del_entry (Some a) st = Inr st' \<and> is_list st' h (xs @ ys) \<and> same_but (set (h # xs @ ys)) st st'"
proof -
  let ?p = "last (h # xs)" and ?n = "hd (ys @ [h])"
  let ?st = "put_next ?p (Some ?n) (put_prev ?n (Some ?p) st)"
  have d: "distinct (h # xs @ a # ys)" "set (h # xs @ a # ys) \<subseteq> dom st"
    using assms by (auto simp: is_list_def)
  have pn: "?p \<in> set (h # xs)" "?n \<in> set (h # ys)"
    by (rule neighbours_in)+
  then have ne: "?p \<in> dom st" "?n \<in> dom st"
    using d(2) by (auto simp: subset_iff)
  have "list_del_entry (Some a) st = Inr ?st"
    using ne is_list_element [OF assms] by (simp add: list_del_entry_def list_del_between_def insert_absorb)
  moreover have "is_list ?st h (xs @ ys)"
  proof -
    note s1 = is_list_split [OF refl refl refl refl, of st h xs "a # ys"]
    note s2 = is_list_split [OF refl refl refl refl, of st h "xs @ [a]" ys]
    note places = split_places [OF refl refl refl refl, of h xs ys]
    have l: "links st (butlast (h # xs) @ [?p])" "links st (?n # tl (ys @ [h]))"
      using s1 s2 assms by simp_all
    have "links ?st (butlast (h # xs) @ [?p]) = links st (butlast (h # xs) @ [?p])"
    proof (rule links_cong)
      show "nx ?st b = nx st b" if "b \<in> set (butlast (butlast (h # xs) @ [?p]))" for b
        using that places(5) d(1) by (simp del: last.simps butlast.simps) blast
      show "pv ?st b = pv st b" if "b \<in> set (tl (butlast (h # xs) @ [?p]))" for b
        using that places(6) d(1) by (simp del: last.simps butlast.simps) blast
    qed
    moreover have "links ?st (?n # tl (ys @ [h])) = links st (?n # tl (ys @ [h]))"
    proof (rule links_cong)
      show "nx ?st b = nx st b" if "b \<in> set (butlast (?n # tl (ys @ [h])))" for b
        using that places(7) d(1) by (simp del: last.simps butlast.simps) blast
      show "pv ?st b = pv st b" if "b \<in> set (tl (?n # tl (ys @ [h])))" for b
        using that places(8) d(1) by (simp del: last.simps butlast.simps) blast
    qed
    ultimately show ?thesis
      using l d by (subst is_list_split [OF refl refl refl refl]) (auto simp del: last.simps butlast.simps)
  qed
  moreover have "same_but (set (h # xs @ ys)) st ?st"
    using pn ne by (intro same_but_put) auto
  ultimately show ?thesis by auto
qed

lemma links_ends:
  "zs \<noteq> [] \<Longrightarrow> links st (p # zs @ [n]) \<longleftrightarrow>
     nx st p = Some (hd zs) \<and> pv st (hd zs) = Some p \<and> links st zs \<and> nx st (last zs) = Some n \<and> pv st n = Some (last zs)"
proof -
  assume "zs \<noteq> []"
  moreover from this obtain a b as bs where z: "zs = a # as" "zs = bs @ [b]"
    by (metis list.exhaust_sel append_butlast_last_id)
  have "links st (p # zs @ [n]) \<longleftrightarrow> nx st p = Some a \<and> pv st a = Some p \<and> links st (zs @ [n])"
    using z(1) by simp
  moreover have "links st (zs @ [n]) \<longleftrightarrow> links st zs \<and> nx st b = Some n \<and> pv st n = Some b"
    using links_append [of st bs b "[n]"] z(2) by simp
  moreover have "a = hd zs" "b = last zs"
    using z(1) by simp (simp add: z(2))
  ultimately show ?thesis
    by metis
qed

lemma splice_between:
  assumes "is_list st h (xs @ ys)" "p = last (h # xs)" "n = hd (ys @ [h])" "is_list st l zs" "zs \<noteq> []"
    and "set (l # zs) \<inter> set (h # xs @ ys) = {}"
  shows "\<exists>st'. and_then (list_splice_between (Some l) (Some p) (Some n) st) (INIT_LIST_HEAD (Some l)) = Inr st' \<and>
    is_list st' h (xs @ zs @ ys) \<and> is_list st' l [] \<and> same_but (set (l # zs @ h # xs @ ys)) st st'"
proof -
  let ?st = "put_prev n (Some (last zs)) (put_next (last zs) (Some n) (put_next p (Some (hd zs)) (put_prev (hd zs) (Some p) st)))"
  let ?st' = "put_prev l (Some l) (put_next l (Some l) ?st)"
  let ?S = "set (l # zs @ h # xs @ ys)"
  have d: "set (h # xs @ ys) \<subseteq> dom st" "set (l # zs) \<subseteq> dom st" "distinct (l # zs)"
    using assms(1,4) by (auto simp: is_list_def)
  have z: "hd zs \<in> set zs" "last zs \<in> set zs" "hd (zs @ [l]) = hd zs" "last (l # zs) = last zs"
    using assms(5) by simp_all
  have pn: "p \<in> set (h # xs @ ys)" "n \<in> set (h # xs @ ys)"
    using neighbours_in(1) [of h xs] neighbours_in(2) [of ys h] assms(2,3) by auto
  have "p \<notin> set (l # zs)" "n \<notin> set (l # zs)"
    using pn IntI [OF _ pn(1)] IntI [OF _ pn(2)] assms(6) by (metis empty_iff)+
  moreover have "p \<in> dom st" "n \<in> dom st"
    using subsetD [OF d(1)] pn by blast+
  moreover have "hd zs \<in> dom st" "last zs \<in> dom st" "l \<in> dom st"
    using subsetD [OF d(2)] z(1,2) by simp_all
  ultimately have ne: "p \<notin> set (l # zs)" "n \<notin> set (l # zs)" "p \<in> dom st" "n \<in> dom st" "hd zs \<in> dom st"
    "last zs \<in> dom st" "l \<in> dom st"
    by simp_all
  have split: "and_then (list_splice_between (Some l) (Some p) (Some n) st) (INIT_LIST_HEAD (Some l)) = Inr ?st'"
    using ne is_list_head [OF assms(4)] z
    by (simp add: list_splice_between_def INIT_LIST_HEAD_def insert_absorb del: last.simps)
  have same: "same_but ?S st ?st'"
    using pn ne z d by (intro same_but_put) auto
  have "is_list ?st' h (xs @ zs @ ys)"
  proof (rule is_list_insert [OF refl assms(2,3) refl assms(1)])
    have "links st (l # zs @ [l])"
      using assms(4) by (simp add: is_list_def)
    then have "links st zs"
      using links_ends [OF assms(5)] by blast
    moreover have "links ?st' zs = links st zs"
    proof (rule links_cong)
      have "distinct (butlast zs @ [last zs])" "distinct (hd zs # tl zs)"
        using d(3) assms(5) by simp_all
      then have "last zs \<notin> set (butlast zs)" "hd zs \<notin> set (tl zs)"
        by simp_all
      then show "nx ?st' a = nx st a" if "a \<in> set (butlast zs)" for a
        using that ne(1) d(3) in_set_butlastD [OF that] by auto
      show "pv ?st' a = pv st a" if "a \<in> set (tl zs)" for a
        using that ne(2) d(3) \<open>hd zs \<notin> set (tl zs)\<close> list.set_sel(2) [OF assms(5) that] by auto
    qed
    ultimately show "links ?st' (p # zs @ [n])"
      unfolding links_ends [OF assms(5)] using ne z(1,2) d(3) by auto
    show "distinct zs" "set zs \<inter> set (h # xs @ ys) = {}"
      using d(3) assms(6) by auto
    show "set (h # xs @ zs @ ys) \<subseteq> dom ?st'"
      using d ne by auto
    fix a
    assume "a \<in> set (h # xs @ ys)"
    then have "a \<notin> set (l # zs)"
      using assms(6) by blast
    then have "a \<noteq> l" "a \<noteq> hd zs" "a \<noteq> last zs"
      using z(1,2) by auto
    then show "a \<noteq> p \<Longrightarrow> nx ?st' a = nx st a" "a \<noteq> n \<Longrightarrow> pv ?st' a = pv st a"
      by simp_all
  qed
  moreover have "is_list ?st' l []"
    by (simp add: is_list_def)
  ultimately show ?thesis
    using split same by blast
qed

section \<open>A heap of lists\<close>

text \<open>
  The abstract state: the allocated addresses and, for every list head, the elements of its
  list, in order.  An allocated address is a head, an element of one list, or free.
\<close>

type_synonym 'p lists = "'p set \<times> ('p \<Rightarrow> 'p list option)"

definition members :: "('p \<Rightarrow> 'p list option) \<Rightarrow> 'p set" where
  "members H = {a. \<exists>h xs. H h = Some xs \<and> a \<in> set (h # xs)}"

definition disjoint_lists :: "('p \<Rightarrow> 'p list option) \<Rightarrow> bool" where
  "disjoint_lists H \<longleftrightarrow> (\<forall>h h' xs xs'. H h = Some xs \<longrightarrow> H h' = Some xs' \<longrightarrow> h \<noteq> h' \<longrightarrow> set (h # xs) \<inter> set (h' # xs') = {})"

definition heap_lists :: "'p heap \<Rightarrow> 'p lists \<Rightarrow> bool" where
  "heap_lists st = (\<lambda>(A, H). dom st = A \<and> (\<forall>h xs. H h = Some xs \<longrightarrow> is_list st h xs) \<and> disjoint_lists H)"

datatype 'p list_op =
    Alloc 'p | Free 'p | Init 'p | Add 'p 'p | Add_tail 'p 'p | Del 'p | Move 'p 'p | Move_tail 'p 'p
  | Splice 'p 'p | Splice_tail 'p 'p

definition list_code :: "'p list_op \<Rightarrow> 'p heap \<Rightarrow> 'p heap result" where
  "list_code x st = (case x of
      Alloc a \<Rightarrow> alloc_node a st
    | Free a \<Rightarrow> free_node (Some a) st
    | Init a \<Rightarrow> INIT_LIST_HEAD (Some a) st
    | Add a h \<Rightarrow> list_add (Some a) (Some h) st
    | Add_tail a h \<Rightarrow> list_add_tail (Some a) (Some h) st
    | Del a \<Rightarrow> list_del (Some a) st
    | Move a h \<Rightarrow> list_move (Some a) (Some h) st
    | Move_tail a h \<Rightarrow> list_move_tail (Some a) (Some h) st
    | Splice l h \<Rightarrow> list_splice_init (Some l) (Some h) st
    | Splice_tail l h \<Rightarrow> list_splice_tail_init (Some l) (Some h) st)"

text \<open>What the operations do to the lists, and when a caller may call them.\<close>

inductive list_spec :: "'p list_op \<Rightarrow> 'p lists \<Rightarrow> 'p lists \<Rightarrow> bool" where
  alloc: "a \<notin> A \<Longrightarrow> list_spec (Alloc a) (A, H) (insert a A, H)"
| free: "a \<in> A \<Longrightarrow> a \<notin> members H \<Longrightarrow> list_spec (Free a) (A, H) (A - {a}, H)"
| init: "a \<in> A \<Longrightarrow> a \<notin> members H \<Longrightarrow> list_spec (Init a) (A, H) (A, H(a \<mapsto> []))"
| add: "a \<in> A \<Longrightarrow> a \<notin> members H \<Longrightarrow> H h = Some xs \<Longrightarrow> list_spec (Add a h) (A, H) (A, H(h \<mapsto> a # xs))"
| add_tail: "a \<in> A \<Longrightarrow> a \<notin> members H \<Longrightarrow> H h = Some xs \<Longrightarrow>
    list_spec (Add_tail a h) (A, H) (A, H(h \<mapsto> xs @ [a]))"
| del: "H h = Some xs \<Longrightarrow> a \<in> set xs \<Longrightarrow> list_spec (Del a) (A, H) (A, H(h \<mapsto> remove1 a xs))"
| move: "H h = Some xs \<Longrightarrow> a \<in> set xs \<Longrightarrow> (H(h \<mapsto> remove1 a xs)) h' = Some ys \<Longrightarrow>
    list_spec (Move a h') (A, H) (A, H(h \<mapsto> remove1 a xs, h' \<mapsto> a # ys))"
| move_tail: "H h = Some xs \<Longrightarrow> a \<in> set xs \<Longrightarrow> (H(h \<mapsto> remove1 a xs)) h' = Some ys \<Longrightarrow>
    list_spec (Move_tail a h') (A, H) (A, H(h \<mapsto> remove1 a xs, h' \<mapsto> ys @ [a]))"
| splice: "H l = Some zs \<Longrightarrow> H h = Some xs \<Longrightarrow> l \<noteq> h \<Longrightarrow>
    list_spec (Splice l h) (A, H) (A, H(h \<mapsto> zs @ xs, l \<mapsto> []))"
| splice_tail: "H l = Some zs \<Longrightarrow> H h = Some xs \<Longrightarrow> l \<noteq> h \<Longrightarrow>
    list_spec (Splice_tail l h) (A, H) (A, H(h \<mapsto> xs @ zs, l \<mapsto> []))"

inductive_cases list_specE: "list_spec x (A, H) K"

section \<open>The simulation\<close>

lemma heap_listsD:
  assumes "heap_lists st (A, H)" "H h = Some xs"
  shows "is_list st h xs" "set (h # xs) \<subseteq> A" "set (h # xs) \<subseteq> members H"
proof -
  show l: "is_list st h xs"
    using assms by (simp add: heap_lists_def)
  then show "set (h # xs) \<subseteq> A"
    using assms(1) by (simp add: heap_lists_def is_list_def)
  show "set (h # xs) \<subseteq> members H"
    using assms(2) unfolding members_def by blast
qed

lemma members_iff: "a \<in> members H \<longleftrightarrow> (\<exists>h xs. H h = Some xs \<and> a \<in> set (h # xs))"
  by (simp add: members_def)

lemma heap_lists_update:
  assumes "heap_lists st (A, H)" "same_but S st st'" "disjoint_lists H'"
    and "\<And>h xs. H' h = Some xs \<Longrightarrow> is_list st' h xs \<or> H h = Some xs \<and> S \<inter> set (h # xs) = {}"
  shows "heap_lists st' (A, H')"
proof -
  have "is_list st' h xs" if "H' h = Some xs" for h xs
    using assms(4) [OF that] is_list_frame [OF heap_listsD(1) [OF assms(1)] assms(2)] by blast
  then show ?thesis
    using assms(1-3) by (simp add: heap_lists_def same_but_def)
qed

lemma disjoint_lists_other:
  "disjoint_lists H \<Longrightarrow> H h = Some xs \<Longrightarrow> H h' = Some xs' \<Longrightarrow> h \<noteq> h' \<Longrightarrow> set (h # xs) \<inter> set (h' # xs') = {}"
  unfolding disjoint_lists_def by blast

text \<open>One list changes; its new elements were free.\<close>

lemma disjoint_lists_upd:
  assumes "disjoint_lists H" "set (h # xs') \<subseteq> set (case H h of None \<Rightarrow> [] | Some xs \<Rightarrow> h # xs) \<union> F" "F \<inter> members H = {}"
  shows "disjoint_lists (H(h \<mapsto> xs'))"
proof -
  have "set (h # xs') \<inter> set (k # ys) = {}" if "H k = Some ys" "h \<noteq> k" for k ys
  proof -
    have "F \<inter> set (k # ys) = {}"
      using assms(3) that(1) unfolding members_def by blast
    moreover have "set (case H h of None \<Rightarrow> [] | Some xs \<Rightarrow> h # xs) \<inter> set (k # ys) = {}"
      using disjoint_lists_other [OF assms(1) _ that] by (cases "H h") simp_all
    ultimately show ?thesis
      using assms(2) by blast
  qed
  moreover have "set (k # ys) \<inter> set (k' # ys') = {}" if "H k = Some ys" "H k' = Some ys'" "k \<noteq> k'" for k k' ys ys'
    using disjoint_lists_other [OF assms(1) that] .
  ultimately show ?thesis
    unfolding disjoint_lists_def by (metis fun_upd_apply option.inject inf_commute)
qed

lemma heap_lists_one:
  assumes "heap_lists st (A, H)" "H h = Some xs" "is_list st' h xs'" "set xs' \<subseteq> set xs \<union> F" "F \<inter> members H = {}"
    and "same_but (F \<union> set (h # xs)) st st'"
  shows "heap_lists st' (A, H(h \<mapsto> xs'))"
proof (rule heap_lists_update [OF assms(1,6)])
  have d: "disjoint_lists H"
    using assms(1) by (simp add: heap_lists_def)
  then show "disjoint_lists (H(h \<mapsto> xs'))"
    using assms(2,4,5) by (intro disjoint_lists_upd [of _ _ _ F]) auto
  fix k ys
  assume k: "(H(h \<mapsto> xs')) k = Some ys"
  show "is_list st' k ys \<or> H k = Some ys \<and> (F \<union> set (h # xs)) \<inter> set (k # ys) = {}"
  proof (cases "k = h")
    case False
    with k have k: "H k = Some ys"
      by simp
    then have "F \<inter> set (k # ys) = {}"
      using assms(5) heap_listsD(3) [OF assms(1) k] by blast
    with k disjoint_lists_other [OF d assms(2) k] False show ?thesis
      by blast
  qed (use k assms(3) in simp)
qed

lemma add_simulates:
  assumes "heap_lists st (A, H)" "a \<in> A" "a \<notin> members H" "H h = Some xs"
  shows "\<exists>st'. list_add (Some a) (Some h) st = Inr st' \<and> heap_lists st' (A, H(h \<mapsto> a # xs))"
    and "\<exists>st'. list_add_tail (Some a) (Some h) st = Inr st' \<and> heap_lists st' (A, H(h \<mapsto> xs @ [a]))"
proof -
  note l = heap_listsD [OF assms(1,4)]
  have a: "a \<in> dom st" "a \<notin> set (h # xs)"
    using assms(1-3) l(3) by (auto simp: heap_lists_def)
  note ends = is_list_head [OF l(1)]
  have one: "heap_lists st' (A, H(h \<mapsto> ys))" if "is_list st' h ys" "same_but (set (a # h # xs)) st st'" "set ys = insert a (set xs)" for st' ys
    using heap_lists_one [OF assms(1,4) that(1), of "{a}"] assms(3) that(2,3) by (simp add: insert_commute)
  obtain st1 where "list_add_between (Some a) (Some h) (Some (hd (xs @ [h]))) st = Inr st1" "is_list st1 h (a # xs)"
    "same_but (set (a # h # xs)) st st1"
    using add_between [of st h "[]" xs h _ a] l(1) a by auto
  with one [OF this(2,3)] show "\<exists>st'. list_add (Some a) (Some h) st = Inr st' \<and> heap_lists st' (A, H(h \<mapsto> a # xs))"
    using ends(1,3) by (simp add: list_add_def)
  obtain st2 where "list_add_between (Some a) (Some (last (h # xs))) (Some h) st = Inr st2" "is_list st2 h (xs @ [a])"
    "same_but (set (a # h # xs)) st st2"
    using add_between [of st h xs "[]" "last (h # xs)" h a] l(1) a by auto
  with one [OF this(2,3)] show "\<exists>st'. list_add_tail (Some a) (Some h) st = Inr st' \<and> heap_lists st' (A, H(h \<mapsto> xs @ [a]))"
    using ends(1,4) by (simp add: list_add_tail_def)
qed

lemma del_simulates:
  assumes "heap_lists st (A, H)" "H h = Some xs" "a \<in> set xs"
  shows "\<exists>st'. list_del_entry (Some a) st = Inr st' \<and> heap_lists st' (A, H(h \<mapsto> remove1 a xs)) \<and>
    a \<in> A \<and> a \<notin> members (H(h \<mapsto> remove1 a xs))"
proof -
  obtain ys zs where xs: "xs = ys @ a # zs"
    using split_list [OF assms(3)] by blast
  note l = heap_listsD [OF assms(1,2)]
  have dist: "distinct (h # ys @ a # zs)"
    using l(1) by (simp add: is_list_def xs)
  then have r: "remove1 a xs = ys @ zs"
    by (simp add: xs remove1_append)
  obtain st' where st': "list_del_entry (Some a) st = Inr st'" "is_list st' h (ys @ zs)" "same_but (set (h # ys @ zs)) st st'"
    using del_between [OF l(1) [unfolded xs]] by blast
  have "heap_lists st' (A, H(h \<mapsto> ys @ zs))"
  proof (rule heap_lists_one [OF assms(1,2) st'(2), of "{}"])
    show "same_but ({} \<union> set (h # xs)) st st'"
      by (rule same_but_mono [OF st'(3)]) (auto simp: xs)
  qed (auto simp: xs)
  moreover have "a \<notin> members (H(h \<mapsto> ys @ zs))"
  proof
    assume "a \<in> members (H(h \<mapsto> ys @ zs))"
    then obtain k vs where k: "(H(h \<mapsto> ys @ zs)) k = Some vs" "a \<in> set (k # vs)"
      unfolding members_def by blast
    show False
    proof (cases "k = h")
      case True
      with k dist show False by auto
    next
      case False
      with k have "H k = Some vs" by simp
      then have "set (h # xs) \<inter> set (k # vs) = {}"
        using disjoint_lists_other [of H h xs k vs] assms(1,2) False by (simp add: heap_lists_def)
      with k(2) assms(3) show False by (meson disjoint_iff list.set_intros(2))
    qed
  qed
  ultimately show ?thesis
    using st'(1) l(2) assms(3) unfolding r by (meson list.set_intros(2) subsetD)
qed

lemma init_simulates:
  assumes "heap_lists st (A, H)" "a \<in> A" "a \<notin> members H"
  shows "\<exists>st'. INIT_LIST_HEAD (Some a) st = Inr st' \<and> heap_lists st' (A, H(a \<mapsto> []))"
proof -
  let ?st = "put_prev a (Some a) (put_next a (Some a) st)"
  have a: "a \<in> dom st"
    using assms(1,2) by (simp add: heap_lists_def)
  then have "INIT_LIST_HEAD (Some a) st = Inr ?st"
    by (simp add: INIT_LIST_HEAD_def insert_absorb)
  moreover have "heap_lists ?st (A, H(a \<mapsto> []))"
  proof (rule heap_lists_update [OF assms(1), of "{a}"])
    show "same_but {a} st ?st"
      using a by (intro same_but_put) auto
    show "disjoint_lists (H(a \<mapsto> []))"
      by (rule disjoint_lists_upd [of _ _ _ "{a}"]) (use assms in \<open>auto simp: heap_lists_def\<close>)
    fix h xs
    assume h: "(H(a \<mapsto> [])) h = Some xs"
    show "is_list ?st h xs \<or> H h = Some xs \<and> {a} \<inter> set (h # xs) = {}"
    proof (cases "h = a")
      case True
      with h show ?thesis by (simp add: is_list_def)
    next
      case False
      with h have "H h = Some xs" by simp
      with assms(3) show ?thesis
        using heap_listsD(3) [OF assms(1)] by blast
    qed
  qed
  ultimately show ?thesis by blast
qed

text \<open>Splicing empties one list into the other, at the place between \<open>xs\<close> and \<open>ys\<close>.\<close>

lemma splice_simulates:
  assumes "heap_lists st (A, H)" "H l = Some zs" "H h = Some (xs @ ys)" "l \<noteq> h" "zs \<noteq> []"
    and "p = last (h # xs)" "n = hd (ys @ [h])"
  shows "\<exists>st'. and_then (list_splice_between (Some l) (Some p) (Some n) st) (INIT_LIST_HEAD (Some l)) = Inr st' \<and>
    heap_lists st' (A, H(h \<mapsto> xs @ zs @ ys, l \<mapsto> []))"
proof -
  let ?S = "set (l # zs @ h # xs @ ys)" and ?H = "H(h \<mapsto> xs @ zs @ ys, l \<mapsto> [])"
  have d: "disjoint_lists H"
    using assms(1) by (simp add: heap_lists_def)
  note lh = disjoint_lists_other [OF d assms(2,3,4)]
  obtain st' where st': "and_then (list_splice_between (Some l) (Some p) (Some n) st) (INIT_LIST_HEAD (Some l)) = Inr st'"
    "is_list st' h (xs @ zs @ ys)" "is_list st' l []" "same_but ?S st st'"
    using splice_between [OF heap_listsD(1) [OF assms(1,3)] assms(6,7) heap_listsD(1) [OF assms(1,2)] assms(5) lh]
    by blast
  have other: "?S \<inter> set (k # vs) = {}" if "H k = Some vs" "k \<noteq> h" "k \<noteq> l" for k vs
    using disjoint_lists_other [OF d assms(2) that(1)] disjoint_lists_other [OF d assms(3) that(1)] that(2,3)
    by (simp add: Int_Un_distrib2)
  have "heap_lists st' (A, ?H)"
  proof (rule heap_lists_update [OF assms(1) st'(4)])
    show "is_list st' k vs \<or> H k = Some vs \<and> ?S \<inter> set (k # vs) = {}" if "?H k = Some vs" for k vs
      using that other [of k vs] st'(2,3) by (cases "k = l"; cases "k = h") simp_all
    have hd: "set (h # xs @ zs @ ys) \<inter> set (k # vs) = {}" if "?H k = Some vs" "k \<noteq> h" for k vs
    proof (cases "k = l")
      case True
      with that have "vs = []" by simp
      moreover have "l \<notin> set (h # xs @ zs @ ys)"
        using lh heap_listsD(1) [OF assms(1,2)] by (auto simp: is_list_def)
      ultimately show ?thesis using True by auto
    next
      case False
      with that have "H k = Some vs" by simp
      from other [OF this that(2) False] show ?thesis by auto
    qed
    have ld: "set [l] \<inter> set (k # vs) = {}" if "?H k = Some vs" "k \<noteq> h" "k \<noteq> l" for k vs
      using that other [of k vs] by simp
    show "disjoint_lists ?H"
      unfolding disjoint_lists_def
    proof (intro allI impI)
      fix k k' vs vs'
      assume k: "?H k = Some vs" "?H k' = Some vs'" "k \<noteq> k'"
      consider "k = h" | "k' = h" | "k \<noteq> h" "k' \<noteq> h"
        by blast
      then show "set (k # vs) \<inter> set (k' # vs') = {}"
      proof cases
        case 1
        then have "vs = xs @ zs @ ys"
          using k(1) assms(4) by simp
        with hd [OF k(2)] k(3) 1 show ?thesis by blast
      next
        case 2
        then have "vs' = xs @ zs @ ys"
          using k(2) assms(4) by simp
        with hd [OF k(1)] k(3) 2 show ?thesis by blast
      next
        case 3
        consider "k = l" | "k' = l" | "k \<noteq> l" "k' \<noteq> l"
          by blast
        then show ?thesis
        proof cases
          case 1
          with k(1) ld [OF k(2) 3(2)] k(3) show ?thesis by simp
        next
          case 2
          with k(2) ld [OF k(1) 3(1)] k(3) show ?thesis by auto
        next
          case 3
          with k \<open>k \<noteq> h\<close> \<open>k' \<noteq> h\<close> show ?thesis
            using disjoint_lists_other [OF d _ _ k(3), of vs vs'] by simp
        qed
      qed
    qed
  qed
  with st'(1) show ?thesis by blast
qed

lemma list_empty_iff:
  assumes "is_list st h xs"
  shows "list_empty (Some h) st = Inr (xs = [])"
proof -
  have "hd (xs @ [h]) = h \<longleftrightarrow> xs = []"
    using assms by (cases xs) (auto simp: is_list_def)
  then show ?thesis
    using is_list_head(1,3) [OF assms] by (simp add: list_empty_def)
qed

lemma list_step:
  assumes "heap_lists st K" "list_spec x K K'"
  shows "\<exists>st'. list_code x st = Inr st' \<and> heap_lists st' K'"
  using assms(2,1)
proof cases
  case (alloc a A H)
  then have "st a = None"
    using assms(1) by (auto simp: heap_lists_def)
  let ?st = "st(a \<mapsto> \<lparr>prev_ptr = None, next_ptr = None\<rparr>)"
  have "is_list ?st h xs" if "H h = Some xs" for h xs
  proof -
    note l = heap_listsD(1,2) [OF assms(1) [unfolded alloc(2)] that]
    have "nx ?st b = nx st b \<and> pv ?st b = pv st b" if "b \<in> set (h # xs)" for b
      using that l(2) alloc(4) by (auto simp: nx_def pv_def)
    then have "links ?st (h # xs @ [h]) = links st (h # xs @ [h])"
      by (intro links_cong) (auto simp: butlast_append split: if_splits)
    with l show ?thesis
      by (auto simp: is_list_def)
  qed
  then show ?thesis
    using alloc assms(1) \<open>st a = None\<close> by (simp add: list_code_def alloc_node_def heap_lists_def)
next
  case (free a A H)
  let ?st = "st(a := None)"
  have "is_list ?st h xs" if "H h = Some xs" for h xs
  proof -
    note l = heap_listsD [OF assms(1) [unfolded free(2)] that]
    have a: "a \<notin> set (h # xs)"
      using l(3) free(5) by blast
    then have "nx ?st b = nx st b \<and> pv ?st b = pv st b" if "b \<in> set (h # xs)" for b
      using that by (auto simp: nx_def pv_def)
    then have "links ?st (h # xs @ [h]) = links st (h # xs @ [h])"
      by (intro links_cong) (auto simp: butlast_append split: if_splits)
    with l a show ?thesis
      by (auto simp: is_list_def)
  qed
  moreover have "a \<in> dom st"
    using free assms(1) by (simp add: heap_lists_def)
  ultimately show ?thesis
    using free assms(1) by (auto simp: list_code_def free_node_def deref_def heap_lists_def)
next
  case (init a A H)
  with init_simulates assms(1) show ?thesis by (simp add: list_code_def)
next
  case (add a A H h xs)
  with add_simulates(1) assms(1) show ?thesis by (simp add: list_code_def)
next
  case (add_tail a A H h xs)
  with add_simulates(2) assms(1) show ?thesis by (simp add: list_code_def)
next
  case (del H h xs a A)
  from del_simulates [OF assms(1) [unfolded del(2)] del(4,5)] obtain st' where
    st': "list_del_entry (Some a) st = Inr st'" "heap_lists st' (A, H(h \<mapsto> remove1 a xs))" "a \<in> A"
    "a \<notin> members (H(h \<mapsto> remove1 a xs))"
    by blast
  let ?st = "put_prev a None (put_next a None st')"
  have a: "a \<in> dom st'"
    using st'(2,3) by (simp add: heap_lists_def)
  have "heap_lists ?st (A, H(h \<mapsto> remove1 a xs))"
  proof (rule heap_lists_update [OF st'(2), of "{a}"])
    show "same_but {a} st' ?st"
      using a by (intro same_but_put) auto
    show "disjoint_lists (H(h \<mapsto> remove1 a xs))"
      using st'(2) by (simp add: heap_lists_def)
    show "is_list ?st k vs \<or> (H(h \<mapsto> remove1 a xs)) k = Some vs \<and> {a} \<inter> set (k # vs) = {}"
      if "(H(h \<mapsto> remove1 a xs)) k = Some vs" for k vs
      using heap_listsD(3) [OF st'(2) that] st'(4) that by blast
  qed
  then show ?thesis
    using st'(1) a del by (simp add: list_code_def list_del_def)
next
  case (move H h xs a h' ys A)
  from del_simulates [OF assms(1) [unfolded move(2)] move(4,5)] obtain st' where
    "list_del_entry (Some a) st = Inr st'" "heap_lists st' (A, H(h \<mapsto> remove1 a xs))" "a \<in> A"
    "a \<notin> members (H(h \<mapsto> remove1 a xs))"
    by blast
  with add_simulates(1) [OF this(2,3,4) move(6)] show ?thesis
    using move by (simp add: list_code_def list_move_def del: fun_upd_apply)
next
  case (move_tail H h xs a h' ys A)
  from del_simulates [OF assms(1) [unfolded move_tail(2)] move_tail(4,5)] obtain st' where
    "list_del_entry (Some a) st = Inr st'" "heap_lists st' (A, H(h \<mapsto> remove1 a xs))" "a \<in> A"
    "a \<notin> members (H(h \<mapsto> remove1 a xs))"
    by blast
  with add_simulates(2) [OF this(2,3,4) move_tail(6)] show ?thesis
    using move_tail by (simp add: list_code_def list_move_tail_def del: fun_upd_apply)
next
  case (splice H l zs h xs A)
  note s = assms(1) [unfolded splice(2)]
  note l = heap_listsD(1) [OF s splice(4)] and h = heap_listsD(1) [OF s splice(5)]
  show ?thesis
  proof (cases "zs = []")
    case True
    with splice s show ?thesis
      by (simp add: list_code_def list_splice_init_def list_empty_iff [OF l] fun_upd_idem)
  next
    case False
    with splice_simulates [OF s splice(4) _ splice(6) False refl refl, of "[]" xs] splice(1,3,5)
    show ?thesis
      using is_list_head [OF h] by (simp add: list_code_def list_splice_init_def list_empty_iff [OF l])
  qed
next
  case (splice_tail H l zs h xs A)
  note s = assms(1) [unfolded splice_tail(2)]
  note l = heap_listsD(1) [OF s splice_tail(4)] and h = heap_listsD(1) [OF s splice_tail(5)]
  show ?thesis
  proof (cases "zs = []")
    case True
    with splice_tail s show ?thesis
      by (simp add: list_code_def list_splice_tail_init_def list_empty_iff [OF l] fun_upd_idem)
  next
    case False
    with splice_simulates [OF s splice_tail(4) _ splice_tail(6) False refl refl, of xs "[]"] splice_tail(1,3,5)
    show ?thesis
      using is_list_head [OF h] by (simp add: list_code_def list_splice_tail_init_def list_empty_iff [OF l])
  qed
qed

interpretation lists: simulation list_code list_spec heap_lists
  by unfold_locales (rule list_step)

section \<open>Loops\<close>

lemma for_each_entry_visits:
  "is_list st h (xs @ ys) \<Longrightarrow> length ys \<le> k \<Longrightarrow> for_each_entry k (Some (hd (ys @ [h]))) (Some h) st = Inr ys"
proof (induction ys arbitrary: xs k)
  case Nil
  show ?case by (simp add: for_each_entry.simps)
next
  case (Cons y ys)
  obtain j where k: "k = Suc j" "length ys \<le> j"
    using Cons.prems(2) by (cases k) auto
  have y: "y \<noteq> h" "nx st y = Some (hd (ys @ [h]))" "deref (Some y) st = Inr (y, the (st y))"
    using Cons.prems(1) is_list_element [OF Cons.prems(1)] by (auto simp: is_list_def deref_def)
  have "for_each_entry j (Some (hd (ys @ [h]))) (Some h) st = Inr ys"
    using Cons.IH [of "xs @ [y]" j] Cons.prems(1) k(2) by simp
  with y show ?case
    by (subst for_each_entry.simps) (simp add: k(1) nx_def)
qed

lemma list_for_each_entry_visits:
  "is_list st h xs \<Longrightarrow> length xs \<le> k \<Longrightarrow> list_for_each_entry k (Some h) st = Inr xs"
  using for_each_entry_visits [of st h "[]" xs k] is_list_head [of st h xs] by (simp add: list_for_each_entry_def)

lemma unlink_and_free:
  assumes "heap_lists st (A, H)" "H h = Some (x # xs)"
  shows "\<exists>st'. and_then (list_del (Some x) st) (free_node (Some x)) = Inr st' \<and>
    heap_lists st' (A - {x}, H(h \<mapsto> xs))"
proof -
  have l: "is_list st h (x # xs)" "x \<in> A"
    using heap_listsD [OF assms] by auto
  then have x: "x \<noteq> h" "x \<notin> set xs"
    by (auto simp: is_list_def)
  have "x \<notin> members (H(h \<mapsto> xs))"
    using del_simulates [OF assms, of x] by auto
  moreover have "list_spec (Del x) (A, H) (A, H(h \<mapsto> xs))"
    using list_spec.del [of H h "x # xs" x A] assms(2) by simp
  ultimately have "spec_run list_spec [Del x, Free x] (A, H) (A - {x}, H(h \<mapsto> xs))"
    using l(2) by (blast intro: spec_run.intros list_spec.free)
  from lists.runs [OF this assms(1)] show ?thesis
    by (auto simp: list_code_def and_then_eq_Inr)
qed

lemma clear_from:
  assumes "heap_lists st (A, H)" "H h = Some xs" "length xs \<le> k"
  shows "\<exists>st'. for_each_safe (\<lambda>p st. and_then (list_del p st) (free_node p)) k
      (Some (hd (xs @ [h]))) (nx st (hd (xs @ [h]))) (Some h) st = Inr st' \<and>
    heap_lists st' (A - set xs, H(h \<mapsto> []))"
  using assms
proof (induction xs arbitrary: st A H k)
  case Nil
  then show ?case by (subst for_each_safe.simps) (simp add: fun_upd_idem)
next
  case (Cons x xs)
  obtain j where k: "k = Suc j" "length xs \<le> j"
    using Cons.prems(3) by (cases k) auto
  note l = heap_listsD(1) [OF Cons.prems(1,2)]
  have x: "x \<noteq> h" "nx st x = Some (hd (xs @ [h]))"
    using is_list_element(2) [of st h "[]" x xs] l by (auto simp: is_list_def)
  obtain st1 where st1: "and_then (list_del (Some x) st) (free_node (Some x)) = Inr st1"
    "heap_lists st1 (A - {x}, H(h \<mapsto> xs))"
    using unlink_and_free [OF Cons.prems(1,2)] by blast
  have "hd (xs @ [h]) \<in> dom st1"
    using heap_listsD(1) [OF st1(2), of h xs] is_list_head [of st1 h xs] by (cases xs) auto
  then have next1: "get_next (Some (hd (xs @ [h]))) st1 = Inr (nx st1 (hd (xs @ [h])))"
    by simp
  obtain st2 where st2: "for_each_safe (\<lambda>p st. and_then (list_del p st) (free_node p)) j
      (Some (hd (xs @ [h]))) (nx st1 (hd (xs @ [h]))) (Some h) st1 = Inr st2"
    "heap_lists st2 (A - {x} - set xs, H(h \<mapsto> []))"
    using Cons.IH [OF st1(2) fun_upd_same k(2)] by (auto simp del: fun_upd_apply)
  have "A - set (x # xs) = A - {x} - set xs"
    by auto
  with st1(1) st2 next1 x show ?case
    by (subst for_each_safe.simps) (simp add: k(1) del: get_ptr)
qed

section \<open>Properties\<close>

text \<open>C33.  The macros of \<open>list.h\<close> implement lists.  Take a heap with any number of circular lists,
  disjoint from each other, and any sequence of allocations, frees and operations in which each
  is called as its comment says: then no step reads or writes through \<open>NULL\<close> or freed memory, the
  heap again holds disjoint circular lists, linked in both directions, and they are the lists the
  specification computes (put in front, put at the end, taken out, moved, spliced).
  \<open>list_empty\<close> tells whether a list is empty and \<open>list_for_each_entry\<close> visits its elements in
  order.\<close>

theorem lists_refine:
  assumes "heap_lists st K" "spec_run list_spec ops K (A, H)"
  shows "\<exists>st'. run list_code ops st = Inr st' \<and> heap_lists st' (A, H) \<and>
    (\<forall>h xs. H h = Some xs \<longrightarrow> list_empty (Some h) st' = Inr (xs = []) \<and>
       list_for_each_entry (length xs) (Some h) st' = Inr xs)"
proof -
  obtain st' where st': "run list_code ops st = Inr st'" "heap_lists st' (A, H)"
    using lists.runs [OF assms(2,1)] by blast
  have "list_empty (Some h) st' = Inr (xs = []) \<and> list_for_each_entry (length xs) (Some h) st' = Inr xs"
    if "H h = Some xs" for h xs
    using heap_listsD(1) [OF st'(2) that] by (simp add: list_empty_iff list_for_each_entry_visits)
  with st' show ?thesis by blast
qed

lemma lists_refine_witness:
  "\<exists>st. run list_code [Alloc 0, Init 0, Alloc 1, Add_tail 1 0, Alloc 2, Add (2::nat) 0] (\<lambda>_. None) = Inr st \<and>
     list_for_each_entry 2 (Some 0) st = Inr [2, 1]"
proof -
  let ?K = "(insert 2 (insert 1 (insert 0 {})), (\<lambda>_. None)(0 \<mapsto> [], 0 \<mapsto> [] @ [1], 0 \<mapsto> 2 # [1 :: nat]))"
  have "spec_run list_spec [Alloc 0, Init 0, Alloc 1, Add_tail 1 0, Alloc 2, Add 2 0] ({}, \<lambda>_. None) ?K"
    by (intro spec_more [where spec = list_spec, OF list_spec.alloc] spec_more [where spec = list_spec, OF list_spec.init] spec_done
        spec_more [where spec = list_spec, OF list_spec.add_tail [where xs = "[]"]] spec_more [where spec = list_spec, OF list_spec.add [where xs = "[1]"]])
      (auto simp: members_def split: if_splits)
  note ops = this
  have "heap_lists (\<lambda>_. None) ({}, \<lambda>_. None)"
    by (simp add: heap_lists_def disjoint_lists_def)
  from lists_refine [OF this ops] obtain st where
    st: "run list_code [Alloc 0, Init 0, Alloc 1, Add_tail 1 0, Alloc 2, Add (2::nat) 0] (\<lambda>_. None) = Inr st"
    "list_for_each_entry (length [2, 1 :: nat]) (Some 0) st = Inr [2, 1]"
    by (auto simp del: run.simps split: if_splits)
  have "length [2, 1 :: nat] = 2"
    by simp
  with st show ?thesis by metis
qed

text \<open>C34.  \<open>clear_modules\<close>, and the like loop over the symbols at the end of \<open>sort_modules\<close>, free every
  element of a list while walking along it, without touching one that is freed: the list ends up
  empty, its elements are no longer allocated, and every other list is as before.\<close>

theorem clear_list_frees:
  assumes "heap_lists st (A, H)" "H h = Some xs" "length xs \<le> k"
  shows "\<exists>st'. clear_list k (Some h) st = Inr st' \<and> heap_lists st' (A - set xs, H(h \<mapsto> []))"
proof -
  note l = heap_listsD(1) [OF assms(1,2)]
  have "hd (xs @ [h]) \<in> dom st"
    using is_list_head [OF l] by (cases xs) auto
  then show ?thesis
    using clear_from [OF assms] is_list_head(1,3) [OF l] by (simp add: clear_list_def list_for_each_safe_def)
qed

text \<open>A list of the elements 1 and 2 behind the head 0.\<close>

definition demo_heap :: "nat heap" where
  "demo_heap = [0 \<mapsto> \<lparr>prev_ptr = Some 2, next_ptr = Some 1\<rparr>, 1 \<mapsto> \<lparr>prev_ptr = Some 0, next_ptr = Some 2\<rparr>,
     2 \<mapsto> \<lparr>prev_ptr = Some 1, next_ptr = Some 0\<rparr>]"

lemma clear_list_frees_witness: "\<exists>st. clear_list 2 (Some 0) demo_heap = Inr st \<and> dom st = {0}"
proof -
  have "dom demo_heap = {0, 1, 2}"
    by (auto simp: demo_heap_def)
  then have "heap_lists demo_heap ({0, 1, 2}, [0 \<mapsto> [1, 2]])"
    by (auto simp: heap_lists_def disjoint_lists_def is_list_def nx_def pv_def demo_heap_def split: if_splits)
  from clear_list_frees [OF this, of 0 "[1, 2]" 2] show ?thesis
    by (auto simp: heap_lists_def)
qed

end
