(* ===== verification/Spec2Isabelle.thy ===== *)
theory Spec2Isabelle
  imports Tracing HartDeviates HartRefine DiskPath Devices StartUp Lists
begin

text \<open>
  xemu: an emulator of a RISC-V computer (RV64IMAC, a few floating-point moves, machine,
  supervisor and user mode, Sv39) in C.  This development is a shallow embedding of its
  sources under \<open>src/\<close> and the proof of what they do.

  \<^bold>\<open>The program.\<close>  \<open>main\<close> (\<open>xemu.c\<close>) reads the symbol map and the trace configuration, builds the
  bus, an address space whose children are the windows of the devices, loads the boot ROM and
  the kernel modules, and runs the main loop: check for an interrupt, fetch, decode, execute.
  Every load and store goes through \<open>as_read\<close> and \<open>as_write\<close>, which translate the address
  (\<open>mmu.c\<close>) and call the device whose window holds it.  Devices raise interrupts through the
  PLIC; the receiver of the serial port, the timer of the CLINT and the block device each have
  a thread of their own.

  \<^bold>\<open>Conventions.\<close>  A C integer is a word of its width, so arithmetic wraps as in C.  An operation
  that can fail returns \<open>stop + 'a\<close> (theory \<open>Prelude\<close>): \<open>Panic f\<close> is a call of \<open>panic\<close> in function
  \<open>f\<close>, \<open>UB f\<close> undefined behaviour of C (an index outside an array, a null pointer, a signed
  overflow), \<open>Hang f\<close> a wait that cannot end and \<open>Nested f\<close> an exhausted bound.  State is passed
  explicitly; the state of all parts is the record \<open>machine\<close>, which extends the CSRs, which extend
  the host (its clocks).  What is outside \<open>src/\<close> is an argument: the clocks, the byte \<open>getch\<close>
  returns, the contents of files and the listing of the directory \<open>image/\<close>.

  \<^bold>\<open>Theories.\<close>
  \<^item> \<open>Prelude\<close>, \<open>Bytes\<close>, \<open>Device\<close>, \<open>CString\<close>: shared types and lemmas; memory as bytes with the
    locale \<open>byte_memory\<close> of what memory promises, interpreted on RAM, flash and the bus; the
    locale \<open>bus_device\<close> of what a device promises, interpreted on the PLIC and the serial port;
    the string functions of the C library the source uses.
  \<^item> \<open>Simulation\<close>: the locale \<open>simulation\<close> of a step that implements a step of a specification, and
    what follows for any number of steps; interpreted on the main loop (\<open>Refine\<close>, \<open>HartRefine\<close>) and on the lists
    (\<open>Lists\<close>, which is \<open>list.h\<close> on a heap of pointers, with \<open>clear_modules\<close> of \<open>module.c\<close>).
  \<^item> \<open>Util\<close> (\<open>util.c\<close>, \<open>util.h\<close>), \<open>Operation\<close> (\<open>operation.c\<close>), \<open>Csr\<close> (\<open>csr.c\<close>), \<open>Interrupt\<close>
    (\<open>interrupt.h\<close>), \<open>Trap\<close> (\<open>trap.c\<close>, \<open>trap.h\<close>).
  \<^item> \<open>Dec32\<close>, \<open>Dec16\<close>, \<open>Decode\<close> (\<open>dec32.c\<close>, \<open>dec16.c\<close>, \<open>decode.c\<close>); \<open>Encode\<close> and \<open>Rvc\<close> have the
    encodings of the ISA manual, full and compressed, which the decoder inverts.
  \<^item> \<open>Ram\<close>, \<open>Rom\<close>, \<open>Flash\<close>, \<open>Plic\<close>, \<open>Clint\<close>, \<open>Uart\<close>, \<open>Rtc\<close>, \<open>PciHost\<close> (with \<open>fw_cfg.c\<close>): the devices, one
    record and one function per C function; \<open>Virtio\<close>, \<open>VirtioBlk\<close>, \<open>VirtioMmio\<close>: the queue, the
    block device and the transport.
  \<^item> \<open>AddressSpace\<close> (\<open>address_space.c\<close>), \<open>Machine\<close> (the state), \<open>Bus\<close> (the tree of \<open>main\<close> and the
    dispatch), \<open>Mmu\<close> (\<open>mmu.c\<close> as a walk of page tables), \<open>Execute\<close> (\<open>execute.c\<close>), \<open>Xemu\<close>
    (start-up, the main loop, the interleaving of the threads).
  \<^item> \<open>Elf\<close> (the structures of \<open>elf.h\<close> and \<open>module.h\<close>), \<open>Modules\<close> (\<open>module.c\<close>), \<open>SystemMap\<close>
    (\<open>system_map.c\<close>), \<open>Trace\<close> (\<open>yaml.c\<close> and the table of \<open>trace.c\<close>): what runs before the machine
    starts; \<open>Tracing\<close>: the printing of \<open>trace.c\<close> and the main loop compiled with it.
  \<^item> Proofs about several components: \<open>Isa\<close> (arithmetic is the ISA's), \<open>Invariant\<close> (what an access
    may change), \<open>Memory\<close> (the address map, RAM and translation seen from the bus), \<open>Steps\<close> (one
    instruction), \<open>Sv39\<close> (translation with the checks of the architecture),
    \<open>Privilege\<close> (levels are not enforced), \<open>Refine\<close>
    (the loop refines an interpreter of the ISA), \<open>Hart\<close> (a reference interpreter of the privileged
    architecture), \<open>HartRel\<close> and \<open>HartRefine\<close> (the loop refines it), \<open>HartDeviates\<close> (where it cannot),
    \<open>Deliver\<close> (a device's interrupt up to the handler's claim), \<open>BlockIo\<close> and \<open>VirtQueue\<close>
    (disk requests from the driver's rings to the image and back), \<open>DiskPath\<close> (a request from the
    driver's notification to the interrupt it takes, and the configuration space), \<open>Devices\<close> (serial port, timer,
    ROM), \<open>LoadOrder\<close> (the order of the modules), \<open>StartUp\<close> (\<open>main\<close> up to its loop, and what the flash
    holds then), and this theory (the invariant of every
    reachable machine).

  \<^bold>\<open>The main results.\<close>  Every reachable machine keeps \<open>machine_inv\<close>, under any interleaving of the
  threads (\<open>reachable_inv\<close>).  The main loop refines a reference interpreter written from the
  privileged architecture: programs at machine, supervisor and user level, behind Sv39 page tables,
  with page faults, environment calls, timer and external interrupts, delegation and the returns
  from traps (\<open>cpu_refines_hart\<close>); the interpreter stops at what the code gets wrong, which
  \<open>mmu_unchecked\<close>, \<open>privilege_unchecked\<close> and \<open>privileged_deviates\<close> state.  In machine mode
  it refines a smaller interpreter written from the unprivileged ISA (\<open>cpu_refines_isa\<close>).  The decoder inverts the encodings (\<open>decode_encode\<close>, \<open>decode_rvc\<close>, with the exceptions of
  \<open>rvc_deviates\<close>), translation
  grants what Sv39 grants (\<open>mmu_grants_sv39\<close>) and, for want of permission checks, more
  (\<open>mmu_unchecked\<close>), arithmetic is the ISA's where the C is defined (\<open>alu_isa\<close>,
  \<open>muldiv_isa\<close>) and the exceptions are listed (\<open>muldiv_deviates\<close>, \<open>atomics_deviate\<close>, \<open>fld_value\<close>,
  \<open>privilege_unchecked\<close>).
  Entering and leaving traps, delegation and the choice of interrupt are characterised in
  \<open>Trap\<close>, the PLIC in \<open>Plic\<close>, the disk in \<open>BlockIo\<close> and \<open>VirtQueue\<close>, the module order in \<open>LoadOrder\<close>.  Across components, a read
  that the driver posts ends with the sectors in its buffer (\<open>disk_read_path\<close>) and the hart in
  its handler (\<open>disk_interrupt\<close>), and a byte typed on the terminal reaches the program
  (\<open>uart_byte_path\<close>).  The operations of \<open>list.h\<close> implement lists (\<open>lists_refine\<close>), which
  is why the models of the list users have HOL lists.  Tracing does not change what the machine
  does (\<open>traced_step_core\<close>), unless it stops it (\<open>trace_outcome\<close>).

  \<^bold>\<open>Bounds.\<close>  The C recursion of the bus (a store to \<open>QUEUE_NOTIFY\<close> makes the transport store
  again) and the loop behind \<open>QUEUE_NOTIFY\<close> carry fuel in \<open>bus_write\<close>.  Fuel 1 is enough for every
  store that does not reach a transport, and more fuel never changes an answer that was not cut
  off (\<open>bus_write_fuel\<close>, \<open>cpu_step_fuel\<close>).  The traversal of the modules carries a bound on its
  depth, which \<open>sort_modules\<close> sets to one more than the number of modules; \<open>traverse_ok\<close> shows
  that it is never reached.  The walk of an indirect descriptor table ends by itself, since it
  stops at 1024 entries.

  \<^bold>\<open>Not modelled.\<close>  Terminal input (\<open>getch\<close>) and the text \<open>panic\<close> prints are host input and output;
  what \<open>trace.c\<close> printed before a panic is dropped with it.  Allocation is taken to succeed, and
  the program's one-time set-up of threads and mutexes has no counterpart: a step of a thread is
  atomic, at the grain of one pass of the main loop, one byte received, one check of the timer,
  one request taken or carried out.  \<open>bios/bios.h\<close> and \<open>tests/rom.c\<close> belong to guest programs and
  a test; \<open>fw_cfg_init\<close> and the \<open>config_readb\<close> callbacks of the block device are never called.
  Headers that only declare prototypes or constants nothing uses (\<open>pci.h\<close>, the identifiers of
  \<open>virtio.h\<close>, the unused bits of \<open>csr.h\<close>) have no definition; the constants in use are
  abbreviations.  Floating-point conversions are modelled as far as the moves of \<open>execute.c\<close>
  need them.  The reference interpreters leave out what \<open>None\<close> and \<open>Outside\<close> mark in \<open>Refine\<close> and \<open>Hart\<close>:
  among it accesses to devices, accesses that cross a page, the 32-bit and LR/SC atomics, vectored
  traps, and reads of the status and pending registers.
\<close>

text \<open>C1.  Whatever the threads do, in whatever order, a machine that \<open>main\<close> has started keeps
  its invariant: register x0 is zero, the privilege level is one the CSRs can hold, the bus
  is the one \<open>main\<close> built, and every device keeps the sizes and numbers its operations index
  with.\<close>

theorem reachable_inv:
  assumes "reachable fuel h im m"
  shows "machine_inv m"
  using assms
proof induction
  case (start m)
  then show ?case by (rule machine_init_inv)
next
  case (step m m')
  then show ?case by (blast intro: sys_step_inv)
qed

lemma reachable_inv_witness: "\<exists>m. reachable 2 demo_host demo_image m \<and> machine_inv m"
  using demo_init reachable_inv [of 2 demo_host demo_image] reachable.start by blast

end
